(* ===== verification/Swap_Prelude.thy ===== *)
theory Swap_Prelude
  imports Complex_Main
begin

text \<open>
  Shared vocabulary of the development: the Python exceptions the mote's code can raise,
  the result type of an operation that may raise, the combinators the component theories
  use to thread results (\<open>then_do\<close> for a sequence of statements, \<open>try_with\<close> for a
  \<open>try\<close> block with a bare \<open>except\<close>), and generic facts about options and about the
  first match of a list that the component proofs rely on. Two collections gather facts for the automation:
  \<open>swap_defs\<close> holds the unfolding equations of the mote's operations and
  \<open>swap_frame\<close> the facts about fields an operation leaves untouched.
\<close>

section \<open>Collections\<close>

named_theorems swap_defs "unfolding equations of the operations of the mote"
named_theorems swap_frame "fields of the mote and transmissions an operation leaves unchanged"

section \<open>Exceptions and results\<close>

text \<open>
  The exceptions that occur in \<open>SwapMote.py\<close>: \<open>SwapException\<close> with its message is raised by
  the constructor; \<open>IndexError\<close> is what \<open>deque.popleft\<close> raises on an empty queue;
  \<open>AttributeError\<close> is an attribute read on \<open>None\<close>; \<open>TypeError\<close> is iteration over or
  slicing of \<open>None\<close>; \<open>ValueError\<close> is what \<open>long(s, 16)\<close> raises on a malformed string.
\<close>

datatype py_error =
    SwapException string
  | IndexError
  | AttributeError
  | TypeError
  | ValueError

type_synonym 'a result = "py_error + 'a"

abbreviation raises :: "py_error \<Rightarrow> 'a result" where
  "raises e \<equiv> Inl e"

abbreviation returns :: "'a \<Rightarrow> 'a result" where
  "returns x \<equiv> Inr x"

definition is_ok :: "'a result \<Rightarrow> bool" where
  "is_ok r = (case r of Inl _ \<Rightarrow> False | Inr _ \<Rightarrow> True)"

definition or_else :: "'a option \<Rightarrow> 'a option \<Rightarrow> 'a option" where
  "or_else a b = (case a of Some x \<Rightarrow> Some x | None \<Rightarrow> b)"

text \<open>\<open>try_with r h\<close> is \<open>try: r except: h\<close> with a bare \<open>except\<close> clause.\<close>

definition try_with :: "'a result \<Rightarrow> 'a result \<Rightarrow> 'a result" where
  "try_with r h = (case r of Inl _ \<Rightarrow> h | Inr x \<Rightarrow> Inr x)"

text \<open>\<open>then_do r f\<close> runs \<open>f\<close> on the value of \<open>r\<close> and propagates an exception of \<open>r\<close>.\<close>

definition then_do :: "'a result \<Rightarrow> ('a \<Rightarrow> 'b result) \<Rightarrow> 'b result" where
  "then_do r f = (case r of Inl e \<Rightarrow> Inl e | Inr x \<Rightarrow> f x)"

section \<open>Facts about results and options\<close>

lemma is_ok_simps [simp]:
  "is_ok (Inr x)" "\<not> is_ok (Inl e)"
  by (simp_all add: is_ok_def)

lemma is_ok_iff: "is_ok r \<longleftrightarrow> (\<exists>x. r = Inr x)"
  by (cases r) simp_all

lemma then_do_simps [simp]:
  "then_do (Inl e) f = Inl e" "then_do (Inr x) f = f x"
  by (simp_all add: then_do_def)

lemma then_do_eq_Inr_iff:
  "then_do r f = Inr y \<longleftrightarrow> (\<exists>x. r = Inr x \<and> f x = Inr y)"
  by (cases r) simp_all

lemma try_with_simps [simp]:
  "try_with (Inl e) h = h" "try_with (Inr x) h = Inr x"
  by (simp_all add: try_with_def)

lemma try_with_eq_Inr_iff:
  "try_with r (Inl e) = Inr x \<longleftrightarrow> r = Inr x"
  by (cases r) simp_all

lemma try_with_eq_Inl_iff:
  "try_with r (Inl e) = Inl e' \<longleftrightarrow> \<not> is_ok r \<and> e' = e"
  by (cases r) auto

lemma or_else_simps [simp]:
  "or_else None b = b" "or_else (Some x) b = Some x" "or_else a None = a"
  by (simp_all add: or_else_def split: option.split)

lemma or_else_eq_None_iff [simp]: "or_else a b = None \<longleftrightarrow> a = None \<and> b = None"
  by (cases a) simp_all

lemma or_else_eq_Some_iff:
  "or_else a b = Some x \<longleftrightarrow> a = Some x \<or> (a = None \<and> b = Some x)"
  by (cases a) auto

section \<open>Facts about lists\<close>

text \<open>
  The searches of the source are first-match scans; \<open>List.find\<close> is their reference
  definition, and these facts are what the lookups need of it.
\<close>

lemma find_append_or_else: "List.find P (xs @ ys) = or_else (List.find P xs) (List.find P ys)"
  by (induction xs) simp_all

lemma find_Some_in_set: "List.find P xs = Some x \<Longrightarrow> x \<in> set xs \<and> P x"
  by (induction xs) (auto split: if_splits)

lemma find_None_conv: "List.find P xs = None \<longleftrightarrow> (\<forall>x \<in> set xs. \<not> P x)"
  by (induction xs) auto

lemma find_hit:
  "\<forall>y \<in> set pre. \<not> P y \<Longrightarrow> P x \<Longrightarrow> List.find P (pre @ x # post) = Some x"
  by (induction pre) simp_all

lemma find_first_match:
  "List.find P xs = Some x \<longleftrightarrow>
     (\<exists>pre post. xs = pre @ x # post \<and> P x \<and> (\<forall>y \<in> set pre. \<not> P y))"
proof
  assume "List.find P xs = Some x"
  then obtain i where "i < length xs" "P (xs ! i)" "x = xs ! i" "\<forall>j<i. \<not> P (xs ! j)"
    by (auto simp: find_Some_iff)
  then have "xs = take i xs @ x # drop (Suc i) xs \<and> P x \<and> (\<forall>y \<in> set (take i xs). \<not> P y)"
    by (auto simp: id_take_nth_drop in_set_conv_nth)
  then show "\<exists>pre post. xs = pre @ x # post \<and> P x \<and> (\<forall>y \<in> set pre. \<not> P y)" by blast
qed (auto simp: find_hit)

end
