(* ===== verification/Swap_Defs.thy ===== *)
theory Swap_Defs
  imports Swap_Prelude
begin

text \<open>
  The protocol vocabulary that \<open>SwapMote.py\<close> imports from \<open>SwapDefs\<close>, \<open>SwapValue\<close> and
  \<open>SwapPacket\<close>. None of these modules is part of the sources, so they are modelled at
  their interface: register identifiers and mote states are symbolic, a value is the raw
  datum together with the byte length it was built with, and a packet is the constructor
  call that made it. The encoding of values into bytes and the framing of packets are out
  of scope.
\<close>

section \<open>Register identifiers and mote states\<close>

text \<open>
  The six standard registers the mote's code names, and \<open>ID_REGISTER n\<close> for every other
  register of a device (its endpoints and device-specific configuration).
\<close>

datatype SwapRegId =
    ID_DEVICE_ADDR
  | ID_NETWORK_ID
  | ID_FREQ_CHANNEL
  | ID_SECU_OPTION
  | ID_TX_INTERVAL
  | ID_SYSTEM_STATE
  | ID_REGISTER nat

text \<open>
  The states the mote's code names, and \<open>STATE_OTHER n\<close> for any other state code a
  status packet may carry.
\<close>

datatype SwapState =
    RESTART
  | RXON
  | RXOFF
  | SYNC
  | STATE_OTHER nat

section \<open>Values\<close>

text \<open>
  \<open>SwapValue(x, length=n)\<close> builds a fixed-width value from a raw integer or from a state
  constant; the model keeps both arguments.
\<close>

datatype swap_raw =
    RawInt int
  | RawState SwapState

datatype SwapValue = SwapValue (raw: swap_raw) (byte_length: nat)

section \<open>Packets\<close>

text \<open>
  The three packet constructors the mote calls, with the arguments in the order of the
  source: destination address, register, value, and for a command the security nonce.
  The last argument is \<open>extended_addr\<close>. A status packet built without it (as
  \<open>cmdRegister\<close> does) carries \<open>None\<close> there: the constructor's default is not part of
  the sources.
\<close>

datatype SwapPacket =
    SwapStatusPacket int SwapRegId SwapValue "bool option"
  | SwapCommandPacket int SwapRegId SwapValue int bool
  | SwapQueryPacket int SwapRegId bool

primrec packet_address :: "SwapPacket \<Rightarrow> int" where
  "packet_address (SwapStatusPacket a r v x) = a"
| "packet_address (SwapCommandPacket a r v n x) = a"
| "packet_address (SwapQueryPacket a r x) = a"

primrec packet_register :: "SwapPacket \<Rightarrow> SwapRegId" where
  "packet_register (SwapStatusPacket a r v x) = r"
| "packet_register (SwapCommandPacket a r v n x) = r"
| "packet_register (SwapQueryPacket a r x) = r"

primrec packet_value :: "SwapPacket \<Rightarrow> SwapValue option" where
  "packet_value (SwapStatusPacket a r v x) = Some v"
| "packet_value (SwapCommandPacket a r v n x) = Some v"
| "packet_value (SwapQueryPacket a r x) = None"

primrec is_command :: "SwapPacket \<Rightarrow> bool" where
  "is_command (SwapStatusPacket a r v x) = False"
| "is_command (SwapCommandPacket a r v n x) = True"
| "is_command (SwapQueryPacket a r x) = False"

text \<open>A queued command is the pair \<open>(regid, value)\<close> that \<open>save_command\<close> appends.\<close>

type_synonym command = "SwapRegId \<times> SwapValue"

text \<open>The command a command packet carries, and the commands among a list of packets.\<close>

primrec packet_command :: "SwapPacket \<Rightarrow> command option" where
  "packet_command (SwapStatusPacket a r v x) = None"
| "packet_command (SwapCommandPacket a r v n x) = Some (r, v)"
| "packet_command (SwapQueryPacket a r x) = None"

definition commands_of :: "SwapPacket list \<Rightarrow> command list" where
  "commands_of ps = List.map_filter packet_command ps"

lemma commands_of_simps [simp]:
  "commands_of [] = []"
  "commands_of (SwapCommandPacket a r v n x # ps) = (r, v) # commands_of ps"
  "commands_of (SwapStatusPacket a r v y # ps) = commands_of ps"
  "commands_of (SwapQueryPacket a r x # ps) = commands_of ps"
  by (simp_all add: commands_of_def List.map_filter_simps)

lemma commands_of_append [simp]: "commands_of (ps @ qs) = commands_of ps @ commands_of qs"
  by (simp add: commands_of_def map_filter_def)

lemma length_commands_of_le: "length (commands_of ps) \<le> length ps"
  by (simp add: commands_of_def map_filter_def)

end
