(* ===== verification/Swap_Register.thy ===== *)
theory Swap_Register
  imports Swap_Defs
begin

text \<open>
  The register model and the two linear searches of \<open>getRegister\<close> and \<open>getParameter\<close>.
  A register list of the mote is \<open>None\<close> or a list (the constructor initialises both
  lists to \<open>None\<close> and \<open>dumps\<close> tests for it), so a search over a register list either
  raises \<open>TypeError\<close> (iteration over \<open>None\<close>) or returns the first match, if any. The
  searches are proved equal to \<open>List.find\<close>, which gives first-match, order and absence
  facts from the library.
\<close>

section \<open>Registers and parameters\<close>

text \<open>
  The attributes of \<open>SwapParam\<close> and \<open>SwapRegister\<close> that the mote reads: \<open>param.name\<close>,
  \<open>reg.id\<close>, \<open>reg.value\<close> and \<open>reg.parameters\<close> (prefixed here, since \<open>id\<close> is a
  constant of HOL and field names are global).
\<close>

record SwapParam =
  param_name :: string
  param_value :: SwapValue

record SwapRegister =
  reg_id :: SwapRegId
  reg_name :: string
  reg_value :: SwapValue
  parameters :: "SwapParam list"

section \<open>The searches\<close>

text \<open>\<open>for reg in regs: if reg.id == regId: return reg\<close>\<close>

primrec find_register :: "SwapRegId \<Rightarrow> SwapRegister list \<Rightarrow> SwapRegister option" where
  "find_register regId [] = None"
| "find_register regId (reg # regs) =
     (if reg_id reg = regId then Some reg else find_register regId regs)"

text \<open>\<open>for param in reg.parameters: if param.name == name: return param\<close>\<close>

primrec find_param :: "string \<Rightarrow> SwapParam list \<Rightarrow> SwapParam option" where
  "find_param nm [] = None"
| "find_param nm (param # params) =
     (if param_name param = nm then Some param else find_param nm params)"

text \<open>The nested loop of \<open>getParameter\<close> over one register list.\<close>

primrec find_parameter :: "string \<Rightarrow> SwapRegister list \<Rightarrow> SwapParam option" where
  "find_parameter nm [] = None"
| "find_parameter nm (reg # regs) =
     (case find_param nm (parameters reg) of
        Some param \<Rightarrow> Some param
      | None \<Rightarrow> find_parameter nm regs)"

text \<open>
  A \<open>for\<close> loop over a register list of the mote: \<open>TypeError\<close> when the list is \<open>None\<close>,
  else the result of the search.
\<close>

definition scan :: "('k \<Rightarrow> SwapRegister list \<Rightarrow> 'a option) \<Rightarrow> 'k \<Rightarrow>
    SwapRegister list option \<Rightarrow> 'a option result" where
  "scan search k regs =
     (case regs of None \<Rightarrow> raises TypeError | Some rs \<Rightarrow> returns (search k rs))"

text \<open>
  Two loops in a row, the second entered only when the first returned nothing: the body
  shared by \<open>getRegister\<close> and \<open>getParameter\<close>.
\<close>

definition scan_both :: "('k \<Rightarrow> SwapRegister list \<Rightarrow> 'a option) \<Rightarrow> 'k \<Rightarrow>
    SwapRegister list option \<Rightarrow> SwapRegister list option \<Rightarrow> 'a option result" where
  "scan_both search k regular config =
     then_do (scan search k regular)
       (\<lambda>found. case found of
                   Some x \<Rightarrow> returns (Some x)
                 | None \<Rightarrow> scan search k config)"

section \<open>The searches are first-match scans\<close>

lemma find_register_find:
  "find_register regId regs = List.find (\<lambda>reg. reg_id reg = regId) regs"
  by (induction regs) simp_all

lemma find_param_find:
  "find_param nm params = List.find (\<lambda>p. param_name p = nm) params"
  by (induction params) simp_all

lemma find_parameter_find:
  "find_parameter nm regs =
     List.find (\<lambda>p. param_name p = nm) (concat (map parameters regs))"
  by (induction regs)
    (simp_all add: find_param_find find_append_or_else or_else_def split: option.split)

lemma find_register_append:
  "find_register regId (xs @ ys) = or_else (find_register regId xs) (find_register regId ys)"
  by (simp add: find_register_find find_append_or_else)

lemma find_parameter_append:
  "find_parameter nm (xs @ ys) = or_else (find_parameter nm xs) (find_parameter nm ys)"
  by (simp add: find_parameter_find find_append_or_else)

lemma find_register_Some:
  "find_register regId regs = Some reg \<Longrightarrow> reg \<in> set regs \<and> reg_id reg = regId"
  using find_Some_in_set [of "\<lambda>reg. reg_id reg = regId" regs reg]
  by (simp add: find_register_find)

lemma find_register_Some_iff:
  "find_register regId regs = Some reg \<longleftrightarrow>
     (\<exists>pre post. regs = pre @ reg # post \<and> reg_id reg = regId \<and> regId \<notin> reg_id ` set pre)"
proof -
  have *: "regId \<notin> reg_id ` set pre \<longleftrightarrow> (\<forall>y \<in> set pre. reg_id y \<noteq> regId)" for pre
    by auto
  show ?thesis
    by (simp add: find_register_find find_first_match *)
qed

lemma find_register_None:
  "find_register regId regs = None \<longleftrightarrow> regId \<notin> reg_id ` set regs"
  by (auto simp: find_register_find find_None_conv)

lemma find_parameter_Some:
  "find_parameter nm regs = Some p \<Longrightarrow>
     (\<exists>reg \<in> set regs. p \<in> set (parameters reg)) \<and> param_name p = nm"
  using find_Some_in_set [of "\<lambda>p. param_name p = nm" "concat (map parameters regs)" p]
  by (auto simp: find_parameter_find)

lemma find_parameter_None:
  "find_parameter nm regs = None \<longleftrightarrow>
     (\<forall>reg \<in> set regs. nm \<notin> param_name ` set (parameters reg))"
  by (auto simp: find_parameter_find find_None_conv)

lemma find_register_distinct:
  "distinct (map reg_id regs) \<Longrightarrow> reg \<in> set regs \<Longrightarrow>
     find_register (reg_id reg) regs = Some reg"
  by (induction regs) (auto simp: rev_image_eqI)

section \<open>Scanning the two lists of a mote\<close>

lemma scan_simps [simp]:
  "scan search k None = raises TypeError"
  "scan search k (Some rs) = returns (search k rs)"
  by (simp_all add: scan_def)

lemma scan_both_Some [simp]:
  "scan_both search k (Some rs) (Some cs) =
     returns (or_else (search k rs) (search k cs))"
  by (simp add: scan_both_def split: option.split)

lemma scan_both_regular_None [simp]:
  "scan_both search k None config = raises TypeError"
  by (simp add: scan_both_def)

lemma scan_both_found_regular:
  "search k rs = Some x \<Longrightarrow> scan_both search k (Some rs) config = returns (Some x)"
  by (simp add: scan_both_def)

lemma scan_both_config_None:
  "search k rs = None \<Longrightarrow> scan_both search k (Some rs) None = raises TypeError"
  by (simp add: scan_both_def)

lemma scan_both_is_ok:
  "is_ok (scan_both search k regular config) \<longleftrightarrow>
     (\<exists>rs. regular = Some rs \<and> (search k rs = None \<longrightarrow> config \<noteq> None))"
  by (cases regular; cases config) (auto simp: scan_both_def split: option.splits)

end
