(* ===== verification/Swap_Mote.thy ===== *)
theory Swap_Mote
  imports Swap_Register
begin

text \<open>
  The state of a \<open>SwapMote\<close> object as a record, the device definition it is built from,
  and the operations of the class that read or write the object without talking to the
  server: \<open>getRegister\<close>, \<open>getParameter\<close> and \<open>updateTimeStamp\<close>. The attribute
  \<open>self.server\<close> is not a field: the server is the interface of \<open>Swap_Server\<close>, passed to
  every operation that uses it. The attribute \<open>self.config\<close> is assigned \<open>None\<close> once and
  never read, and is left out.
\<close>

section \<open>The device definition\<close>

text \<open>
  What the mote reads of its \<open>XmlDevice\<close>: the attributes \<open>manufacturer\<close>, \<open>product\<close>,
  \<open>pwrdownmode\<close> and \<open>txinterval\<close>, and the two register lists that \<open>getRegList\<close> returns.
\<close>

record XmlDevice =
  def_manufacturer :: string
  def_product :: string
  def_pwrdownmode :: bool
  def_txinterval :: int
  def_regular :: "SwapRegister list"
  def_config :: "SwapRegister list"

definition getRegList :: "XmlDevice \<Rightarrow> bool \<Rightarrow> SwapRegister list" where
  "getRegList d config = (if config then def_config d else def_regular d)"

section \<open>The mote\<close>

text \<open>
  The attributes of the object in the order the constructor assigns them. The attribute
  \<open>definition\<close> is a keyword of Isabelle and is named \<open>device_definition\<close> here. A register
  list is \<open>None\<close> or a list, as in the source. Integers are Python's unbounded integers;
  the time stamp is the float that \<open>time.time()\<close> returns.
\<close>

record SwapMote =
  queued_commands :: "command list"
  product_code :: string
  product_id :: int
  manufacturer_id :: int
  device_definition :: XmlDevice
  address :: int
  security :: int
  nonce :: int
  state :: SwapState
  regular_registers :: "SwapRegister list option"
  config_registers :: "SwapRegister list option"
  timestamp :: real
  pwrdownmode :: bool
  txinterval :: int
  extended_addr :: bool

section \<open>Operations on the object alone\<close>

definition updateTimeStamp :: "SwapMote \<Rightarrow> real \<Rightarrow> SwapMote" where
  "updateTimeStamp m now = m\<lparr>timestamp := now\<rparr>"

definition getRegister :: "SwapMote \<Rightarrow> SwapRegId \<Rightarrow> SwapRegister option result" where
  "getRegister m regId =
     scan_both find_register regId (regular_registers m) (config_registers m)"

definition getParameter :: "SwapMote \<Rightarrow> string \<Rightarrow> SwapParam option result" where
  "getParameter m nm =
     scan_both find_parameter nm (regular_registers m) (config_registers m)"

section \<open>Well-formed motes\<close>

text \<open>
  Both register lists are present. The constructor establishes this and no operation
  assigns the lists, so it holds of every mote a program can hold; under it the lookups
  never raise.
\<close>

definition has_registers :: "SwapMote \<Rightarrow> bool" where
  "has_registers m \<longleftrightarrow> regular_registers m \<noteq> None \<and> config_registers m \<noteq> None"

definition regular_list :: "SwapMote \<Rightarrow> SwapRegister list" where
  "regular_list m = (case regular_registers m of None \<Rightarrow> [] | Some rs \<Rightarrow> rs)"

definition config_list :: "SwapMote \<Rightarrow> SwapRegister list" where
  "config_list m = (case config_registers m of None \<Rightarrow> [] | Some rs \<Rightarrow> rs)"

text \<open>
  The identity of a mote: what the constructor derives from the product code and the
  device definition and nothing may change afterwards.
\<close>

definition same_identity :: "SwapMote \<Rightarrow> SwapMote \<Rightarrow> bool" where
  "same_identity m m' \<longleftrightarrow>
     product_code m' = product_code m \<and> product_id m' = product_id m \<and>
     manufacturer_id m' = manufacturer_id m \<and>
     device_definition m' = device_definition m \<and>
     regular_registers m' = regular_registers m \<and>
     config_registers m' = config_registers m \<and>
     pwrdownmode m' = pwrdownmode m \<and> nonce m' = nonce m \<and>
     extended_addr m' = extended_addr m"

section \<open>A device for the closed instances\<close>

text \<open>
  A sensor with two endpoint registers and one configuration register, and a mote of it
  as the constructor leaves it: product code \<open>0000000100000002\<close>, address 5, transmit
  interval 10, power-down mode enabled. The closed instances of the theorems are stated
  on this mote.
\<close>

definition voltage_reg :: SwapRegister where
  "voltage_reg =
     \<lparr>reg_id = ID_REGISTER 11, reg_name = ''Voltage'',
      reg_value = SwapValue (RawInt 3300) 2,
      parameters = [\<lparr>param_name = ''Voltage'', param_value = SwapValue (RawInt 3300) 2\<rparr>]\<rparr>"

definition climate_reg :: SwapRegister where
  "climate_reg =
     \<lparr>reg_id = ID_REGISTER 12, reg_name = ''Climate'',
      reg_value = SwapValue (RawInt 1378370) 4,
      parameters =
        [\<lparr>param_name = ''Temperature'', param_value = SwapValue (RawInt 215) 2\<rparr>,
         \<lparr>param_name = ''Humidity'', param_value = SwapValue (RawInt 450) 2\<rparr>]\<rparr>"

definition period_reg :: SwapRegister where
  "period_reg =
     \<lparr>reg_id = ID_REGISTER 13, reg_name = ''Period'',
      reg_value = SwapValue (RawInt 60) 2,
      parameters = [\<lparr>param_name = ''Period'', param_value = SwapValue (RawInt 60) 2\<rparr>]\<rparr>"

definition sensor_device :: XmlDevice where
  "sensor_device =
     \<lparr>def_manufacturer = ''panStamp'', def_product = ''Climate sensor'',
      def_pwrdownmode = True, def_txinterval = 10,
      def_regular = [voltage_reg, climate_reg], def_config = [period_reg]\<rparr>"

definition sensor_mote :: SwapMote where
  "sensor_mote =
     \<lparr>queued_commands = [], product_code = ''0000000100000002'', product_id = 2,
      manufacturer_id = 1, device_definition = sensor_device, address = 5, security = 0,
      nonce = 0, state = RXOFF, regular_registers = Some [voltage_reg, climate_reg],
      config_registers = Some [period_reg], timestamp = 0, pwrdownmode = True,
      txinterval = 10, extended_addr = False\<rparr>"

section \<open>Identity and well-formedness\<close>

lemma same_identity_refl [simp, swap_frame]: "same_identity m m"
  by (simp add: same_identity_def)

lemma same_identity_trans [trans]:
  "same_identity a b \<Longrightarrow> same_identity b c \<Longrightarrow> same_identity a c"
  by (simp add: same_identity_def)

lemma same_identity_update [simp, swap_frame]:
  "same_identity m (m\<lparr>queued_commands := q\<rparr>)"
  "same_identity m (m\<lparr>state := st\<rparr>)"
  "same_identity m (m\<lparr>address := a\<rparr>)"
  "same_identity m (m\<lparr>security := s\<rparr>)"
  "same_identity m (m\<lparr>txinterval := t\<rparr>)"
  "same_identity m (m\<lparr>timestamp := now\<rparr>)"
  by (simp_all add: same_identity_def)

lemma same_identity_has_registers:
  "same_identity m m' \<Longrightarrow> has_registers m' = has_registers m"
  by (simp add: same_identity_def has_registers_def)

lemma has_registers_lists:
  "has_registers m \<Longrightarrow>
     regular_registers m = Some (regular_list m) \<and> config_registers m = Some (config_list m)"
  by (auto simp: has_registers_def regular_list_def config_list_def)

section \<open>The example mote\<close>

lemmas sensor_defs = sensor_mote_def sensor_device_def voltage_reg_def climate_reg_def period_reg_def

lemma sensor_mote_fields [simp]:
  "queued_commands sensor_mote = []" "state sensor_mote = RXOFF" "pwrdownmode sensor_mote"
  "address sensor_mote = 5" "nonce sensor_mote = 0" "\<not> extended_addr sensor_mote"
  "security sensor_mote = 0" "txinterval sensor_mote = 10" "timestamp sensor_mote = 0"
  "regular_registers sensor_mote = Some [voltage_reg, climate_reg]"
  "config_registers sensor_mote = Some [period_reg]"
  by (simp_all add: sensor_mote_def)

lemma sensor_mote_has_registers [simp]: "has_registers sensor_mote"
  by (simp add: has_registers_def)

lemma sensor_mote_lists [simp]:
  "regular_list sensor_mote = [voltage_reg, climate_reg]"
  "config_list sensor_mote = [period_reg]"
  by (simp_all add: regular_list_def config_list_def)

lemmas sensor_regs = voltage_reg_def climate_reg_def period_reg_def

section \<open>The lookups\<close>

lemma updateTimeStamp_fields [simp]:
  "timestamp (updateTimeStamp m now) = now"
  "queued_commands (updateTimeStamp m now) = queued_commands m"
  "state (updateTimeStamp m now) = state m"
  "address (updateTimeStamp m now) = address m"
  "security (updateTimeStamp m now) = security m"
  "txinterval (updateTimeStamp m now) = txinterval m"
  by (simp_all add: updateTimeStamp_def)

lemma updateTimeStamp_identity [simp, swap_frame]:
  "same_identity m (updateTimeStamp m now)"
  by (simp add: updateTimeStamp_def)

lemma getRegister_has_registers:
  "has_registers m \<Longrightarrow>
     getRegister m regId =
       returns (or_else (find_register regId (regular_list m))
                        (find_register regId (config_list m)))"
  by (auto simp: getRegister_def dest: has_registers_lists)

lemma getParameter_has_registers:
  "has_registers m \<Longrightarrow>
     getParameter m nm =
       returns (or_else (find_parameter nm (regular_list m))
                        (find_parameter nm (config_list m)))"
  by (auto simp: getParameter_def dest: has_registers_lists)

lemma getRegister_append:
  "has_registers m \<Longrightarrow>
     getRegister m regId = returns (find_register regId (regular_list m @ config_list m))"
  by (simp add: getRegister_has_registers find_register_append)

lemma getParameter_append:
  "has_registers m \<Longrightarrow>
     getParameter m nm = returns (find_parameter nm (regular_list m @ config_list m))"
  by (simp add: getParameter_has_registers find_parameter_append)

lemma getRegister_same_identity:
  "same_identity m m' \<Longrightarrow> getRegister m' regId = getRegister m regId"
  by (simp add: getRegister_def same_identity_def)

lemma getParameter_same_identity:
  "same_identity m m' \<Longrightarrow> getParameter m' nm = getParameter m nm"
  by (simp add: getParameter_def same_identity_def)

lemma lookup_not_ok_TypeError:
  "\<not> is_ok (scan_both search k regular config) \<Longrightarrow>
     scan_both search k regular config = raises TypeError"
  by (cases regular; cases config) (auto simp: scan_both_def split: option.splits)

lemma getRegister_raises:
  "getRegister m r = raises e \<Longrightarrow> e = TypeError \<and> \<not> is_ok (getRegister m r)"
  using lookup_not_ok_TypeError [of find_register r "regular_registers m" "config_registers m"]
  by (simp add: getRegister_def)

section \<open>Properties of the lookups\<close>

text \<open>
  C20. The lookups return the first match, regular registers first. On a mote with both
  register lists, \<open>getRegister\<close> returns the first register with the identifier in the
  regular list followed by the configuration list: a register of the regular list wins
  over one of the configuration list with the same identifier, and within a list the
  earliest wins. \<open>getParameter\<close> returns the first parameter with the name in the
  parameters of the regular registers followed by those of the configuration registers,
  in list order. Each returns \<open>None\<close> when nothing matches.
\<close>

theorem lookups_first_match:
  assumes "has_registers m"
  shows "getRegister m regId =
           returns (List.find (\<lambda>reg. reg_id reg = regId) (regular_list m @ config_list m)) \<and>
         getParameter m nm =
           returns (List.find (\<lambda>p. param_name p = nm)
                      (concat (map parameters (regular_list m @ config_list m))))"
  using assms
  by (simp add: getRegister_append find_register_find getParameter_append find_parameter_find)

theorem lookups_first_match_witness:
  "has_registers (sensor_mote\<lparr>config_registers :=
       Some [voltage_reg\<lparr>reg_name := ''Shadow''\<rparr>, period_reg]\<rparr>) \<and>
   getRegister (sensor_mote\<lparr>config_registers :=
       Some [voltage_reg\<lparr>reg_name := ''Shadow''\<rparr>, period_reg]\<rparr>) (ID_REGISTER 11) =
     returns (Some voltage_reg) \<and>
   getParameter (sensor_mote\<lparr>config_registers :=
       Some [voltage_reg\<lparr>reg_name := ''Shadow''\<rparr>, period_reg]\<rparr>) ''Humidity'' =
     returns (Some \<lparr>param_name = ''Humidity'', param_value = SwapValue (RawInt 450) 2\<rparr>) \<and>
   getParameter (sensor_mote\<lparr>config_registers :=
       Some [voltage_reg\<lparr>reg_name := ''Shadow''\<rparr>, period_reg]\<rparr>) ''Pressure'' = returns None"
  using lookups_first_match [of "sensor_mote\<lparr>config_registers :=
       Some [voltage_reg\<lparr>reg_name := ''Shadow''\<rparr>, period_reg]\<rparr>" "ID_REGISTER 11" "''Humidity''"]
    lookups_first_match [of "sensor_mote\<lparr>config_registers :=
       Some [voltage_reg\<lparr>reg_name := ''Shadow''\<rparr>, period_reg]\<rparr>" "ID_REGISTER 11" "''Pressure''"]
  by (simp add: has_registers_def regular_list_def config_list_def sensor_regs)

text \<open>
  On a mote with both register lists, \<open>getRegister\<close> returns \<open>None\<close> exactly when no
  register of either list has the identifier, and it returns a register exactly when
  that register stands in the regular list followed by the configuration list, has the
  identifier, and no register before it has the identifier.
\<close>

lemma getRegister_result_iff:
  assumes "has_registers m"
  shows "(getRegister m regId = returns None \<longleftrightarrow>
            regId \<notin> reg_id ` set (regular_list m @ config_list m)) \<and>
         (getRegister m regId = returns (Some reg) \<longleftrightarrow>
            (\<exists>pre post. regular_list m @ config_list m = pre @ reg # post \<and>
               reg_id reg = regId \<and> regId \<notin> reg_id ` set pre))"
  using assms
  by (simp add: getRegister_append find_register_None find_register_Some_iff)

lemma getRegister_result_iff_sensor:
  "has_registers sensor_mote \<and>
   getRegister sensor_mote ID_SYSTEM_STATE = returns None \<and>
   getRegister sensor_mote (ID_REGISTER 12) = returns (Some climate_reg) \<and>
   regular_list sensor_mote @ config_list sensor_mote = [voltage_reg] @ climate_reg # [period_reg]"
proof -
  have 1: "has_registers sensor_mote" by simp
  have 2: "\<exists>pre post. regular_list sensor_mote @ config_list sensor_mote = pre @ climate_reg # post \<and>
      reg_id climate_reg = ID_REGISTER 12 \<and> ID_REGISTER 12 \<notin> reg_id ` set pre"
    by (rule exI [of _ "[voltage_reg]"], rule exI [of _ "[period_reg]"]) (simp add: sensor_regs)
  from getRegister_result_iff [OF 1, of "ID_REGISTER 12" climate_reg] 2
  have "getRegister sensor_mote (ID_REGISTER 12) = returns (Some climate_reg)" by blast
  with getRegister_result_iff [OF 1, of ID_SYSTEM_STATE climate_reg] show ?thesis
    by (simp add: sensor_regs)
qed

text \<open>
  C24. \<open>getRegister\<close> and \<open>getParameter\<close> return exactly when the regular list is present
  and either holds a match or the configuration list is present too; in every other case
  they raise \<open>TypeError\<close>. A mote whose register lists were left \<open>None\<close> cannot be
  searched.
\<close>

theorem lookup_raises_without_lists:
  "(is_ok (getRegister m regId) \<longleftrightarrow>
      (\<exists>rs. regular_registers m = Some rs \<and>
         (find_register regId rs = None \<longrightarrow> config_registers m \<noteq> None))) \<and>
   (\<not> is_ok (getRegister m regId) \<longrightarrow> getRegister m regId = raises TypeError) \<and>
   (is_ok (getParameter m nm) \<longleftrightarrow>
      (\<exists>rs. regular_registers m = Some rs \<and>
         (find_parameter nm rs = None \<longrightarrow> config_registers m \<noteq> None))) \<and>
   (\<not> is_ok (getParameter m nm) \<longrightarrow> getParameter m nm = raises TypeError)"
  unfolding getRegister_def getParameter_def
  by (simp add: scan_both_is_ok lookup_not_ok_TypeError)

theorem lookup_raises_without_lists_witness:
  "\<not> is_ok (getRegister (sensor_mote\<lparr>regular_registers := None\<rparr>) (ID_REGISTER 11)) \<and>
   getRegister (sensor_mote\<lparr>regular_registers := None\<rparr>) (ID_REGISTER 11) = raises TypeError \<and>
   \<not> is_ok (getParameter (sensor_mote\<lparr>config_registers := None\<rparr>) ''Period'') \<and>
   getParameter (sensor_mote\<lparr>config_registers := None\<rparr>) ''Period'' = raises TypeError \<and>
   is_ok (getParameter (sensor_mote\<lparr>config_registers := None\<rparr>) ''Humidity'')"
proof -
  have 1: "\<not> is_ok (getRegister (sensor_mote\<lparr>regular_registers := None\<rparr>) (ID_REGISTER 11))"
    by (simp add: getRegister_def)
  have 2: "\<not> is_ok (getParameter (sensor_mote\<lparr>config_registers := None\<rparr>) ''Period'')"
    by (simp add: getParameter_def scan_both_def sensor_regs)
  have 3: "is_ok (getParameter (sensor_mote\<lparr>config_registers := None\<rparr>) ''Humidity'')"
    by (simp add: getParameter_def scan_both_def sensor_regs)
  from 1 lookup_raises_without_lists [of "sensor_mote\<lparr>regular_registers := None\<rparr>"
      "ID_REGISTER 11" "''Period''"]
  have 4: "getRegister (sensor_mote\<lparr>regular_registers := None\<rparr>) (ID_REGISTER 11) =
      raises TypeError"
    by blast
  from 2 lookup_raises_without_lists [of "sensor_mote\<lparr>config_registers := None\<rparr>"
      "ID_REGISTER 11" "''Period''"]
  have 5: "getParameter (sensor_mote\<lparr>config_registers := None\<rparr>) ''Period'' = raises TypeError"
    by blast
  from 1 2 3 4 5 show ?thesis by blast
qed

end
