(* ===== verification/Swap_Server.thy ===== *)
theory Swap_Server
  imports Swap_Mote
begin

text \<open>
  The communication delegate (\<open>self.server\<close>). The mote consumes three operations of it:
  \<open>send\<close>, through \<open>packet.send(server)\<close>, and the two confirmed exchanges
  \<open>setMoteRegister\<close> and \<open>queryMoteRegister\<close>. The delegate is not part of the sources, so
  it is an interface: a record of three functions over a state \<open>'w\<close> of the delegate's
  own (the radio, its retry counters, the packets on the air). Every theorem about the
  mote is stated for an arbitrary delegate. A confirmed exchange is given the mote to read
  and returns its outcome with the delegate's next state; its blocking and its retries
  are inside it.

  \<open>recorder\<close> is one implementation, used where a theorem speaks of the sequence of
  transmissions and in the closed instances: it logs every call in order and answers the
  confirmed exchanges from a script.
\<close>

section \<open>The interface\<close>

record 'w SwapServer =
  send :: "SwapPacket \<Rightarrow> 'w \<Rightarrow> 'w"
  setMoteRegister :: "SwapMote \<Rightarrow> SwapRegId \<Rightarrow> SwapValue \<Rightarrow> 'w \<Rightarrow> bool \<times> 'w"
  queryMoteRegister :: "SwapMote \<Rightarrow> SwapRegId \<Rightarrow> 'w \<Rightarrow> SwapValue option \<times> 'w"

text \<open>Sending a list of packets one after the other.\<close>

definition send_all :: "'w SwapServer \<Rightarrow> SwapPacket list \<Rightarrow> 'w \<Rightarrow> 'w" where
  "send_all srv ps w = foldl (\<lambda>w p. send srv p w) w ps"

lemma send_all_simps [simp]:
  "send_all srv [] w = w"
  "send_all srv (p # ps) w = send_all srv ps (send srv p w)"
  by (simp_all add: send_all_def)

lemma send_all_append: "send_all srv (ps @ qs) w = send_all srv qs (send_all srv ps w)"
  by (simp add: send_all_def)

lemma send_all_snoc: "send_all srv (ps @ [p]) w = send srv p (send_all srv ps w)"
  by (simp add: send_all_def)

section \<open>A recording delegate\<close>

text \<open>
  What the recorder saw, in order: a packet handed to \<open>send\<close>, a confirmed write with the
  address of the mote and its outcome, a confirmed query with its answer.
\<close>

datatype wire_event =
    Sent SwapPacket
  | Wrote int SwapRegId SwapValue bool
  | Asked int SwapRegId "SwapValue option"

record wire =
  wire_log :: "wire_event list"
  acks :: "bool list"
  answers :: "SwapValue option list"

definition rec_send :: "SwapPacket \<Rightarrow> wire \<Rightarrow> wire" where
  "rec_send p w = w\<lparr>wire_log := wire_log w @ [Sent p]\<rparr>"

text \<open>An exhausted script answers as a timeout does: no acknowledgement, no value.\<close>

definition rec_set :: "SwapMote \<Rightarrow> SwapRegId \<Rightarrow> SwapValue \<Rightarrow> wire \<Rightarrow> bool \<times> wire" where
  "rec_set m r v w =
     (case acks w of
        [] \<Rightarrow> (False, w\<lparr>wire_log := wire_log w @ [Wrote (address m) r v False]\<rparr>)
      | a # as \<Rightarrow> (a, w\<lparr>wire_log := wire_log w @ [Wrote (address m) r v a], acks := as\<rparr>))"

definition rec_query :: "SwapMote \<Rightarrow> SwapRegId \<Rightarrow> wire \<Rightarrow> SwapValue option \<times> wire" where
  "rec_query m r w =
     (case answers w of
        [] \<Rightarrow> (None, w\<lparr>wire_log := wire_log w @ [Asked (address m) r None]\<rparr>)
      | a # as \<Rightarrow> (a, w\<lparr>wire_log := wire_log w @ [Asked (address m) r a], answers := as\<rparr>))"

definition recorder :: "wire SwapServer" where
  "recorder = \<lparr>send = rec_send, setMoteRegister = rec_set, queryMoteRegister = rec_query\<rparr>"

definition quiet :: "bool list \<Rightarrow> wire" where
  "quiet script = \<lparr>wire_log = [], acks = script, answers = []\<rparr>"

text \<open>The commands the recorder saw leave, by either path, in order.\<close>

primrec attempt :: "wire_event \<Rightarrow> command option" where
  "attempt (Sent p) = packet_command p"
| "attempt (Wrote a r v ok) = Some (r, v)"
| "attempt (Asked a r v) = None"

definition attempts :: "wire \<Rightarrow> command list" where
  "attempts w = List.map_filter attempt (wire_log w)"

text \<open>The packets handed to \<open>send\<close>, in order.\<close>

primrec sent_packet :: "wire_event \<Rightarrow> SwapPacket option" where
  "sent_packet (Sent p) = Some p"
| "sent_packet (Wrote a r v ok) = None"
| "sent_packet (Asked a r v) = None"

definition sent :: "wire \<Rightarrow> SwapPacket list" where
  "sent w = List.map_filter sent_packet (wire_log w)"

section \<open>What the recorder records\<close>

lemma recorder_simps [simp]:
  "send recorder = rec_send"
  "setMoteRegister recorder = rec_set"
  "queryMoteRegister recorder = rec_query"
  by (simp_all add: recorder_def)

lemma quiet_simps [simp]:
  "wire_log (quiet script) = []" "acks (quiet script) = script" "answers (quiet script) = []"
  by (simp_all add: quiet_def)

lemma rec_send_fields [simp]:
  "wire_log (rec_send p w) = wire_log w @ [Sent p]"
  "acks (rec_send p w) = acks w"
  "answers (rec_send p w) = answers w"
  by (simp_all add: rec_send_def)

lemma rec_set_fields [simp]:
  "fst (rec_set m r v w) = (case acks w of [] \<Rightarrow> False | a # as \<Rightarrow> a)"
  "wire_log (snd (rec_set m r v w)) = wire_log w @ [Wrote (address m) r v (fst (rec_set m r v w))]"
  "acks (snd (rec_set m r v w)) = tl (acks w)"
  "answers (snd (rec_set m r v w)) = answers w"
  by (simp_all add: rec_set_def split: list.split)

lemma rec_query_fields [simp]:
  "fst (rec_query m r w) = (case answers w of [] \<Rightarrow> None | a # as \<Rightarrow> a)"
  "wire_log (snd (rec_query m r w)) = wire_log w @ [Asked (address m) r (fst (rec_query m r w))]"
  "acks (snd (rec_query m r w)) = acks w"
  "answers (snd (rec_query m r w)) = tl (answers w)"
  by (simp_all add: rec_query_def split: list.split)

lemma send_all_recorder_log [simp]:
  "wire_log (send_all recorder ps w) = wire_log w @ map Sent ps"
  by (induction ps arbitrary: w) simp_all

lemma send_all_recorder_script [simp]:
  "acks (send_all recorder ps w) = acks w"
  "answers (send_all recorder ps w) = answers w"
  by (induction ps arbitrary: w) simp_all

lemma attempts_log:
  "wire_log w' = wire_log w @ es \<Longrightarrow> attempts w' = attempts w @ List.map_filter attempt es"
  by (simp add: attempts_def map_filter_def)

lemma sent_log:
  "wire_log w' = wire_log w @ es \<Longrightarrow> sent w' = sent w @ List.map_filter sent_packet es"
  by (simp add: sent_def map_filter_def)

lemma map_filter_attempt_Sent [simp]:
  "List.map_filter attempt (map Sent ps) = commands_of ps"
  by (induction ps) (simp_all add: commands_of_def map_filter_def)

lemma map_filter_sent_packet_Sent [simp]:
  "List.map_filter sent_packet (map Sent ps) = ps"
  by (induction ps) (simp_all add: map_filter_def)

lemma attempts_send_all [simp]:
  "attempts (send_all recorder ps w) = attempts w @ commands_of ps"
  by (simp add: attempts_log [where es = "map Sent ps"])

lemma sent_send_all [simp]: "sent (send_all recorder ps w) = sent w @ ps"
  by (simp add: sent_log [where es = "map Sent ps"])

lemma attempts_rec_set [simp]: "attempts (snd (rec_set m r v w)) = attempts w @ [(r, v)]"
  by (simp add: attempts_def map_filter_def)

lemma sent_rec_set [simp]: "sent (snd (rec_set m r v w)) = sent w"
  by (simp add: sent_def map_filter_def)

lemma attempts_rec_query [simp]: "attempts (snd (rec_query m r w)) = attempts w"
  by (simp add: attempts_def map_filter_def)

lemma sent_rec_query [simp]: "sent (snd (rec_query m r w)) = sent w"
  by (simp add: sent_def map_filter_def)

lemma attempts_rec_send [simp]:
  "attempts (rec_send p w) = attempts w @ (case packet_command p of None \<Rightarrow> [] | Some c \<Rightarrow> [c])"
  by (simp add: attempts_def map_filter_def split: option.split)

lemma sent_rec_send [simp]: "sent (rec_send p w) = sent w @ [p]"
  by (simp add: sent_def map_filter_def)

lemma attempts_quiet [simp]: "attempts (quiet script) = []"
  by (simp add: attempts_def map_filter_def)

lemma sent_quiet [simp]: "sent (quiet script) = []"
  by (simp add: sent_def map_filter_def)

end
