(* ===== verification/Swap_Commands.thy ===== *)
theory Swap_Commands
  imports Swap_Server
begin

text \<open>
  The operations of \<open>SwapMote\<close> that talk to the server: the three fire-and-forget
  transmissions \<open>cmdRegister\<close>, \<open>qryRegister\<close> and \<open>staRegister\<close>, the two confirmed
  exchanges \<open>cmdRegisterWack\<close> and \<open>qryRegisterWack\<close>, and the confirmed setters built on
  them. An operation takes the server, the mote and the server's state and returns what
  the method returns together with the mote and the server's state after the call; an
  operation that cannot assign an attribute of the mote returns no mote.
\<close>

section \<open>Fire and forget\<close>

text \<open>The command packet that \<open>cmdRegister\<close> builds for a register and a value.\<close>

definition command_packet :: "SwapMote \<Rightarrow> command \<Rightarrow> SwapPacket" where
  "command_packet m c =
     SwapCommandPacket (address m) (fst c) (snd c) (nonce m) (extended_addr m)"

definition cmdRegister :: "'w SwapServer \<Rightarrow> SwapMote \<Rightarrow> SwapRegId \<Rightarrow> SwapValue \<Rightarrow> 'w \<Rightarrow>
    SwapPacket \<times> 'w" where
  "cmdRegister srv m regId val w =
     (let infPacket = SwapStatusPacket (address m) regId val None;
          cmdPacket = SwapCommandPacket (address m) regId val (nonce m) (extended_addr m);
          w' = send srv cmdPacket w
      in (infPacket, w'))"

definition qryRegister :: "'w SwapServer \<Rightarrow> SwapMote \<Rightarrow> SwapRegId \<Rightarrow> 'w \<Rightarrow> 'w" where
  "qryRegister srv m regId w =
     (let qryPacket = SwapQueryPacket (address m) regId (extended_addr m)
      in send srv qryPacket w)"

text \<open>
  \<open>staRegister\<close> reads \<open>reg.value\<close> of what \<open>getRegister\<close> returned: on \<open>None\<close> that read
  raises \<open>AttributeError\<close>, before any packet is built.
\<close>

definition staRegister :: "'w SwapServer \<Rightarrow> SwapMote \<Rightarrow> SwapRegId \<Rightarrow> 'w \<Rightarrow> 'w result" where
  "staRegister srv m regId w =
     then_do (getRegister m regId)
       (\<lambda>reg. case reg of
                 None \<Rightarrow> raises AttributeError
               | Some r \<Rightarrow>
                   (let infPacket =
                      SwapStatusPacket (address m) regId (reg_value r) (Some (extended_addr m))
                    in returns (send srv infPacket w)))"

section \<open>Confirmed exchanges\<close>

definition cmdRegisterWack :: "'w SwapServer \<Rightarrow> SwapMote \<Rightarrow> SwapRegId \<Rightarrow> SwapValue \<Rightarrow> 'w \<Rightarrow>
    bool \<times> 'w" where
  "cmdRegisterWack srv m regId val w = setMoteRegister srv m regId val w"

definition qryRegisterWack :: "'w SwapServer \<Rightarrow> SwapMote \<Rightarrow> SwapRegId \<Rightarrow> 'w \<Rightarrow>
    SwapValue option \<times> 'w" where
  "qryRegisterWack srv m regId w = queryMoteRegister srv m regId w"

section \<open>Confirmed setters\<close>

definition setAddress :: "'w SwapServer \<Rightarrow> SwapMote \<Rightarrow> int \<Rightarrow> 'w \<Rightarrow> bool \<times> SwapMote \<times> 'w" where
  "setAddress srv m a w =
     (let val = SwapValue (RawInt a) 1;
          (res, w') = cmdRegisterWack srv m ID_DEVICE_ADDR val w
      in (res, (if res then m\<lparr>address := a\<rparr> else m), w'))"

definition setNetworkId :: "'w SwapServer \<Rightarrow> SwapMote \<Rightarrow> int \<Rightarrow> 'w \<Rightarrow> bool \<times> 'w" where
  "setNetworkId srv m netId w =
     (let val = SwapValue (RawInt netId) 2
      in cmdRegisterWack srv m ID_NETWORK_ID val w)"

text \<open>
  \<open>setFreqChannel\<close> binds the outcome to \<open>res\<close> and ends without a \<open>return\<close>: the caller
  gets \<open>None\<close>.
\<close>

definition setFreqChannel :: "'w SwapServer \<Rightarrow> SwapMote \<Rightarrow> int \<Rightarrow> 'w \<Rightarrow> bool option \<times> 'w" where
  "setFreqChannel srv m channel w =
     (let val = SwapValue (RawInt channel) 1;
          (res, w') = cmdRegisterWack srv m ID_FREQ_CHANNEL val w
      in (None, w'))"

definition setSecurity :: "'w SwapServer \<Rightarrow> SwapMote \<Rightarrow> int \<Rightarrow> 'w \<Rightarrow> bool \<times> SwapMote \<times> 'w" where
  "setSecurity srv m secu w =
     (let val = SwapValue (RawInt secu) 1;
          (res, w') = cmdRegisterWack srv m ID_SECU_OPTION val w
      in (res, (if res then m\<lparr>security := secu\<rparr> else m), w'))"

definition setTxInterval :: "'w SwapServer \<Rightarrow> SwapMote \<Rightarrow> int \<Rightarrow> 'w \<Rightarrow> bool \<times> SwapMote \<times> 'w" where
  "setTxInterval srv m interval w =
     (let val = SwapValue (RawInt interval) 2;
          (res, w') = cmdRegisterWack srv m ID_TX_INTERVAL val w
      in (res, (if res then m\<lparr>txinterval := interval\<rparr> else m), w'))"

definition restart :: "'w SwapServer \<Rightarrow> SwapMote \<Rightarrow> 'w \<Rightarrow> bool \<times> 'w" where
  "restart srv m w =
     (let val = SwapValue (RawState RESTART) 1
      in cmdRegisterWack srv m ID_SYSTEM_STATE val w)"

definition leaveSync :: "'w SwapServer \<Rightarrow> SwapMote \<Rightarrow> 'w \<Rightarrow> bool \<times> 'w" where
  "leaveSync srv m w =
     (let val = SwapValue (RawState RXOFF) 1
      in cmdRegisterWack srv m ID_SYSTEM_STATE val w)"

lemmas [swap_defs] =
  cmdRegister_def qryRegister_def cmdRegisterWack_def qryRegisterWack_def
  setAddress_def setNetworkId_def setFreqChannel_def setSecurity_def setTxInterval_def
  restart_def leaveSync_def

section \<open>Fire and forget: one transmission, nothing awaited\<close>

lemma command_packet_simps [simp]:
  "command_packet m (r, v) = SwapCommandPacket (address m) r v (nonce m) (extended_addr m)"
  "packet_command (command_packet m c) = Some c"
  "is_command (command_packet m c)"
  by (simp_all add: command_packet_def)

lemma commands_of_command_packets [simp]:
  "commands_of (map (command_packet m) cs) = cs"
  by (induction cs) (simp_all add: command_packet_def)

lemma cmdRegister_send:
  "snd (cmdRegister srv m regId val w) = send srv (command_packet m (regId, val)) w"
  by (simp add: cmdRegister_def)

lemma cmdRegister_expected:
  "fst (cmdRegister srv m regId val w) = SwapStatusPacket (address m) regId val None"
  by (simp add: cmdRegister_def)

lemma qryRegister_send:
  "qryRegister srv m regId w = send srv (SwapQueryPacket (address m) regId (extended_addr m)) w"
  by (simp add: qryRegister_def)

lemma staRegister_found:
  "getRegister m regId = returns (Some r) \<Longrightarrow>
     staRegister srv m regId w =
       returns (send srv (SwapStatusPacket (address m) regId (reg_value r)
                            (Some (extended_addr m))) w)"
  by (simp add: staRegister_def)

lemma staRegister_unknown:
  "getRegister m regId = returns None \<Longrightarrow> staRegister srv m regId w = raises AttributeError"
  by (simp add: staRegister_def)

lemma staRegister_raises:
  "getRegister m regId = raises e \<Longrightarrow> staRegister srv m regId w = raises e"
  by (simp add: staRegister_def)

section \<open>Confirmed setters: the outcome and the mirrored attribute\<close>

text \<open>
  Each setter makes exactly one confirmed write. The facts below give, for every setter,
  the outcome it returns, the state of the server after it and the mote after it, so
  that a proof about a setter never unfolds it.
\<close>

lemma setAddress_eq:
  "setAddress srv m a w =
     (let (res, w') = setMoteRegister srv m ID_DEVICE_ADDR (SwapValue (RawInt a) 1) w
      in (res, (if res then m\<lparr>address := a\<rparr> else m), w'))"
  by (simp add: swap_defs)

lemma setSecurity_eq:
  "setSecurity srv m s w =
     (let (res, w') = setMoteRegister srv m ID_SECU_OPTION (SwapValue (RawInt s) 1) w
      in (res, (if res then m\<lparr>security := s\<rparr> else m), w'))"
  by (simp add: swap_defs)

lemma setTxInterval_eq:
  "setTxInterval srv m t w =
     (let (res, w') = setMoteRegister srv m ID_TX_INTERVAL (SwapValue (RawInt t) 2) w
      in (res, (if res then m\<lparr>txinterval := t\<rparr> else m), w'))"
  by (simp add: swap_defs)

lemmas setter_eqs = setAddress_eq setSecurity_eq setTxInterval_eq

lemma setter_outcome [simp]:
  "fst (setAddress srv m a w) = fst (setMoteRegister srv m ID_DEVICE_ADDR (SwapValue (RawInt a) 1) w)"
  "fst (setSecurity srv m a w) = fst (setMoteRegister srv m ID_SECU_OPTION (SwapValue (RawInt a) 1) w)"
  "fst (setTxInterval srv m a w) = fst (setMoteRegister srv m ID_TX_INTERVAL (SwapValue (RawInt a) 2) w)"
  "fst (setNetworkId srv m a w) = fst (setMoteRegister srv m ID_NETWORK_ID (SwapValue (RawInt a) 2) w)"
  "fst (restart srv m w) = fst (setMoteRegister srv m ID_SYSTEM_STATE (SwapValue (RawState RESTART) 1) w)"
  "fst (leaveSync srv m w) = fst (setMoteRegister srv m ID_SYSTEM_STATE (SwapValue (RawState RXOFF) 1) w)"
  by (simp_all add: swap_defs split: prod.split)

lemma setter_world [simp]:
  "snd (snd (setAddress srv m a w)) = snd (setMoteRegister srv m ID_DEVICE_ADDR (SwapValue (RawInt a) 1) w)"
  "snd (snd (setSecurity srv m a w)) = snd (setMoteRegister srv m ID_SECU_OPTION (SwapValue (RawInt a) 1) w)"
  "snd (snd (setTxInterval srv m a w)) = snd (setMoteRegister srv m ID_TX_INTERVAL (SwapValue (RawInt a) 2) w)"
  "snd (setNetworkId srv m a w) = snd (setMoteRegister srv m ID_NETWORK_ID (SwapValue (RawInt a) 2) w)"
  "snd (setFreqChannel srv m a w) = snd (setMoteRegister srv m ID_FREQ_CHANNEL (SwapValue (RawInt a) 1) w)"
  "snd (restart srv m w) = snd (setMoteRegister srv m ID_SYSTEM_STATE (SwapValue (RawState RESTART) 1) w)"
  "snd (leaveSync srv m w) = snd (setMoteRegister srv m ID_SYSTEM_STATE (SwapValue (RawState RXOFF) 1) w)"
  by (simp_all add: swap_defs split: prod.split)

lemma setter_mote [simp]:
  "fst (snd (setAddress srv m a w)) = (if fst (setAddress srv m a w) then m\<lparr>address := a\<rparr> else m)"
  "fst (snd (setSecurity srv m a w)) = (if fst (setSecurity srv m a w) then m\<lparr>security := a\<rparr> else m)"
  "fst (snd (setTxInterval srv m a w)) = (if fst (setTxInterval srv m a w) then m\<lparr>txinterval := a\<rparr> else m)"
  by (simp_all add: swap_defs split: prod.split)

lemma setter_identity [swap_frame]:
  "same_identity m (fst (snd (setAddress srv m a w)))"
  "same_identity m (fst (snd (setSecurity srv m a w)))"
  "same_identity m (fst (snd (setTxInterval srv m a w)))"
  by simp_all

lemma setter_queue [simp, swap_frame]:
  "queued_commands (fst (snd (setAddress srv m a w))) = queued_commands m"
  "queued_commands (fst (snd (setSecurity srv m a w))) = queued_commands m"
  "queued_commands (fst (snd (setTxInterval srv m a w))) = queued_commands m"
  "state (fst (snd (setAddress srv m a w))) = state m"
  "state (fst (snd (setSecurity srv m a w))) = state m"
  "state (fst (snd (setTxInterval srv m a w))) = state m"
  by simp_all

section \<open>On the recorder\<close>

lemma cmdRegister_recorder [simp]:
  "wire_log (snd (cmdRegister recorder m r v w)) = wire_log w @ [Sent (command_packet m (r, v))]"
  "acks (snd (cmdRegister recorder m r v w)) = acks w"
  by (simp_all add: cmdRegister_def)

lemma staRegister_has_registers:
  "has_registers m \<Longrightarrow>
     staRegister srv m r w =
       (case find_register r (regular_list m @ config_list m) of
          None \<Rightarrow> raises AttributeError
        | Some reg \<Rightarrow>
            returns (send srv (SwapStatusPacket (address m) r (reg_value reg)
                                 (Some (extended_addr m))) w))"
  by (simp add: staRegister_def getRegister_append Let_def split: option.split)

lemma staRegister_raises_iff:
  "staRegister srv m r w = raises e \<longleftrightarrow>
     getRegister m r = returns None \<and> e = AttributeError \<or>
     \<not> is_ok (getRegister m r) \<and> e = TypeError"
  using getRegister_raises [of m r]
  by (cases "getRegister m r") (auto simp: staRegister_def Let_def split: option.splits)

section \<open>Properties of the commands and setters\<close>

text \<open>
  C15. \<open>setAddress\<close>, \<open>setSecurity\<close> and \<open>setTxInterval\<close> each make one confirmed write (of
  one, one and two bytes, to the address, security and transmit-interval register) and
  return its acknowledgement. When it is true the mote is the mote before the call with
  the mirrored attribute set to the argument; when it is false the mote is unchanged.
\<close>

theorem setters_mirror_iff_acked:
  "(fst (setAddress srv m a w) = fst (setMoteRegister srv m ID_DEVICE_ADDR (SwapValue (RawInt a) 1) w) \<and>
    (fst (setAddress srv m a w) \<longrightarrow> fst (snd (setAddress srv m a w)) = m\<lparr>address := a\<rparr>) \<and>
    (\<not> fst (setAddress srv m a w) \<longrightarrow> fst (snd (setAddress srv m a w)) = m)) \<and>
   (fst (setSecurity srv m a w) = fst (setMoteRegister srv m ID_SECU_OPTION (SwapValue (RawInt a) 1) w) \<and>
    (fst (setSecurity srv m a w) \<longrightarrow> fst (snd (setSecurity srv m a w)) = m\<lparr>security := a\<rparr>) \<and>
    (\<not> fst (setSecurity srv m a w) \<longrightarrow> fst (snd (setSecurity srv m a w)) = m)) \<and>
   (fst (setTxInterval srv m a w) = fst (setMoteRegister srv m ID_TX_INTERVAL (SwapValue (RawInt a) 2) w) \<and>
    (fst (setTxInterval srv m a w) \<longrightarrow> fst (snd (setTxInterval srv m a w)) = m\<lparr>txinterval := a\<rparr>) \<and>
    (\<not> fst (setTxInterval srv m a w) \<longrightarrow> fst (snd (setTxInterval srv m a w)) = m))"
  by simp

theorem setters_mirror_iff_acked_witness:
  "fst (setAddress recorder sensor_mote 9 (quiet [True])) \<and>
   address (fst (snd (setAddress recorder sensor_mote 9 (quiet [True])))) = 9 \<and>
   \<not> fst (setAddress recorder sensor_mote 9 (quiet [False])) \<and>
   address (fst (snd (setAddress recorder sensor_mote 9 (quiet [False])))) = 5"
  using setters_mirror_iff_acked [of recorder sensor_mote 9 "quiet [True]"]
    setters_mirror_iff_acked [of recorder sensor_mote 9 "quiet [False]"]
  by simp

text \<open>
  C16. \<open>setFreqChannel\<close> makes its confirmed write of one byte to the channel register and
  then returns \<open>None\<close> whatever the acknowledgement was, while its sibling \<open>setNetworkId\<close>
  returns the acknowledgement of its write of two bytes: the caller of \<open>setFreqChannel\<close>
  cannot tell a confirmed change from a failed one.
\<close>

theorem setFreqChannel_discards_outcome:
  "fst (setFreqChannel srv m c w) = None \<and>
   snd (setFreqChannel srv m c w) =
     snd (setMoteRegister srv m ID_FREQ_CHANNEL (SwapValue (RawInt c) 1) w) \<and>
   setNetworkId srv m n w = setMoteRegister srv m ID_NETWORK_ID (SwapValue (RawInt n) 2) w"
  by (simp add: setFreqChannel_def setNetworkId_def cmdRegisterWack_def split: prod.split)

text \<open>
  \<open>staRegister\<close> on a register identifier that is in neither list of the mote raises
  \<open>AttributeError\<close> and transmits nothing: it does not fail silently.
\<close>

lemma staRegister_unknown_raises:
  assumes "has_registers m"
    and "regId \<notin> reg_id ` set (regular_list m @ config_list m)"
  shows "staRegister srv m regId w = raises AttributeError"
  using assms find_register_None [of regId "regular_list m @ config_list m"]
  by (simp add: staRegister_has_registers)

lemma staRegister_unknown_raises_sensor:
  "has_registers sensor_mote \<and>
   ID_TX_INTERVAL \<notin> reg_id ` set (regular_list sensor_mote @ config_list sensor_mote) \<and>
   staRegister recorder sensor_mote ID_TX_INTERVAL (quiet []) = raises AttributeError"
proof -
  have 1: "has_registers sensor_mote" by simp
  have 2: "ID_TX_INTERVAL \<notin> reg_id ` set (regular_list sensor_mote @ config_list sensor_mote)"
    by (simp add: regular_list_def config_list_def voltage_reg_def climate_reg_def period_reg_def)
  from staRegister_unknown_raises [OF 1 2] 1 2 show ?thesis by simp
qed

text \<open>
  \<open>staRegister\<close> on a known register transmits exactly one status packet, to the
  mote's address and in the mote's addressing mode, carrying the value the register has
  locally; the register is the first match in the regular list, then the configuration
  list.
\<close>

lemma staRegister_reports_local_value:
  assumes "has_registers m"
    and "find_register regId (regular_list m @ config_list m) = Some reg"
  shows "staRegister srv m regId w =
           returns (send srv (SwapStatusPacket (address m) regId (reg_value reg)
                                (Some (extended_addr m))) w)"
  using assms by (simp add: staRegister_has_registers)

lemma staRegister_reports_local_value_sensor:
  "has_registers sensor_mote \<and>
   find_register (ID_REGISTER 13) (regular_list sensor_mote @ config_list sensor_mote) =
     Some period_reg \<and>
   staRegister recorder sensor_mote (ID_REGISTER 13) (quiet []) =
     returns (rec_send (SwapStatusPacket 5 (ID_REGISTER 13) (SwapValue (RawInt 60) 2) (Some False))
                (quiet []))"
proof -
  have 1: "has_registers sensor_mote" by simp
  have 2: "find_register (ID_REGISTER 13) (regular_list sensor_mote @ config_list sensor_mote) =
      Some period_reg"
    by (simp add: regular_list_def config_list_def voltage_reg_def climate_reg_def period_reg_def)
  from staRegister_reports_local_value [OF 1 2, of recorder "quiet []"] 1 2 show ?thesis
    by (simp add: period_reg_def)
qed

text \<open>
  \<open>cmdRegister\<close> performs exactly one transmission and waits for nothing: the
  server sees one more packet, the command packet with the mote's address, nonce and
  addressing mode, and its script of acknowledgements is untouched. The expected response
  it returns is a status packet with the same address, register and value, built without
  the mote's addressing mode.
\<close>

lemma cmdRegister_transmits_once:
  "sent (snd (cmdRegister recorder m r v w)) =
     sent w @ [SwapCommandPacket (address m) r v (nonce m) (extended_addr m)] \<and>
   length (wire_log (snd (cmdRegister recorder m r v w))) = length (wire_log w) + 1 \<and>
   acks (snd (cmdRegister recorder m r v w)) = acks w \<and>
   fst (cmdRegister recorder m r v w) = SwapStatusPacket (address m) r v None"
  by (simp add: cmdRegister_expected cmdRegister_send)

end
