(* ===== verification/Swap_Queue.thy ===== *)
theory Swap_Queue
  imports Swap_Commands
begin

text \<open>
  The command queue and the power-state handler: \<open>save_command\<close> with its two typed
  wrappers, the introspection operations \<open>nbof_saved_commands\<close> and \<open>get_saved_command\<close>,
  and \<open>update_state\<close> with its flush loop. The loop is \<open>flush\<close>, a recursion on the number
  of passes that \<open>range(nb_cmds)\<close> fixes before the first pass; each pass pops with
  \<open>get_saved_command\<close>, whose \<open>IndexError\<close> on an empty queue is a branch of the model,
  and transmits with \<open>cmdRegister\<close>. The lemmas show that the loop is a \<open>send_all\<close> over
  the queue in its order, that it cannot raise when it is entered from \<open>update_state\<close>,
  and what each branch of \<open>save_command\<close> does to the mote and to the server.
\<close>

section \<open>Operations\<close>

text \<open>
  \<open>receiving_now\<close> is the test of \<open>save_command\<close> for sending at once, and \<open>wakes\<close> the test
  of \<open>update_state\<close> for flushing. They differ on \<open>SYNC\<close>.
\<close>

definition receiving_now :: "SwapMote \<Rightarrow> bool" where
  "receiving_now m \<longleftrightarrow> state m = RXON \<or> \<not> pwrdownmode m"

definition wakes :: "SwapState \<Rightarrow> bool" where
  "wakes st \<longleftrightarrow> st \<in> set [RXON, SYNC]"

definition save_command :: "'w SwapServer \<Rightarrow> SwapMote \<Rightarrow> SwapRegId \<Rightarrow> SwapValue \<Rightarrow> 'w \<Rightarrow>
    bool option \<times> SwapMote \<times> 'w" where
  "save_command srv m regid val w =
     (if state m = RXON \<or> \<not> pwrdownmode m then
        (let (res, w') = cmdRegisterWack srv m regid val w in (Some res, m, w'))
      else (None, m\<lparr>queued_commands := queued_commands m @ [(regid, val)]\<rparr>, w))"

definition save_address_command :: "'w SwapServer \<Rightarrow> SwapMote \<Rightarrow> int \<Rightarrow> 'w \<Rightarrow>
    bool option \<times> SwapMote \<times> 'w" where
  "save_address_command srv m a w =
     (let val = SwapValue (RawInt a) 1
      in save_command srv m ID_DEVICE_ADDR val w)"

definition save_txinterval_command :: "'w SwapServer \<Rightarrow> SwapMote \<Rightarrow> int \<Rightarrow> 'w \<Rightarrow>
    bool option \<times> SwapMote \<times> 'w" where
  "save_txinterval_command srv m interval w =
     (let val = SwapValue (RawInt interval) 2
      in save_command srv m ID_TX_INTERVAL val w)"

definition nbof_saved_commands :: "SwapMote \<Rightarrow> nat" where
  "nbof_saved_commands m = length (queued_commands m)"

text \<open>\<open>deque.popleft()\<close>: the oldest entry, or \<open>IndexError\<close> on an empty queue.\<close>

definition get_saved_command :: "SwapMote \<Rightarrow> (command \<times> SwapMote) result" where
  "get_saved_command m =
     (case queued_commands m of
        [] \<Rightarrow> raises IndexError
      | c # cs \<Rightarrow> returns (c, m\<lparr>queued_commands := cs\<rparr>))"

text \<open>
  The body of \<open>for i in range(nb_cmds)\<close>, \<open>n\<close> passes: pop the oldest command, transmit
  it with \<open>cmdRegister\<close> and drop the expected response.
\<close>

primrec flush :: "'w SwapServer \<Rightarrow> nat \<Rightarrow> SwapMote \<Rightarrow> 'w \<Rightarrow> (SwapMote \<times> 'w) result" where
  "flush srv 0 m w = returns (m, w)"
| "flush srv (Suc n) m w =
     (case get_saved_command m of
        Inl e \<Rightarrow> raises e
      | Inr ((regid, val), m') \<Rightarrow> flush srv n m' (snd (cmdRegister srv m' regid val w)))"

definition update_state :: "'w SwapServer \<Rightarrow> SwapMote \<Rightarrow> SwapState \<Rightarrow> 'w \<Rightarrow>
    (SwapMote \<times> 'w) result" where
  "update_state srv m st w =
     (let m = m\<lparr>state := st\<rparr> in
      if st \<in> set [RXON, SYNC] then
        (let nb_cmds = nbof_saved_commands m in
         if nb_cmds > 0 then flush srv nb_cmds m w else returns (m, w))
      else returns (m, w))"

text \<open>
  The same loop when other callers append to the queue while it runs (the object has no
  lock): \<open>lates\<close> gives, for each pass, the commands that are appended after the
  transmission of that pass. The number of passes is the length of \<open>lates\<close>, fixed
  before the first pass as \<open>range(nb_cmds)\<close> fixes it.
\<close>

primrec flush_with :: "'w SwapServer \<Rightarrow> command list list \<Rightarrow> SwapMote \<Rightarrow> 'w \<Rightarrow>
    (SwapMote \<times> 'w) result" where
  "flush_with srv [] m w = returns (m, w)"
| "flush_with srv (late # lates) m w =
     (case get_saved_command m of
        Inl e \<Rightarrow> raises e
      | Inr ((regid, val), m') \<Rightarrow>
          flush_with srv lates (m'\<lparr>queued_commands := queued_commands m' @ late\<rparr>)
            (snd (cmdRegister srv m' regid val w)))"

lemmas [swap_defs] =
  save_command_def save_address_command_def save_txinterval_command_def
  nbof_saved_commands_def get_saved_command_def update_state_def

section \<open>The two tests\<close>

lemma wakes_iff [simp]: "wakes st \<longleftrightarrow> st = RXON \<or> st = SYNC"
  by (auto simp: wakes_def)

lemma receiving_now_update [simp]:
  "receiving_now (m\<lparr>queued_commands := q\<rparr>) = receiving_now m"
  "receiving_now (m\<lparr>address := a\<rparr>) = receiving_now m"
  "receiving_now (m\<lparr>security := s\<rparr>) = receiving_now m"
  "receiving_now (m\<lparr>txinterval := t\<rparr>) = receiving_now m"
  "receiving_now (m\<lparr>timestamp := now\<rparr>) = receiving_now m"
  "receiving_now (m\<lparr>state := st\<rparr>) \<longleftrightarrow> st = RXON \<or> \<not> pwrdownmode m"
  by (simp_all add: receiving_now_def)

section \<open>Introspection\<close>

lemma get_saved_command_Nil:
  "queued_commands m = [] \<Longrightarrow> get_saved_command m = raises IndexError"
  by (simp add: get_saved_command_def)

lemma get_saved_command_Cons:
  "queued_commands m = c # cs \<Longrightarrow>
     get_saved_command m = returns (c, m\<lparr>queued_commands := cs\<rparr>)"
  by (simp add: get_saved_command_def)

lemma get_saved_command_is_ok: "is_ok (get_saved_command m) \<longleftrightarrow> 0 < nbof_saved_commands m"
  by (simp add: get_saved_command_def nbof_saved_commands_def split: list.split)

lemma get_saved_command_returns:
  "get_saved_command m = returns (c, m') \<longleftrightarrow>
     queued_commands m = c # queued_commands m' \<and> m' = m\<lparr>queued_commands := tl (queued_commands m)\<rparr>"
  by (auto simp: get_saved_command_def split: list.split)

lemma get_saved_command_nbof:
  "get_saved_command m = returns (c, m') \<Longrightarrow>
     Suc (nbof_saved_commands m') = nbof_saved_commands m"
  by (auto simp: get_saved_command_def nbof_saved_commands_def split: list.splits)

section \<open>The flush loop\<close>

lemma command_packet_update [simp]:
  "command_packet (m\<lparr>queued_commands := q\<rparr>) = command_packet m"
  "command_packet (m\<lparr>state := st\<rparr>) = command_packet m"
  "command_packet (m\<lparr>timestamp := now\<rparr>) = command_packet m"
  "command_packet (m\<lparr>security := s\<rparr>) = command_packet m"
  "command_packet (m\<lparr>txinterval := t\<rparr>) = command_packet m"
  by (simp_all add: command_packet_def fun_eq_iff)

text \<open>
  \<open>n\<close> passes over a queue of at least \<open>n\<close> commands transmit its first \<open>n\<close> commands in
  order and leave the rest; the mote is generalised, since each pass changes it.
\<close>

lemma flush_take_drop:
  "n \<le> length (queued_commands m) \<Longrightarrow>
     flush srv n m w =
       returns (m\<lparr>queued_commands := drop n (queued_commands m)\<rparr>,
                send_all srv (map (command_packet m) (take n (queued_commands m))) w)"
proof (induction n arbitrary: m w)
  case 0
  show ?case by simp
next
  case (Suc n)
  then obtain c cs where q: "queued_commands m = c # cs"
    by (cases "queued_commands m") auto
  obtain r v where c: "c = (r, v)" by (cases c)
  let ?m' = "m\<lparr>queued_commands := cs\<rparr>"
  from Suc.prems q have "n \<le> length (queued_commands ?m')" by simp
  from Suc.IH [OF this] q c show ?case
    by (simp add: get_saved_command_Cons cmdRegister_send)
qed

text \<open>More passes than commands: the pass after the last command raises.\<close>

lemma flush_underflow:
  "length (queued_commands m) < n \<Longrightarrow> flush srv n m w = raises IndexError"
proof (induction n arbitrary: m w)
  case 0
  then show ?case by simp
next
  case (Suc n)
  show ?case
  proof (cases "queued_commands m")
    case Nil
    then show ?thesis by (simp add: get_saved_command_Nil)
  next
    case (Cons c cs)
    obtain r v where c: "c = (r, v)" by (cases c)
    from Suc.prems Cons have "length (queued_commands (m\<lparr>queued_commands := cs\<rparr>)) < n"
      by simp
    from Suc.IH [OF this] Cons c show ?thesis
      by (simp add: get_saved_command_Cons)
  qed
qed

lemma flush_is_ok: "is_ok (flush srv n m w) \<longleftrightarrow> n \<le> nbof_saved_commands m"
proof (cases "n \<le> length (queued_commands m)")
  case True
  then show ?thesis by (simp add: flush_take_drop nbof_saved_commands_def)
next
  case False
  then show ?thesis by (simp add: flush_underflow nbof_saved_commands_def)
qed

lemma flush_all:
  "flush srv (length (queued_commands m)) m w =
     returns (m\<lparr>queued_commands := []\<rparr>,
              send_all srv (map (command_packet m) (queued_commands m)) w)"
  by (simp add: flush_take_drop)

section \<open>The handler\<close>

lemma update_state_wakes:
  "wakes st \<Longrightarrow>
     update_state srv m st w =
       returns (m\<lparr>state := st, queued_commands := []\<rparr>,
                send_all srv (map (command_packet m) (queued_commands m)) w)"
proof -
  let ?m = "m\<lparr>state := st\<rparr>"
  assume "wakes st"
  moreover have "flush srv (length (queued_commands ?m)) ?m w =
      returns (?m\<lparr>queued_commands := []\<rparr>,
               send_all srv (map (command_packet ?m) (queued_commands ?m)) w)"
    by (rule flush_all)
  ultimately show ?thesis
    by (cases "queued_commands m") (auto simp: update_state_def nbof_saved_commands_def)
qed

lemma update_state_sleeps:
  "\<not> wakes st \<Longrightarrow> update_state srv m st w = returns (m\<lparr>state := st\<rparr>, w)"
  by (simp add: update_state_def)

lemma update_state_is_ok [simp]: "is_ok (update_state srv m st w)"
  by (cases "wakes st") (simp_all add: update_state_wakes update_state_sleeps)

lemma update_state_not_raises [simp]: "update_state srv m st w \<noteq> raises e"
  using update_state_is_ok [of srv m st w] by (auto simp del: update_state_is_ok)

lemma raises_not_update_state [simp]: "raises e \<noteq> update_state srv m st w"
  by (rule not_sym) (rule update_state_not_raises)

lemma update_state_frame [swap_frame]:
  "update_state srv m st w = returns (m', w') \<Longrightarrow>
     same_identity m m' \<and> state m' = st \<and> timestamp m' = timestamp m \<and>
     address m' = address m \<and> security m' = security m \<and> txinterval m' = txinterval m"
  by (cases "wakes st") (auto simp: update_state_wakes update_state_sleeps same_identity_def)

text \<open>
  The loop under appends by other callers: the passes transmit what was queued when the
  loop started, and what was appended meanwhile stays queued, in its order.
\<close>

lemma flush_with_take_drop:
  "length lates \<le> length (queued_commands m) \<Longrightarrow>
     flush_with srv lates m w =
       returns (m\<lparr>queued_commands := drop (length lates) (queued_commands m) @ concat lates\<rparr>,
                send_all srv (map (command_packet m) (take (length lates) (queued_commands m))) w)"
proof (induction lates arbitrary: m w)
  case Nil
  show ?case by simp
next
  case (Cons late lates)
  then obtain c cs where q: "queued_commands m = c # cs"
    by (cases "queued_commands m") auto
  obtain r v where c: "c = (r, v)" by (cases c)
  let ?m' = "m\<lparr>queued_commands := cs @ late\<rparr>"
  from Cons.prems q have len: "length lates \<le> length cs" by simp
  then have "length lates \<le> length (queued_commands ?m')" by simp
  from Cons.IH [OF this] q c len show ?case
    by (simp add: get_saved_command_Cons cmdRegister_send)
qed

lemma flush_with_no_lates: "flush_with srv (replicate n []) m w = flush srv n m w"
  by (induction n arbitrary: m w) (simp_all split: sum.split prod.split)

section \<open>The decision of \<open>save_command\<close>\<close>

lemma save_command_now:
  "receiving_now m \<Longrightarrow>
     save_command srv m r v w =
       (Some (fst (setMoteRegister srv m r v w)), m, snd (setMoteRegister srv m r v w))"
  by (simp add: save_command_def receiving_now_def cmdRegisterWack_def split: prod.split)

lemma save_command_later:
  "\<not> receiving_now m \<Longrightarrow>
     save_command srv m r v w = (None, m\<lparr>queued_commands := queued_commands m @ [(r, v)]\<rparr>, w)"
  by (simp add: save_command_def receiving_now_def)

lemma save_command_pending_iff:
  "fst (save_command srv m r v w) = None \<longleftrightarrow> \<not> receiving_now m"
  by (simp add: save_command_def receiving_now_def split: prod.split)

lemma save_command_identity [simp, swap_frame]:
  "same_identity m (fst (snd (save_command srv m r v w)))"
  by (cases "receiving_now m") (simp_all add: save_command_now save_command_later)

lemma save_command_state [simp, swap_frame]:
  "state (fst (snd (save_command srv m r v w))) = state m"
  "address (fst (snd (save_command srv m r v w))) = address m"
  "security (fst (snd (save_command srv m r v w))) = security m"
  "txinterval (fst (snd (save_command srv m r v w))) = txinterval m"
  "timestamp (fst (snd (save_command srv m r v w))) = timestamp m"
  by (cases "receiving_now m"; simp add: save_command_now save_command_later)+

lemma save_command_queue:
  "queued_commands (fst (snd (save_command srv m r v w))) =
     (if receiving_now m then queued_commands m else queued_commands m @ [(r, v)])"
  by (simp add: save_command_now save_command_later)

lemma save_address_command_eq:
  "save_address_command srv m a w = save_command srv m ID_DEVICE_ADDR (SwapValue (RawInt a) 1) w"
  by (simp add: save_address_command_def)

lemma save_txinterval_command_eq:
  "save_txinterval_command srv m t w =
     save_command srv m ID_TX_INTERVAL (SwapValue (RawInt t) 2) w"
  by (simp add: save_txinterval_command_def)

section \<open>Properties of the handler and of the queue\<close>

text \<open>
  C1. For every server, mote, reported state and server state, \<open>update_state\<close> returns
  and never raises. It records the reported state whatever it is; when the state is
  \<open>RXON\<close> or \<open>SYNC\<close> it hands the command packet of every queued command to \<open>send\<close>, oldest
  first, each exactly once and by the fire-and-forget path, and leaves the queue empty;
  otherwise it transmits nothing and leaves the queue as it is. The pop-and-transmit loop
  is thereby equal to one \<open>send_all\<close> over the queue. Every other attribute of the mote is
  as it was: in particular the method does not update the time stamp.
\<close>

theorem update_state_flush:
  "update_state srv m st w =
     returns (if st = RXON \<or> st = SYNC
              then (m\<lparr>state := st, queued_commands := []\<rparr>,
                    send_all srv (map (command_packet m) (queued_commands m)) w)
              else (m\<lparr>state := st\<rparr>, w))"
  by (simp add: update_state_wakes update_state_sleeps)

text \<open>
  C5. When the mote is in a state other than \<open>RXON\<close> and its power-down mode is enabled,
  \<open>save_command\<close> returns \<open>None\<close> (pending), appends the pair of register and value at the
  tail of the queue, so that the number of saved commands grows by exactly one, changes
  nothing else of the mote and does not touch the server.
\<close>

theorem save_command_defers:
  assumes "state m \<noteq> RXON" and "pwrdownmode m"
  shows "save_command srv m r v w =
           (None, m\<lparr>queued_commands := queued_commands m @ [(r, v)]\<rparr>, w) \<and>
         nbof_saved_commands (fst (snd (save_command srv m r v w))) =
           nbof_saved_commands m + 1"
  using assms by (simp add: save_command_later receiving_now_def nbof_saved_commands_def)

theorem save_command_defers_witness:
  "state sensor_mote \<noteq> RXON \<and> pwrdownmode sensor_mote \<and>
   save_command recorder sensor_mote ID_TX_INTERVAL (SwapValue (RawInt 30) 2) (quiet []) =
     (None, sensor_mote\<lparr>queued_commands := [(ID_TX_INTERVAL, SwapValue (RawInt 30) 2)]\<rparr>,
      quiet []) \<and>
   nbof_saved_commands
     (fst (snd (save_command recorder sensor_mote ID_TX_INTERVAL (SwapValue (RawInt 30) 2)
                  (quiet [])))) = 1"
  using save_command_defers [of sensor_mote recorder ID_TX_INTERVAL "SwapValue (RawInt 30) 2"
      "quiet []"]
  by (simp add: nbof_saved_commands_def)

text \<open>
  C6. When the mote is in state \<open>RXON\<close>, or its power-down mode is disabled whatever its
  state, \<open>save_command\<close> enqueues nothing: it makes the confirmed write of the register
  through the server, returns the acknowledgement it got (true or false, never pending)
  and leaves the mote as it was.
\<close>

theorem save_command_sends_now:
  assumes "state m = RXON \<or> \<not> pwrdownmode m"
  shows "save_command srv m r v w =
           (Some (fst (setMoteRegister srv m r v w)), m, snd (setMoteRegister srv m r v w))"
  using assms by (simp add: save_command_now receiving_now_def)

theorem save_command_sends_now_witness:
  "(state (sensor_mote\<lparr>state := RXON\<rparr>) = RXON \<or> \<not> pwrdownmode (sensor_mote\<lparr>state := RXON\<rparr>)) \<and>
   fst (save_command recorder (sensor_mote\<lparr>state := RXON\<rparr>) ID_TX_INTERVAL
          (SwapValue (RawInt 30) 2) (quiet [False])) = Some False \<and>
   fst (snd (save_command recorder (sensor_mote\<lparr>state := RXON\<rparr>) ID_TX_INTERVAL
          (SwapValue (RawInt 30) 2) (quiet [False]))) = sensor_mote\<lparr>state := RXON\<rparr> \<and>
   attempts (snd (snd (save_command recorder (sensor_mote\<lparr>state := RXON\<rparr>) ID_TX_INTERVAL
          (SwapValue (RawInt 30) 2) (quiet [False])))) = [(ID_TX_INTERVAL, SwapValue (RawInt 30) 2)]"
  using save_command_sends_now [of "sensor_mote\<lparr>state := RXON\<rparr>" recorder ID_TX_INTERVAL
      "SwapValue (RawInt 30) 2" "quiet [False]"]
  by simp

text \<open>
  C7. The flush loop of \<open>n\<close> passes raises \<open>IndexError\<close> exactly when \<open>n\<close> exceeds the number
  of saved commands, and returns exactly when it does not: the pop of \<open>get_saved_command\<close>
  underflows in no other case. Since \<open>update_state\<close> runs the loop with \<open>n\<close> equal to the
  number of saved commands, the underflow cannot happen there.
\<close>

theorem flush_raises_iff:
  "(flush srv n m w = raises IndexError \<longleftrightarrow> nbof_saved_commands m < n) \<and>
   (is_ok (flush srv n m w) \<longleftrightarrow> n \<le> nbof_saved_commands m)"
proof (cases "n \<le> length (queued_commands m)")
  case True
  then show ?thesis by (simp add: flush_take_drop nbof_saved_commands_def)
next
  case False
  then show ?thesis by (simp add: flush_underflow nbof_saved_commands_def)
qed

text \<open>
  C8. Commands appended to the queue while a flush is running are not transmitted in that
  flush. With as many passes as there were saved commands when the loop started, and any
  commands appended after any pass, the loop returns, has transmitted exactly the commands
  that were queued at its start, in their order, and leaves exactly the appended commands
  in the queue, in the order they were appended.
\<close>

theorem flush_bounded:
  assumes "length lates = nbof_saved_commands m"
  shows "flush_with srv lates m w =
           returns (m\<lparr>queued_commands := concat lates\<rparr>,
                    send_all srv (map (command_packet m) (queued_commands m)) w)"
  using assms flush_with_take_drop [of lates m srv w]
  by (simp add: nbof_saved_commands_def)

theorem flush_bounded_witness:
  "length [[(ID_NETWORK_ID, SwapValue (RawInt 7) 2)], []] =
     nbof_saved_commands (sensor_mote\<lparr>queued_commands :=
       [(ID_TX_INTERVAL, SwapValue (RawInt 30) 2), (ID_DEVICE_ADDR, SwapValue (RawInt 9) 1)]\<rparr>) \<and>
   flush_with recorder [[(ID_NETWORK_ID, SwapValue (RawInt 7) 2)], []]
     (sensor_mote\<lparr>queued_commands :=
       [(ID_TX_INTERVAL, SwapValue (RawInt 30) 2), (ID_DEVICE_ADDR, SwapValue (RawInt 9) 1)]\<rparr>)
     (quiet []) =
     returns (sensor_mote\<lparr>queued_commands := [(ID_NETWORK_ID, SwapValue (RawInt 7) 2)]\<rparr>,
              \<lparr>wire_log =
                 [Sent (SwapCommandPacket 5 ID_TX_INTERVAL (SwapValue (RawInt 30) 2) 0 False),
                  Sent (SwapCommandPacket 5 ID_DEVICE_ADDR (SwapValue (RawInt 9) 1) 0 False)],
               acks = [], answers = []\<rparr>)"
  using flush_bounded [of "[[(ID_NETWORK_ID, SwapValue (RawInt 7) 2)], []]"
      "sensor_mote\<lparr>queued_commands :=
        [(ID_TX_INTERVAL, SwapValue (RawInt 30) 2), (ID_DEVICE_ADDR, SwapValue (RawInt 9) 1)]\<rparr>"
      recorder "quiet []"]
  by (simp add: nbof_saved_commands_def rec_send_def quiet_def)

text \<open>
  C9. The flush is idempotent. Reporting the same state twice in a row does what
  reporting it once does, for every state, queue and server: the second report finds the
  queue empty and transmits nothing. In particular a state report with an empty queue
  performs no transmission: \<open>update_state\<close> only records the state and hands the server
  back untouched.
\<close>

theorem update_state_idempotent:
  "then_do (update_state srv m st w) (\<lambda>(m', w'). update_state srv m' st w') =
     update_state srv m st w \<and>
   (queued_commands m = [] \<longrightarrow> update_state srv m st w = returns (m\<lparr>state := st\<rparr>, w))"
  by (cases "wakes st") (simp_all add: update_state_wakes update_state_sleeps)

theorem update_state_idempotent_witness:
  "update_state recorder (sensor_mote\<lparr>state := RXON\<rparr>) RXON (quiet []) =
     returns (sensor_mote\<lparr>state := RXON\<rparr>, quiet []) \<and>
   then_do (update_state recorder
       (sensor_mote\<lparr>queued_commands := [(ID_DEVICE_ADDR, SwapValue (RawInt 9) 1)]\<rparr>) SYNC (quiet []))
     (\<lambda>(m', w'). update_state recorder m' SYNC w') =
     returns (sensor_mote\<lparr>queued_commands := [], state := SYNC\<rparr>,
              rec_send (SwapCommandPacket 5 ID_DEVICE_ADDR (SwapValue (RawInt 9) 1) 0 False)
                (quiet []))"
  using update_state_idempotent [of recorder "sensor_mote\<lparr>state := RXON\<rparr>" RXON "quiet []"]
    update_state_idempotent [of recorder
      "sensor_mote\<lparr>queued_commands := [(ID_DEVICE_ADDR, SwapValue (RawInt 9) 1)]\<rparr>" SYNC "quiet []"]
  by (simp add: update_state_wakes command_packet_def sensor_mote_def)

text \<open>
  C10. The queue is first in, first out: after \<open>save_command\<close> has deferred a command,
  \<open>get_saved_command\<close> returns the oldest saved command and removes it. On an empty queue
  that is the command just saved, and the mote is again as it was before the two calls;
  on a queue with head \<open>c\<close> it is \<open>c\<close>, and the new command is behind the rest.
\<close>

theorem save_get_roundtrip:
  assumes "state m \<noteq> RXON" and "pwrdownmode m"
  shows "get_saved_command (fst (snd (save_command srv m r v w))) =
           returns (case queued_commands m of
                      [] \<Rightarrow> ((r, v), m)
                    | c # cs \<Rightarrow> (c, m\<lparr>queued_commands := cs @ [(r, v)]\<rparr>))"
  using assms
  by (cases "queued_commands m")
     (simp_all add: save_command_later receiving_now_def get_saved_command_def)

theorem save_get_roundtrip_witness:
  "state sensor_mote \<noteq> RXON \<and> pwrdownmode sensor_mote \<and>
   get_saved_command
     (fst (snd (save_command recorder sensor_mote ID_DEVICE_ADDR (SwapValue (RawInt 9) 1)
                  (quiet [])))) =
     returns ((ID_DEVICE_ADDR, SwapValue (RawInt 9) 1), sensor_mote)"
  using save_get_roundtrip [of sensor_mote recorder ID_DEVICE_ADDR "SwapValue (RawInt 9) 1"
      "quiet []"]
  by simp

text \<open>
  \<open>update_state\<close> does not update the time stamp: whatever state is reported, the
  mote it returns has the time stamp, the address, the security option and the transmit
  interval it had, and the same identity; only the state and the queue can differ.
\<close>

lemma update_state_keeps_timestamp:
  assumes "update_state srv m st w = returns (m', w')"
  shows "timestamp m' = timestamp m \<and> address m' = address m \<and>
         security m' = security m \<and> txinterval m' = txinterval m \<and> same_identity m m'"
  using update_state_frame [OF assms] by simp

lemma update_state_keeps_timestamp_sensor:
  "update_state recorder (updateTimeStamp sensor_mote 17) SYNC (quiet []) =
     returns ((updateTimeStamp sensor_mote 17)\<lparr>state := SYNC\<rparr>, quiet []) \<and>
   timestamp ((updateTimeStamp sensor_mote 17)\<lparr>state := SYNC\<rparr>) = 17"
  using update_state_keeps_timestamp [of recorder "updateTimeStamp sensor_mote 17" SYNC
      "quiet []" "(updateTimeStamp sensor_mote 17)\<lparr>state := SYNC\<rparr>" "quiet []"]
  by (simp add: update_state_wakes)

end
