(* ===== verification/Swap_Machine.thy ===== *)
theory Swap_Machine
  imports Swap_Queue
begin

text \<open>
  The mote as a state machine. A state is the object together with the server's state; a
  step is one call of a method that can change either. \<open>call\<close> dispatches a call to the
  operation of the component theories, \<open>step\<close> is the state after the call (the state
  before it when the call raises: both raising operations raise before they assign or
  transmit anything), \<open>run\<close> is a sequence of calls by one caller, and \<open>reachable\<close> is
  the inductive closure of a start state under steps. The invariants are proved for one
  step and lifted to runs and to reachable states. The last section says which calls
  raise, by the case rule \<open>call_raisesE\<close> of \<open>call\<close>.
\<close>

section \<open>Calls\<close>

datatype mote_call =
    CmdRegister SwapRegId SwapValue
  | QryRegister SwapRegId
  | StaRegister SwapRegId
  | CmdRegisterWack SwapRegId SwapValue
  | QryRegisterWack SwapRegId
  | SaveCommand SwapRegId SwapValue
  | SaveAddressCommand int
  | SaveTxintervalCommand int
  | GetSavedCommand
  | SetAddress int
  | SetNetworkId int
  | SetFreqChannel int
  | SetSecurity int
  | SetTxInterval int
  | Restart
  | LeaveSync
  | UpdateTimeStamp real
  | UpdateState SwapState

type_synonym 'w mote_state = "SwapMote \<times> 'w"

fun call :: "'w SwapServer \<Rightarrow> mote_call \<Rightarrow> SwapMote \<Rightarrow> 'w \<Rightarrow> 'w mote_state result" where
  "call srv (CmdRegister r v) m w = returns (m, snd (cmdRegister srv m r v w))"
| "call srv (QryRegister r) m w = returns (m, qryRegister srv m r w)"
| "call srv (StaRegister r) m w = then_do (staRegister srv m r w) (\<lambda>w'. returns (m, w'))"
| "call srv (CmdRegisterWack r v) m w = returns (m, snd (cmdRegisterWack srv m r v w))"
| "call srv (QryRegisterWack r) m w = returns (m, snd (qryRegisterWack srv m r w))"
| "call srv (SaveCommand r v) m w = returns (snd (save_command srv m r v w))"
| "call srv (SaveAddressCommand a) m w = returns (snd (save_address_command srv m a w))"
| "call srv (SaveTxintervalCommand t) m w = returns (snd (save_txinterval_command srv m t w))"
| "call srv GetSavedCommand m w = then_do (get_saved_command m) (\<lambda>(c, m'). returns (m', w))"
| "call srv (SetAddress a) m w = returns (snd (setAddress srv m a w))"
| "call srv (SetNetworkId n) m w = returns (m, snd (setNetworkId srv m n w))"
| "call srv (SetFreqChannel c) m w = returns (m, snd (setFreqChannel srv m c w))"
| "call srv (SetSecurity s) m w = returns (snd (setSecurity srv m s w))"
| "call srv (SetTxInterval t) m w = returns (snd (setTxInterval srv m t w))"
| "call srv Restart m w = returns (m, snd (restart srv m w))"
| "call srv LeaveSync m w = returns (m, snd (leaveSync srv m w))"
| "call srv (UpdateTimeStamp now) m w = returns (updateTimeStamp m now, w)"
| "call srv (UpdateState st) m w = update_state srv m st w"

definition step :: "'w SwapServer \<Rightarrow> 'w mote_state \<Rightarrow> mote_call \<Rightarrow> 'w mote_state" where
  "step srv s c = (case call srv c (fst s) (snd s) of Inl e \<Rightarrow> s | Inr s' \<Rightarrow> s')"

definition run :: "'w SwapServer \<Rightarrow> 'w mote_state \<Rightarrow> mote_call list \<Rightarrow> 'w mote_state" where
  "run srv s cs = foldl (step srv) s cs"

inductive reachable :: "'w SwapServer \<Rightarrow> 'w mote_state \<Rightarrow> 'w mote_state \<Rightarrow> bool"
  for srv :: "'w SwapServer" and s0 :: "'w mote_state" where
  start: "reachable srv s0 s0"
| after: "reachable srv s0 s \<Longrightarrow> reachable srv s0 (step srv s c)"

text \<open>
  The calls that keep to the queue discipline: they hand commands to \<open>save_command\<close> or
  report a power state, and neither transmit a command of their own nor pop the queue.
\<close>

fun disciplined :: "mote_call \<Rightarrow> bool" where
  "disciplined (SaveCommand r v) = True"
| "disciplined (SaveAddressCommand a) = True"
| "disciplined (SaveTxintervalCommand t) = True"
| "disciplined (UpdateState st) = True"
| "disciplined (UpdateTimeStamp now) = True"
| "disciplined (QryRegister r) = True"
| "disciplined (QryRegisterWack r) = True"
| "disciplined (StaRegister r) = True"
| "disciplined c = False"

text \<open>The command a call hands to \<open>save_command\<close>, if it does.\<close>

fun issued :: "mote_call \<Rightarrow> command list" where
  "issued (SaveCommand r v) = [(r, v)]"
| "issued (SaveAddressCommand a) = [(ID_DEVICE_ADDR, SwapValue (RawInt a) 1)]"
| "issued (SaveTxintervalCommand t) = [(ID_TX_INTERVAL, SwapValue (RawInt t) 2)]"
| "issued c = []"

section \<open>Invariants\<close>

text \<open>
  A mote that \<open>save_command\<close> would write to at once has nothing queued. So a command
  that is sent at once never overtakes a deferred one.
\<close>

definition queue_inv :: "SwapMote \<Rightarrow> bool" where
  "queue_inv m \<longleftrightarrow> (receiving_now m \<longrightarrow> queued_commands m = [])"

text \<open>What the constructor leaves: an empty queue, state \<open>RXOFF\<close>, both register lists.\<close>

definition fresh :: "SwapMote \<Rightarrow> bool" where
  "fresh m \<longleftrightarrow> queued_commands m = [] \<and> state m = RXOFF \<and> has_registers m"

section \<open>Runs and reachable states\<close>

lemma run_simps [simp]:
  "run srv s [] = s"
  "run srv s (c # cs) = run srv (step srv s c) cs"
  by (simp_all add: run_def)

lemma run_append: "run srv s (cs @ ds) = run srv (run srv s cs) ds"
  by (simp add: run_def)

lemma run_snoc: "run srv s (cs @ [c]) = step srv (run srv s cs) c"
  by (simp add: run_def)

lemma reachable_run: "reachable srv s0 (run srv s0 cs)"
proof (induction cs rule: rev_induct)
  case Nil
  show ?case by (simp add: reachable.start)
next
  case (snoc c cs)
  then show ?case by (simp add: run_snoc reachable.after)
qed

lemma reachable_iff_run: "reachable srv s0 s \<longleftrightarrow> (\<exists>cs. s = run srv s0 cs)"
proof
  assume "reachable srv s0 s"
  then show "\<exists>cs. s = run srv s0 cs"
  proof (induction rule: reachable.induct)
    case start
    have "s0 = run srv s0 []" by simp
    then show ?case ..
  next
    case (after s c)
    from after.IH obtain cs where "s = run srv s0 cs" ..
    then have "step srv s c = run srv s0 (cs @ [c])" by (simp add: run_snoc)
    then show ?case ..
  qed
next
  assume "\<exists>cs. s = run srv s0 cs"
  then show "reachable srv s0 s" by (auto simp: reachable_run)
qed

lemma reachable_trans:
  "reachable srv s0 s \<Longrightarrow> reachable srv s t \<Longrightarrow> reachable srv s0 t"
  by (auto simp: reachable_iff_run run_append [symmetric])

text \<open>
  The rule for invariants: what holds at the start and is kept by every step holds in
  every reachable state.
\<close>

lemma reachable_invariant [consumes 1, case_names start step]:
  assumes "reachable srv s0 s"
    and "P s0"
    and "\<And>s c. P s \<Longrightarrow> P (step srv s c)"
  shows "P s"
  using assms by (induction rule: reachable.induct) auto

section \<open>One step\<close>

text \<open>The state after each call, one equation per call that can raise or branch.\<close>

lemma step_simps [simp]:
  "step srv (m, w) (CmdRegister r v) = (m, send srv (command_packet m (r, v)) w)"
  "step srv (m, w) (QryRegister r) = (m, qryRegister srv m r w)"
  "step srv (m, w) (CmdRegisterWack r v) = (m, snd (setMoteRegister srv m r v w))"
  "step srv (m, w) (QryRegisterWack r) = (m, snd (queryMoteRegister srv m r w))"
  "step srv (m, w) (SaveCommand r v) = snd (save_command srv m r v w)"
  "step srv (m, w) (SaveAddressCommand a) =
     snd (save_command srv m ID_DEVICE_ADDR (SwapValue (RawInt a) 1) w)"
  "step srv (m, w) (SaveTxintervalCommand t) =
     snd (save_command srv m ID_TX_INTERVAL (SwapValue (RawInt t) 2) w)"
  "step srv (m, w) (SetAddress a) = snd (setAddress srv m a w)"
  "step srv (m, w) (SetNetworkId n) = (m, snd (setNetworkId srv m n w))"
  "step srv (m, w) (SetFreqChannel c) = (m, snd (setFreqChannel srv m c w))"
  "step srv (m, w) (SetSecurity s) = snd (setSecurity srv m s w)"
  "step srv (m, w) (SetTxInterval t) = snd (setTxInterval srv m t w)"
  "step srv (m, w) Restart = (m, snd (restart srv m w))"
  "step srv (m, w) LeaveSync = (m, snd (leaveSync srv m w))"
  "step srv (m, w) (UpdateTimeStamp now) = (updateTimeStamp m now, w)"
  by (simp_all add: step_def cmdRegister_send cmdRegisterWack_def qryRegisterWack_def
      save_address_command_eq save_txinterval_command_eq)

lemma step_GetSavedCommand [simp]:
  "step srv (m, w) GetSavedCommand = (m\<lparr>queued_commands := tl (queued_commands m)\<rparr>, w)"
  by (cases "queued_commands m") (simp_all add: step_def get_saved_command_def)

lemma step_UpdateState [simp]:
  "step srv (m, w) (UpdateState st) =
     (if wakes st
      then (m\<lparr>state := st, queued_commands := []\<rparr>,
            send_all srv (map (command_packet m) (queued_commands m)) w)
      else (m\<lparr>state := st\<rparr>, w))"
  by (simp add: step_def update_state_wakes update_state_sleeps)

lemma step_StaRegister [simp]:
  "step srv (m, w) (StaRegister r) =
     (m, case staRegister srv m r w of Inl e \<Rightarrow> w | Inr w' \<Rightarrow> w')"
  by (cases "staRegister srv m r w") (simp_all add: step_def)

text \<open>Every step keeps the identity of the mote.\<close>

lemma step_identity [swap_frame]: "same_identity (fst s) (fst (step srv s c))"
proof (cases s)
  case (Pair m w)
  then show ?thesis
    by (cases c) (simp_all add: swap_frame, simp add: same_identity_def)
qed

lemma step_has_registers: "has_registers (fst (step srv s c)) = has_registers (fst s)"
  using step_identity [of s srv c] by (rule same_identity_has_registers)

text \<open>Every step keeps the queue invariant.\<close>

lemma save_command_queue_inv:
  "queue_inv m \<Longrightarrow> queue_inv (fst (snd (save_command srv m r v w)))"
  by (cases "receiving_now m")
     (simp_all add: queue_inv_def save_command_now save_command_later)

lemma step_queue_inv: "queue_inv (fst s) \<Longrightarrow> queue_inv (fst (step srv s c))"
proof (cases s)
  case (Pair m w)
  assume "queue_inv (fst s)"
  with Pair have inv: "queue_inv m" by simp
  show ?thesis
  proof (cases c)
    case (UpdateState st)
    with Pair inv show ?thesis
      by (auto simp: queue_inv_def receiving_now_def)
  qed (use Pair inv in \<open>simp_all add: save_command_queue_inv\<close>,
       simp_all add: queue_inv_def updateTimeStamp_def receiving_now_def)
qed

lemma fresh_queue_inv: "fresh m \<Longrightarrow> queue_inv m"
  by (simp add: fresh_def queue_inv_def)

lemma run_queue_inv: "queue_inv (fst s) \<Longrightarrow> queue_inv (fst (run srv s cs))"
  by (induction cs arbitrary: s) (simp_all add: step_queue_inv)

lemma run_identity: "same_identity (fst s) (fst (run srv s cs))"
proof (induction cs arbitrary: s)
  case Nil
  show ?case by simp
next
  case (Cons c cs)
  have "same_identity (fst s) (fst (step srv s c))" by (rule step_identity)
  also have "same_identity (fst (step srv s c)) (fst (run srv (step srv s c) cs))"
    by (rule Cons.IH)
  finally show ?case by simp
qed

lemma reachable_queue_inv_fst:
  "reachable srv s0 s \<Longrightarrow> queue_inv (fst s0) \<Longrightarrow> queue_inv (fst s)"
  by (induction rule: reachable.induct) (simp_all add: step_queue_inv)

lemma reachable_identity_fst: "reachable srv s0 s \<Longrightarrow> same_identity (fst s0) (fst s)"
  by (auto simp: reachable_iff_run run_identity)

text \<open>Which step can change a mirrored attribute, and to what.\<close>

lemma step_address:
  "address (fst (step srv (m, w) c)) \<noteq> address m \<Longrightarrow>
     \<exists>a. c = SetAddress a \<and> fst (setAddress srv m a w) \<and> address (fst (step srv (m, w) c)) = a"
  by (cases c) (auto simp: updateTimeStamp_def save_command_state split: if_splits)

lemma step_security:
  "security (fst (step srv (m, w) c)) \<noteq> security m \<Longrightarrow>
     \<exists>a. c = SetSecurity a \<and> fst (setSecurity srv m a w) \<and> security (fst (step srv (m, w) c)) = a"
  by (cases c) (auto simp: updateTimeStamp_def save_command_state split: if_splits)

lemma step_txinterval:
  "txinterval (fst (step srv (m, w) c)) \<noteq> txinterval m \<Longrightarrow>
     \<exists>a. c = SetTxInterval a \<and> fst (setTxInterval srv m a w) \<and>
         txinterval (fst (step srv (m, w) c)) = a"
  by (cases c) (auto simp: updateTimeStamp_def save_command_state split: if_splits)

section \<open>Properties of reachable states\<close>

text \<open>
  C3. The queue invariant is inductive. If a mote that \<open>save_command\<close> would write to at
  once (state \<open>RXON\<close>, or power-down mode disabled) has an empty queue at the start, as
  the constructor leaves it, then it has in every state reached by any sequence of calls
  of its methods, with any server.
\<close>

theorem reachable_queue_inv:
  assumes "state m0 = RXON \<or> \<not> pwrdownmode m0 \<longrightarrow> queued_commands m0 = []"
    and "reachable srv (m0, w0) (m, w)"
  shows "state m = RXON \<or> \<not> pwrdownmode m \<longrightarrow> queued_commands m = []"
  using reachable_queue_inv_fst [OF assms(2)] assms(1)
  by (simp add: queue_inv_def receiving_now_def)

theorem reachable_queue_inv_witness:
  "queued_commands sensor_mote = [] \<and>
   reachable recorder (sensor_mote, quiet [])
     (run recorder (sensor_mote, quiet [])
        [SaveCommand ID_TX_INTERVAL (SwapValue (RawInt 30) 2), UpdateState RXON]) \<and>
   state (fst (run recorder (sensor_mote, quiet [])
        [SaveCommand ID_TX_INTERVAL (SwapValue (RawInt 30) 2), UpdateState RXON])) = RXON \<and>
   queued_commands (fst (run recorder (sensor_mote, quiet [])
        [SaveCommand ID_TX_INTERVAL (SwapValue (RawInt 30) 2), UpdateState RXON])) = []"
proof -
  let ?cs = "[SaveCommand ID_TX_INTERVAL (SwapValue (RawInt 30) 2), UpdateState RXON]"
  let ?s = "run recorder (sensor_mote, quiet []) ?cs"
  have f: "state sensor_mote = RXON \<or> \<not> pwrdownmode sensor_mote \<longrightarrow>
      queued_commands sensor_mote = []"
    by simp
  have r: "reachable recorder (sensor_mote, quiet []) (fst ?s, snd ?s)"
    using reachable_run [of recorder "(sensor_mote, quiet [])" ?cs] by simp
  have st: "state (fst ?s) = RXON" by (simp add: save_command_later receiving_now_def)
  from reachable_queue_inv [OF f r] st have "queued_commands (fst ?s) = []" by simp
  with f r st show ?thesis by simp
qed

text \<open>
  C11. A command that \<open>save_command\<close> sends at once never overtakes a deferred one: in a
  state reached from a start state with the queue invariant, whenever \<open>save_command\<close>
  returns an acknowledgement instead of pending, no older command was waiting in the
  queue.
\<close>

theorem direct_write_never_overtakes:
  assumes "state m0 = RXON \<or> \<not> pwrdownmode m0 \<longrightarrow> queued_commands m0 = []"
    and "reachable srv (m0, w0) (m, w)"
    and "fst (save_command srv m r v w) = Some ack"
  shows "queued_commands m = []"
proof -
  from assms(3) have "receiving_now m"
    using save_command_pending_iff [of srv m r v w] by auto
  moreover have "queue_inv m"
    using reachable_queue_inv_fst [OF assms(2)] assms(1)
    by (simp add: queue_inv_def receiving_now_def)
  ultimately show ?thesis by (simp add: queue_inv_def)
qed

theorem direct_write_never_overtakes_witness:
  "queued_commands sensor_mote = [] \<and>
   reachable recorder (sensor_mote, quiet [True])
     (step recorder (sensor_mote, quiet [True]) (UpdateState RXON)) \<and>
   fst (save_command recorder (sensor_mote\<lparr>state := RXON\<rparr>) ID_DEVICE_ADDR
          (SwapValue (RawInt 9) 1) (quiet [True])) = Some True \<and>
   queued_commands (sensor_mote\<lparr>state := RXON\<rparr>) = []"
proof -
  have f: "state sensor_mote = RXON \<or> \<not> pwrdownmode sensor_mote \<longrightarrow>
      queued_commands sensor_mote = []"
    by simp
  have s: "step recorder (sensor_mote, quiet [True]) (UpdateState RXON) =
      (sensor_mote\<lparr>state := RXON\<rparr>, quiet [True])"
    by (simp add: sensor_mote_def)
  have r: "reachable recorder (sensor_mote, quiet [True]) (sensor_mote\<lparr>state := RXON\<rparr>, quiet [True])"
    unfolding s [symmetric] by (rule reachable.after [OF reachable.start])
  have a: "fst (save_command recorder (sensor_mote\<lparr>state := RXON\<rparr>) ID_DEVICE_ADDR
      (SwapValue (RawInt 9) 1) (quiet [True])) = Some True"
    by (simp add: save_command_now receiving_now_def)
  show ?thesis
    unfolding s using direct_write_never_overtakes [OF f r a] f r a by simp
qed

text \<open>
  C12. The mirrored attributes change only after a confirmed success. If a call changes
  the address of the mote, the call is \<open>setAddress\<close>, its confirmed write was acknowledged,
  and the new address is its argument; likewise for the security option with
  \<open>setSecurity\<close> and the transmit interval with \<open>setTxInterval\<close>. No other call, and no
  unacknowledged setter, changes any of the three.
\<close>

theorem mirrored_change_only_when_acked:
  assumes "step srv (m, w) c = (m', w')"
  shows "(address m' \<noteq> address m \<longrightarrow>
            (\<exists>a. c = SetAddress a \<and> address m' = a \<and>
                 fst (setMoteRegister srv m ID_DEVICE_ADDR (SwapValue (RawInt a) 1) w))) \<and>
         (security m' \<noteq> security m \<longrightarrow>
            (\<exists>a. c = SetSecurity a \<and> security m' = a \<and>
                 fst (setMoteRegister srv m ID_SECU_OPTION (SwapValue (RawInt a) 1) w))) \<and>
         (txinterval m' \<noteq> txinterval m \<longrightarrow>
            (\<exists>a. c = SetTxInterval a \<and> txinterval m' = a \<and>
                 fst (setMoteRegister srv m ID_TX_INTERVAL (SwapValue (RawInt a) 2) w)))"
  using step_address [of srv m w c] step_security [of srv m w c] step_txinterval [of srv m w c]
    assms
  by auto

theorem mirrored_change_only_when_acked_witness:
  "step recorder (sensor_mote, quiet [True]) (SetAddress 9) =
     (sensor_mote\<lparr>address := 9\<rparr>,
      \<lparr>wire_log = [Wrote 5 ID_DEVICE_ADDR (SwapValue (RawInt 9) 1) True], acks = [],
       answers = []\<rparr>) \<and>
   address (sensor_mote\<lparr>address := 9\<rparr>) \<noteq> address sensor_mote \<and>
   fst (setMoteRegister recorder sensor_mote ID_DEVICE_ADDR (SwapValue (RawInt 9) 1)
          (quiet [True]))"
  using mirrored_change_only_when_acked [of recorder sensor_mote "quiet [True]" "SetAddress 9"
      "sensor_mote\<lparr>address := 9\<rparr>"
      "\<lparr>wire_log = [Wrote 5 ID_DEVICE_ADDR (SwapValue (RawInt 9) 1) True], acks = [],
        answers = []\<rparr>"]
  by (simp add: setAddress_eq rec_set_def quiet_def)

text \<open>
  The identity of a mote never changes: in every state reached by any sequence of
  calls, the product code, the product and manufacturer identifiers, the device
  definition, the two register lists (same registers, same order), the power-down flag,
  the nonce and the addressing mode are those of the start state.
\<close>

lemma reachable_identity:
  assumes "reachable srv (m0, w0) (m, w)"
  shows "same_identity m0 m \<and> regular_registers m = regular_registers m0 \<and>
         config_registers m = config_registers m0 \<and> product_id m = product_id m0 \<and>
         manufacturer_id m = manufacturer_id m0"
  using reachable_identity_fst [OF assms] by (simp add: same_identity_def)

lemma reachable_identity_sensor:
  "reachable recorder (sensor_mote, quiet [True])
     (sensor_mote\<lparr>address := 9\<rparr>,
      \<lparr>wire_log = [Wrote 5 ID_DEVICE_ADDR (SwapValue (RawInt 9) 1) True], acks = [],
       answers = []\<rparr>) \<and>
   regular_registers (sensor_mote\<lparr>address := 9\<rparr>) = Some [voltage_reg, climate_reg] \<and>
   manufacturer_id (sensor_mote\<lparr>address := 9\<rparr>) = 1"
proof -
  let ?w = "\<lparr>wire_log = [Wrote 5 ID_DEVICE_ADDR (SwapValue (RawInt 9) 1) True], acks = [],
    answers = []\<rparr>"
  have s: "step recorder (sensor_mote, quiet [True]) (SetAddress 9) =
      (sensor_mote\<lparr>address := 9\<rparr>, ?w)"
    by (simp add: setAddress_eq rec_set_def quiet_def)
  have r: "reachable recorder (sensor_mote, quiet [True]) (sensor_mote\<lparr>address := 9\<rparr>, ?w)"
    unfolding s [symmetric] by (rule reachable.after [OF reachable.start])
  from reachable_identity [OF r] r show ?thesis by (simp add: sensor_mote_def)
qed

section \<open>The calls that raise\<close>

fun_cases call_raisesE: "call srv c m w = raises e"

text \<open>
  C33. Which method calls raise, and what. A call raises exactly in three cases:
  \<open>get_saved_command\<close> on an empty queue raises \<open>IndexError\<close>; \<open>staRegister\<close> on an
  identifier that \<open>getRegister\<close> does not find raises \<open>AttributeError\<close>; \<open>staRegister\<close> on a
  mote for which \<open>getRegister\<close> raises, raises its \<open>TypeError\<close>. Every other call of
  every method returns, for every argument, mote, server and server state.
\<close>

theorem raising_calls:
  "call srv c m w = raises e \<longleftrightarrow>
     c = GetSavedCommand \<and> queued_commands m = [] \<and> e = IndexError \<or>
     (\<exists>r. c = StaRegister r \<and> getRegister m r = returns None \<and> e = AttributeError) \<or>
     (\<exists>r. c = StaRegister r \<and> \<not> is_ok (getRegister m r) \<and> e = TypeError)"
proof
  assume "call srv c m w = raises e"
  then show "c = GetSavedCommand \<and> queued_commands m = [] \<and> e = IndexError \<or>
     (\<exists>r. c = StaRegister r \<and> getRegister m r = returns None \<and> e = AttributeError) \<or>
     (\<exists>r. c = StaRegister r \<and> \<not> is_ok (getRegister m r) \<and> e = TypeError)"
    by (elim call_raisesE)
      (auto simp: staRegister_raises_iff get_saved_command_def then_do_def
        split: list.splits sum.splits)
next
  assume "c = GetSavedCommand \<and> queued_commands m = [] \<and> e = IndexError \<or>
     (\<exists>r. c = StaRegister r \<and> getRegister m r = returns None \<and> e = AttributeError) \<or>
     (\<exists>r. c = StaRegister r \<and> \<not> is_ok (getRegister m r) \<and> e = TypeError)"
  then show "call srv c m w = raises e"
  proof (elim disjE exE conjE)
    assume "c = GetSavedCommand" "queued_commands m = []" "e = IndexError"
    then show ?thesis by (simp add: get_saved_command_def)
  next
    fix r
    assume "c = StaRegister r" "getRegister m r = returns None" "e = AttributeError"
    moreover from this have "staRegister srv m r w = raises e"
      by (simp add: staRegister_raises_iff)
    ultimately show ?thesis by simp
  next
    fix r
    assume "c = StaRegister r" "\<not> is_ok (getRegister m r)" "e = TypeError"
    moreover from this have "staRegister srv m r w = raises e"
      by (simp add: staRegister_raises_iff)
    ultimately show ?thesis by simp
  qed
qed

end
