(* ===== verification/Swap_Spec.thy ===== *)
theory Swap_Spec
  imports Swap_Machine
begin

text \<open>
  What the queue promises, as an abstract machine, and the proof that the mote implements
  it. The abstract state keeps the reported power state, whether the node is always
  listening, the commands that wait and the commands that have left, in order. Its steps
  are the decision table of \<open>save_command\<close> and the flush of \<open>update_state\<close>, without
  packets, server or registers. \<open>abstraction\<close> maps a state of the mote with the
  recording server to an abstract state, and every step of the mote is the abstract step
  of the same call. The ordering theorems are proved on the abstract machine and carried
  over by the refinement.
\<close>

section \<open>The abstract queue\<close>

record queue_spec =
  power :: SwapState
  always_on :: bool
  pending :: "command list"
  delivered :: "command list"

definition spec_save :: "queue_spec \<Rightarrow> command \<Rightarrow> queue_spec" where
  "spec_save s c =
     (if power s = RXON \<or> always_on s then s\<lparr>delivered := delivered s @ [c]\<rparr>
      else s\<lparr>pending := pending s @ [c]\<rparr>)"

definition spec_direct :: "queue_spec \<Rightarrow> command \<Rightarrow> queue_spec" where
  "spec_direct s c = s\<lparr>delivered := delivered s @ [c]\<rparr>"

definition spec_report :: "queue_spec \<Rightarrow> SwapState \<Rightarrow> queue_spec" where
  "spec_report s st =
     (if st = RXON \<or> st = SYNC
      then s\<lparr>power := st, delivered := delivered s @ pending s, pending := []\<rparr>
      else s\<lparr>power := st\<rparr>)"

fun spec_step :: "queue_spec \<Rightarrow> mote_call \<Rightarrow> queue_spec" where
  "spec_step s (SaveCommand r v) = spec_save s (r, v)"
| "spec_step s (SaveAddressCommand a) = spec_save s (ID_DEVICE_ADDR, SwapValue (RawInt a) 1)"
| "spec_step s (SaveTxintervalCommand t) = spec_save s (ID_TX_INTERVAL, SwapValue (RawInt t) 2)"
| "spec_step s (UpdateState st) = spec_report s st"
| "spec_step s GetSavedCommand = s\<lparr>pending := tl (pending s)\<rparr>"
| "spec_step s (CmdRegister r v) = spec_direct s (r, v)"
| "spec_step s (CmdRegisterWack r v) = spec_direct s (r, v)"
| "spec_step s (SetAddress a) = spec_direct s (ID_DEVICE_ADDR, SwapValue (RawInt a) 1)"
| "spec_step s (SetNetworkId n) = spec_direct s (ID_NETWORK_ID, SwapValue (RawInt n) 2)"
| "spec_step s (SetFreqChannel c) = spec_direct s (ID_FREQ_CHANNEL, SwapValue (RawInt c) 1)"
| "spec_step s (SetSecurity x) = spec_direct s (ID_SECU_OPTION, SwapValue (RawInt x) 1)"
| "spec_step s (SetTxInterval t) = spec_direct s (ID_TX_INTERVAL, SwapValue (RawInt t) 2)"
| "spec_step s Restart = spec_direct s (ID_SYSTEM_STATE, SwapValue (RawState RESTART) 1)"
| "spec_step s LeaveSync = spec_direct s (ID_SYSTEM_STATE, SwapValue (RawState RXOFF) 1)"
| "spec_step s (QryRegister r) = s"
| "spec_step s (StaRegister r) = s"
| "spec_step s (QryRegisterWack r) = s"
| "spec_step s (UpdateTimeStamp now) = s"

definition spec_run :: "queue_spec \<Rightarrow> mote_call list \<Rightarrow> queue_spec" where
  "spec_run s cs = foldl spec_step s cs"

definition spec_inv :: "queue_spec \<Rightarrow> bool" where
  "spec_inv s \<longleftrightarrow> (power s = RXON \<or> always_on s \<longrightarrow> pending s = [])"

text \<open>Every command the abstract machine has seen, those that left before those that wait.\<close>

definition history :: "queue_spec \<Rightarrow> command list" where
  "history s = delivered s @ pending s"

definition abstraction :: "wire mote_state \<Rightarrow> queue_spec" where
  "abstraction s =
     \<lparr>power = state (fst s), always_on = \<not> pwrdownmode (fst s),
      pending = queued_commands (fst s), delivered = attempts (snd s)\<rparr>"

section \<open>The abstract machine keeps the order of issue\<close>

lemma spec_run_simps [simp]:
  "spec_run s [] = s"
  "spec_run s (c # cs) = spec_run (spec_step s c) cs"
  by (simp_all add: spec_run_def)

lemma spec_run_append: "spec_run s (cs @ ds) = spec_run (spec_run s cs) ds"
  by (simp add: spec_run_def)

lemma spec_step_inv: "spec_inv s \<Longrightarrow> spec_inv (spec_step s c)"
  by (cases c) (auto simp: spec_inv_def spec_save_def spec_direct_def spec_report_def)

lemma spec_run_inv: "spec_inv s \<Longrightarrow> spec_inv (spec_run s cs)"
  by (induction cs arbitrary: s) (simp_all add: spec_step_inv)

lemma spec_step_history:
  "spec_inv s \<Longrightarrow> disciplined c \<Longrightarrow> history (spec_step s c) = history s @ issued c"
  by (cases c) (auto simp: history_def spec_inv_def spec_save_def spec_report_def)

lemma spec_run_history:
  "spec_inv s \<Longrightarrow> \<forall>c \<in> set cs. disciplined c \<Longrightarrow>
     history (spec_run s cs) = history s @ concat (map issued cs)"
proof (induction cs arbitrary: s)
  case Nil
  show ?case by simp
next
  case (Cons c cs)
  from Cons.prems have "spec_inv (spec_step s c)" and "\<forall>c \<in> set cs. disciplined c"
    by (simp_all add: spec_step_inv)
  from Cons.IH [OF this] Cons.prems show ?case
    by (simp add: spec_step_history)
qed

lemma spec_report_wakes:
  "st = RXON \<or> st = SYNC \<Longrightarrow>
     pending (spec_report s st) = [] \<and> delivered (spec_report s st) = history s"
  by (auto simp: spec_report_def history_def)

section \<open>The mote implements the abstract queue\<close>

lemma abstraction_fields [simp]:
  "power (abstraction (m, w)) = state m"
  "always_on (abstraction (m, w)) = (\<not> pwrdownmode m)"
  "pending (abstraction (m, w)) = queued_commands m"
  "delivered (abstraction (m, w)) = attempts w"
  by (simp_all add: abstraction_def)

lemma abstraction_inv: "spec_inv (abstraction s) = queue_inv (fst s)"
  by (cases s) (simp add: spec_inv_def queue_inv_def receiving_now_def)

lemma staRegister_attempts:
  "attempts (case staRegister recorder m r w of Inl e \<Rightarrow> w | Inr w' \<Rightarrow> w') = attempts w"
proof (cases "getRegister m r")
  case (Inl e)
  then show ?thesis by (simp add: staRegister_raises)
next
  case (Inr found)
  then show ?thesis
    by (cases found) (simp_all add: staRegister_unknown staRegister_found)
qed

lemma abstraction_save:
  "abstraction (snd (save_command recorder m r v w)) = spec_save (abstraction (m, w)) (r, v)"
  by (cases "receiving_now m")
     (simp_all add: save_command_now save_command_later abstraction_def spec_save_def
        receiving_now_def)

lemma abstraction_step: "abstraction (step recorder s c) = spec_step (abstraction s) c"
proof (cases s)
  case (Pair m w)
  show ?thesis
  proof (cases c)
    case (StaRegister r)
    with Pair show ?thesis by (simp add: abstraction_def staRegister_attempts)
  next
    case (UpdateState st)
    with Pair show ?thesis by (simp add: abstraction_def spec_report_def)
  qed (use Pair in \<open>simp_all add: abstraction_save\<close>,
       simp_all add: abstraction_def spec_direct_def qryRegister_def updateTimeStamp_def)
qed

lemma abstraction_run: "abstraction (run recorder s cs) = spec_run (abstraction s) cs"
  by (induction cs arbitrary: s) (simp_all add: abstraction_step)

section \<open>Properties of runs\<close>

text \<open>
  C4. The mote with the recording server refines the abstract queue: for every state and
  every sequence of calls of its methods, the abstraction of the state after the run is
  the state of the abstract machine after the same calls. Power state, power-down flag,
  queue and the sequence of commands handed to the server agree at every step.
\<close>

theorem run_refines_spec:
  "abstraction (run recorder (m, w) cs) = spec_run (abstraction (m, w)) cs \<and>
   abstraction (step recorder (m, w) c) = spec_step (abstraction (m, w)) c"
  by (simp add: abstraction_run abstraction_step)

text \<open>
  C2. Commands leave in the order they were issued, none is lost and none is sent twice.
  From a state in which the queue invariant holds (as the constructor leaves the mote),
  after any sequence of calls that keep to the queue discipline (\<open>save_command\<close> and its
  wrappers, state reports, queries, status echoes, time stamps), the commands the server
  has seen followed by the commands still queued are exactly the commands seen and queued
  before, followed by the commands issued during the run, in the order of the calls.
\<close>

theorem disciplined_run_fifo:
  assumes "state m = RXON \<or> \<not> pwrdownmode m \<longrightarrow> queued_commands m = []"
    and "\<forall>c \<in> set cs. disciplined c"
    and "run recorder (m, w) cs = (m', w')"
  shows "attempts w' @ queued_commands m' =
           attempts w @ queued_commands m @ concat (map issued cs)"
proof -
  from assms(1) have "spec_inv (abstraction (m, w))"
    by (simp add: spec_inv_def)
  from spec_run_history [OF this assms(2)]
  have "history (abstraction (run recorder (m, w) cs)) =
      history (abstraction (m, w)) @ concat (map issued cs)"
    by (simp add: abstraction_run)
  with assms(3) show ?thesis by (simp add: history_def)
qed

theorem disciplined_run_fifo_witness:
  "queued_commands sensor_mote = [] \<and>
   list_all disciplined [SaveAddressCommand 9, SaveTxintervalCommand 30, UpdateState SYNC,
     SaveCommand ID_NETWORK_ID (SwapValue (RawInt 7) 2)] \<and>
   attempts (snd (run recorder (sensor_mote, quiet [])
      [SaveAddressCommand 9, SaveTxintervalCommand 30, UpdateState SYNC,
       SaveCommand ID_NETWORK_ID (SwapValue (RawInt 7) 2)])) @
   queued_commands (fst (run recorder (sensor_mote, quiet [])
      [SaveAddressCommand 9, SaveTxintervalCommand 30, UpdateState SYNC,
       SaveCommand ID_NETWORK_ID (SwapValue (RawInt 7) 2)])) =
     [(ID_DEVICE_ADDR, SwapValue (RawInt 9) 1), (ID_TX_INTERVAL, SwapValue (RawInt 30) 2),
      (ID_NETWORK_ID, SwapValue (RawInt 7) 2)]"
proof -
  let ?cs = "[SaveAddressCommand 9, SaveTxintervalCommand 30, UpdateState SYNC,
    SaveCommand ID_NETWORK_ID (SwapValue (RawInt 7) 2)]"
  let ?s = "run recorder (sensor_mote, quiet []) ?cs"
  have 1: "state sensor_mote = RXON \<or> \<not> pwrdownmode sensor_mote \<longrightarrow>
      queued_commands sensor_mote = []"
    by simp
  have 2: "\<forall>c \<in> set ?cs. disciplined c" by simp
  have 3: "run recorder (sensor_mote, quiet []) ?cs = (fst ?s, snd ?s)" by simp
  from disciplined_run_fifo [OF 1 2 3] 1 2 show ?thesis by simp
qed

text \<open>
  Every deferred command is transmitted at the next wake-up. After any sequence of
  disciplined calls, a report of \<open>RXON\<close> or \<open>SYNC\<close> leaves the queue empty, and the server
  has then seen every command that was queued or issued, in the order of issue.
\<close>

lemma wake_up_delivers_all:
  assumes "state m = RXON \<or> \<not> pwrdownmode m \<longrightarrow> queued_commands m = []"
    and "\<forall>c \<in> set cs. disciplined c"
    and "st = RXON \<or> st = SYNC"
    and "run recorder (m, w) (cs @ [UpdateState st]) = (m', w')"
  shows "queued_commands m' = [] \<and>
         attempts w' = attempts w @ queued_commands m @ concat (map issued cs)"
proof -
  let ?a = "spec_run (abstraction (m, w)) cs"
  from assms(1) have inv: "spec_inv (abstraction (m, w))"
    by (simp add: spec_inv_def)
  have abs: "abstraction (m', w') = spec_report ?a st"
    using assms(4) abstraction_run [of "(m, w)" "cs @ [UpdateState st]"]
    by (simp add: spec_run_append)
  have "pending (abstraction (m', w')) = [] \<and> delivered (abstraction (m', w')) = history ?a"
    unfolding abs by (rule spec_report_wakes [OF assms(3)])
  then have "queued_commands m' = [] \<and> attempts w' = history ?a" by simp
  with spec_run_history [OF inv assms(2)] show ?thesis by (simp add: history_def)
qed

lemma wake_up_delivers_all_sensor:
  "queued_commands sensor_mote = [] \<and>
   list_all disciplined [SaveAddressCommand 9, SaveTxintervalCommand 30] \<and>
   run recorder (sensor_mote, quiet [])
     ([SaveAddressCommand 9, SaveTxintervalCommand 30] @ [UpdateState RXON]) =
     (sensor_mote\<lparr>state := RXON\<rparr>,
      \<lparr>wire_log =
         [Sent (SwapCommandPacket 5 ID_DEVICE_ADDR (SwapValue (RawInt 9) 1) 0 False),
          Sent (SwapCommandPacket 5 ID_TX_INTERVAL (SwapValue (RawInt 30) 2) 0 False)],
       acks = [], answers = []\<rparr>) \<and>
   attempts
     \<lparr>wire_log =
        [Sent (SwapCommandPacket 5 ID_DEVICE_ADDR (SwapValue (RawInt 9) 1) 0 False),
         Sent (SwapCommandPacket 5 ID_TX_INTERVAL (SwapValue (RawInt 30) 2) 0 False)],
      acks = [], answers = []\<rparr> =
     [(ID_DEVICE_ADDR, SwapValue (RawInt 9) 1), (ID_TX_INTERVAL, SwapValue (RawInt 30) 2)]"
proof -
  let ?cs = "[SaveAddressCommand 9, SaveTxintervalCommand 30]"
  let ?w = "\<lparr>wire_log =
      [Sent (SwapCommandPacket 5 ID_DEVICE_ADDR (SwapValue (RawInt 9) 1) 0 False),
       Sent (SwapCommandPacket 5 ID_TX_INTERVAL (SwapValue (RawInt 30) 2) 0 False)],
    acks = [], answers = []\<rparr>"
  have 1: "state sensor_mote = RXON \<or> \<not> pwrdownmode sensor_mote \<longrightarrow>
      queued_commands sensor_mote = []"
    by simp
  have 2: "\<forall>c \<in> set ?cs. disciplined c" by simp
  have 3: "RXON = RXON \<or> RXON = SYNC" by simp
  have 4: "run recorder (sensor_mote, quiet []) (?cs @ [UpdateState RXON]) =
      (sensor_mote\<lparr>state := RXON\<rparr>, ?w)"
    by (simp add: save_command_later receiving_now_def rec_send_def quiet_def sensor_mote_def)
  from wake_up_delivers_all [OF 1 2 3 4] 1 2 4 show ?thesis by simp
qed

end
