(* ===== verification/Swap_Interleave.thy ===== *)
theory Swap_Interleave
  imports Swap_Spec "HOL-Library.Multiset"
begin

text \<open>
  Two callers on one mote. The object has no lock, so a second thread can run a method
  between two statements of \<open>update_state\<close>. Here \<open>update_state\<close> is cut into its
  statements: \<open>flusher\<close> is the position of the thread inside the method, \<open>tick\<close> executes
  the next statement, and a schedule is a list of actions, each a \<open>Tick\<close> of the flushing
  thread or a complete method call of the other thread (\<open>Other\<close>). The calls of the other
  thread are the atomic steps of \<open>Swap_Machine\<close>.

  The lemmas show that the statements executed without interruption are \<open>update_state\<close>;
  that under every schedule no command is lost or duplicated (an equation of multisets);
  that the loop cannot underflow as long as the other thread does not pop the queue;
  that the queue invariant, which the method breaks between the assignment of the state
  and the end of the loop, holds again when it returns (\<open>settling\<close>); and that the order
  of delivery and the absence of exceptions both fail under schedules the object
  permits.
\<close>

section \<open>The statements of \<open>update_state\<close>\<close>

text \<open>
  \<open>Start st\<close>: the method is entered with argument \<open>st\<close>. \<open>Check st\<close>: \<open>self.state\<close> is
  assigned. \<open>Loop k\<close>: \<open>nb_cmds\<close> is read and \<open>k\<close> passes of the loop remain. \<open>Send c k\<close>:
  the command \<open>c\<close> is popped and not yet transmitted, \<open>k\<close> passes remain after it. \<open>Done\<close>:
  the method has returned. \<open>Raised e\<close>: the method has raised \<open>e\<close>.
\<close>

datatype flusher =
    Start SwapState
  | Check SwapState
  | Loop nat
  | Send command nat
  | Done
  | Raised py_error

type_synonym 'w config = "flusher \<times> SwapMote \<times> 'w"

fun tick :: "'w SwapServer \<Rightarrow> 'w config \<Rightarrow> 'w config" where
  "tick srv (Start st, m, w) = (Check st, m\<lparr>state := st\<rparr>, w)"
| "tick srv (Check st, m, w) =
     (if st \<in> set [RXON, SYNC] then
        (let nb_cmds = nbof_saved_commands m in
         if nb_cmds > 0 then (Loop nb_cmds, m, w) else (Done, m, w))
      else (Done, m, w))"
| "tick srv (Loop 0, m, w) = (Done, m, w)"
| "tick srv (Loop (Suc k), m, w) =
     (case get_saved_command m of
        Inl e \<Rightarrow> (Raised e, m, w)
      | Inr (c, m') \<Rightarrow> (Send c k, m', w))"
| "tick srv (Send c k, m, w) =
     ((if k = 0 then Done else Loop k), m, snd (cmdRegister srv m (fst c) (snd c) w))"
| "tick srv (Done, m, w) = (Done, m, w)"
| "tick srv (Raised e, m, w) = (Raised e, m, w)"

section \<open>Schedules\<close>

datatype action = Tick | Other mote_call

fun act :: "'w SwapServer \<Rightarrow> 'w config \<Rightarrow> action \<Rightarrow> 'w config" where
  "act srv cfg Tick = tick srv cfg"
| "act srv (pc, s) (Other c) = (pc, step srv s c)"

definition interleave :: "'w SwapServer \<Rightarrow> 'w config \<Rightarrow> action list \<Rightarrow> 'w config" where
  "interleave srv cfg sched = foldl (act srv) cfg sched"

text \<open>The command that is popped and not yet transmitted.\<close>

fun in_flight :: "flusher \<Rightarrow> command list" where
  "in_flight (Send c k) = [c]"
| "in_flight pc = []"

text \<open>The passes of the loop that remain.\<close>

fun passes_left :: "flusher \<Rightarrow> nat" where
  "passes_left (Loop k) = k"
| "passes_left (Send c k) = k"
| "passes_left pc = 0"

fun has_raised :: "flusher \<Rightarrow> bool" where
  "has_raised (Raised e) = True"
| "has_raised pc = False"

text \<open>
  The commands a call hands over, to the queue or to the server: those of \<open>issued\<close> for
  \<open>save_command\<close> and its wrappers, and the command of a direct write.
\<close>

fun hands :: "mote_call \<Rightarrow> command list" where
  "hands (CmdRegister r v) = [(r, v)]"
| "hands (CmdRegisterWack r v) = [(r, v)]"
| "hands (SetAddress a) = [(ID_DEVICE_ADDR, SwapValue (RawInt a) 1)]"
| "hands (SetNetworkId n) = [(ID_NETWORK_ID, SwapValue (RawInt n) 2)]"
| "hands (SetFreqChannel c) = [(ID_FREQ_CHANNEL, SwapValue (RawInt c) 1)]"
| "hands (SetSecurity s) = [(ID_SECU_OPTION, SwapValue (RawInt s) 1)]"
| "hands (SetTxInterval t) = [(ID_TX_INTERVAL, SwapValue (RawInt t) 2)]"
| "hands Restart = [(ID_SYSTEM_STATE, SwapValue (RawState RESTART) 1)]"
| "hands LeaveSync = [(ID_SYSTEM_STATE, SwapValue (RawState RXOFF) 1)]"
| "hands c = issued c"

fun handed :: "action \<Rightarrow> command list" where
  "handed Tick = []"
| "handed (Other c) = hands c"

text \<open>
  The other thread keeps off the left end of the queue: it does not pop and does not run
  \<open>update_state\<close> itself.
\<close>

fun keeps_off :: "action \<Rightarrow> bool" where
  "keeps_off (Other GetSavedCommand) = False"
| "keeps_off (Other (UpdateState st)) = False"
| "keeps_off a = True"

text \<open>Every command the configuration holds: handed to the server, in flight, or queued.\<close>

definition accounted :: "wire config \<Rightarrow> command multiset" where
  "accounted cfg =
     mset (attempts (snd (snd cfg))) + mset (in_flight (fst cfg)) +
     mset (queued_commands (fst (snd cfg)))"

text \<open>The loop has not raised and the queue holds a command for each pass that remains.\<close>

definition covered :: "'w config \<Rightarrow> bool" where
  "covered cfg \<longleftrightarrow>
     \<not> has_raised (fst cfg) \<and> passes_left (fst cfg) \<le> length (queued_commands (fst (snd cfg)))"

text \<open>
  What holds of the queue at each position of the method when the calls of the other
  thread are atomic. At the entry and after the return it is the queue invariant. Between
  them the invariant may be broken, since the state is assigned before the queue is
  flushed: after the assignment the state is the reported one and only a mote with
  power-down mode has commands queued; in the loop a mote that is receiving has exactly
  the commands queued that the loop will still pop.
\<close>

fun settling :: "'w config \<Rightarrow> bool" where
  "settling (Start st, m, w) = queue_inv m"
| "settling (Check st, m, w) = (state m = st \<and> (\<not> pwrdownmode m \<longrightarrow> queued_commands m = []))"
| "settling (Loop k, m, w) = (receiving_now m \<longrightarrow> length (queued_commands m) = k)"
| "settling (Send c k, m, w) = (receiving_now m \<longrightarrow> length (queued_commands m) = k)"
| "settling (Done, m, w) = queue_inv m"
| "settling (Raised e, m, w) = True"

section \<open>Facts on schedules\<close>

lemma interleave_simps [simp]:
  "interleave srv cfg [] = cfg"
  "interleave srv cfg (a # sched) = interleave srv (act srv cfg a) sched"
  by (simp_all add: interleave_def)

lemma interleave_append:
  "interleave srv cfg (xs @ ys) = interleave srv (interleave srv cfg xs) ys"
  by (simp add: interleave_def)

lemma interleave_snoc:
  "interleave srv cfg (sched @ [a]) = act srv (interleave srv cfg sched) a"
  by (simp add: interleave_def)

lemma ticks_Done [simp]: "interleave srv (Done, m, w) (replicate n Tick) = (Done, m, w)"
  by (induction n) simp_all

section \<open>The flushing thread alone\<close>

lemma ticks_loop:
  "0 < k \<Longrightarrow> k \<le> length (queued_commands m) \<Longrightarrow>
     interleave srv (Loop k, m, w) (replicate (2 * k) Tick) =
       (Done, m\<lparr>queued_commands := drop k (queued_commands m)\<rparr>,
        send_all srv (map (command_packet m) (take k (queued_commands m))) w)"
proof (induction k arbitrary: m w)
  case 0
  then show ?case by simp
next
  case (Suc k)
  then obtain c cs where q: "queued_commands m = c # cs"
    by (cases "queued_commands m") auto
  let ?m = "m\<lparr>queued_commands := cs\<rparr>"
  let ?w = "send srv (command_packet m c) w"
  have two: "interleave srv (Loop (Suc k), m, w) (replicate (2 * Suc k) Tick) =
      interleave srv ((if k = 0 then Done else Loop k), ?m, ?w) (replicate (2 * k) Tick)"
    using q by (simp add: get_saved_command_Cons cmdRegister_send command_packet_def)
  show ?case
  proof (cases "k = 0")
    case True
    with two q show ?thesis by simp
  next
    case False
    with Suc.prems q have "0 < k" "k \<le> length (queued_commands ?m)" by simp_all
    from Suc.IH [OF this, of ?w] two False q show ?thesis
      by (simp add: command_packet_def)
  qed
qed

lemma ticks_update_state:
  "interleave srv (Start st, m, w) (replicate (2 + 2 * nbof_saved_commands m) Tick) =
     (if wakes st
      then (Done, m\<lparr>state := st, queued_commands := []\<rparr>,
            send_all srv (map (command_packet m) (queued_commands m)) w)
      else (Done, m\<lparr>state := st\<rparr>, w))"
proof (cases "wakes st \<and> queued_commands m \<noteq> []")
  case True
  let ?m = "m\<lparr>state := st\<rparr>"
  have "interleave srv (Start st, m, w) (replicate (2 + 2 * nbof_saved_commands m) Tick) =
      interleave srv (Loop (length (queued_commands ?m)), ?m, w)
        (replicate (2 * length (queued_commands ?m)) Tick)"
    using True by (auto simp: nbof_saved_commands_def)
  also have "\<dots> = (Done, ?m\<lparr>queued_commands := drop (length (queued_commands ?m)) (queued_commands ?m)\<rparr>,
      send_all srv (map (command_packet ?m) (take (length (queued_commands ?m)) (queued_commands ?m))) w)"
    using True by (intro ticks_loop) simp_all
  finally show ?thesis using True by (simp add: command_packet_def)
next
  case False
  then show ?thesis by (auto simp: nbof_saved_commands_def)
qed

section \<open>No command is lost or made\<close>

lemma spec_step_mset:
  "keeps_off (Other c) \<Longrightarrow>
     mset (delivered (spec_step s c)) + mset (pending (spec_step s c)) =
       mset (delivered s) + mset (pending s) + mset (hands c)"
  by (cases c) (simp_all add: spec_save_def spec_direct_def)

lemma step_mset:
  assumes "keeps_off (Other c)"
  shows "mset (attempts (snd (step recorder (m, w) c))) +
         mset (queued_commands (fst (step recorder (m, w) c))) =
           mset (attempts w) + mset (queued_commands m) + mset (hands c)"
proof -
  obtain m' w' where s: "step recorder (m, w) c = (m', w')"
    by (cases "step recorder (m, w) c")
  from abstraction_step [of "(m, w)" c] s
  have "abstraction (m', w') = spec_step (abstraction (m, w)) c" by simp
  from arg_cong [OF this, of delivered] arg_cong [OF this, of pending]
    spec_step_mset [OF assms, of "abstraction (m, w)"] s
  show ?thesis by simp
qed

lemma tick_accounted: "accounted (tick recorder cfg) = accounted cfg"
proof (cases cfg)
  case (fields pc m w)
  show ?thesis
  proof (cases pc)
    case (Loop k)
    with fields show ?thesis
      by (cases k; cases "queued_commands m")
        (simp_all add: accounted_def get_saved_command_def)
  next
    case (Send c k)
    with fields show ?thesis
      by (simp add: accounted_def cmdRegister_send command_packet_def)
  qed (simp_all add: fields accounted_def Let_def)
qed

lemma act_accounted:
  "keeps_off a \<Longrightarrow> accounted (act recorder cfg a) = accounted cfg + mset (handed a)"
proof (cases a)
  case Tick
  then show ?thesis by (simp add: tick_accounted)
next
  case (Other c)
  assume "keeps_off a"
  with Other step_mset [of c "fst (snd cfg)" "snd (snd cfg)"] show ?thesis
    by (cases cfg) (simp add: accounted_def ac_simps)
qed

lemma interleave_accounted:
  "\<forall>a \<in> set sched. keeps_off a \<Longrightarrow>
     accounted (interleave recorder cfg sched) = accounted cfg + mset (concat (map handed sched))"
  by (induction sched arbitrary: cfg) (simp_all add: act_accounted)

section \<open>The loop does not underflow\<close>

lemma step_queue_grows:
  "keeps_off (Other c) \<Longrightarrow>
     length (queued_commands m) \<le> length (queued_commands (fst (step srv (m, w) c)))"
  by (cases c) (simp_all add: save_command_queue updateTimeStamp_def)

lemma tick_covered: "covered cfg \<Longrightarrow> covered (tick srv cfg)"
proof (cases cfg)
  case (fields pc m w)
  assume "covered cfg"
  with fields show ?thesis
    by (cases pc; cases "passes_left pc"; cases "queued_commands m")
      (auto simp: covered_def get_saved_command_def nbof_saved_commands_def Let_def)
qed

lemma act_covered: "keeps_off a \<Longrightarrow> covered cfg \<Longrightarrow> covered (act srv cfg a)"
proof (cases a)
  case Tick
  assume "covered cfg"
  with Tick show ?thesis by (simp add: tick_covered)
next
  case (Other c)
  assume "keeps_off a" and "covered cfg"
  with Other step_queue_grows [of c "fst (snd cfg)" srv "snd (snd cfg)"] show ?thesis
    by (cases cfg) (simp add: covered_def)
qed

lemma interleave_covered:
  "\<forall>a \<in> set sched. keeps_off a \<Longrightarrow> covered cfg \<Longrightarrow> covered (interleave srv cfg sched)"
  by (induction sched arbitrary: cfg) (simp_all add: act_covered)

lemma covered_Start [simp]: "covered (Start st, m, w)"
  by (simp add: covered_def)

section \<open>The flush restores the queue invariant\<close>

text \<open>
  A call of the other thread that keeps off changes neither the state nor the power-down
  flag, and on a mote that is receiving it leaves the queue as it is.
\<close>

lemma step_power:
  "keeps_off (Other c) \<Longrightarrow>
     state (fst (step srv (m, w) c)) = state m \<and>
     pwrdownmode (fst (step srv (m, w) c)) = pwrdownmode m"
  using step_identity [of "(m, w)" srv c]
  by (cases c) (simp_all add: same_identity_def updateTimeStamp_def)

lemma step_receiving_now:
  "keeps_off (Other c) \<Longrightarrow> receiving_now (fst (step srv (m, w) c)) = receiving_now m"
  by (simp add: receiving_now_def step_power)

lemma step_queue_receiving:
  "keeps_off (Other c) \<Longrightarrow> receiving_now m \<Longrightarrow>
     queued_commands (fst (step srv (m, w) c)) = queued_commands m"
  by (cases c) (simp_all add: save_command_queue updateTimeStamp_def)

lemma tick_settling: "settling cfg \<Longrightarrow> settling (tick srv cfg)"
proof (cases cfg)
  case (fields pc m w)
  assume "settling cfg"
  with fields show ?thesis
    by (cases pc; cases "passes_left pc"; cases "queued_commands m")
      (auto simp: queue_inv_def receiving_now_def get_saved_command_def
        nbof_saved_commands_def Let_def)
qed

lemma act_settling:
  assumes "keeps_off a" and "settling cfg"
  shows "settling (act srv cfg a)"
proof (cases a)
  case Tick
  with assms tick_settling [of cfg srv] show ?thesis by simp
next
  case (Other c)
  obtain pc m w where cfg: "cfg = (pc, m, w)" by (cases cfg) auto
  from assms(1) Other have k: "keeps_off (Other c)" by simp
  note facts = step_power [OF k, of srv m w] step_receiving_now [OF k, of srv m w]
    step_queue_receiving [OF k, of m srv w] step_queue_inv [of "(m, w)" srv c]
  from assms(2) cfg Other facts show ?thesis
    by (cases pc; cases "step srv (m, w) c") (auto simp: receiving_now_def)
qed

lemma interleave_settling:
  "\<forall>a \<in> set sched. keeps_off a \<Longrightarrow> settling cfg \<Longrightarrow> settling (interleave srv cfg sched)"
  by (induction sched arbitrary: cfg) (simp_all add: act_settling)

section \<open>Properties of schedules\<close>

text \<open>
  C39. With atomic calls of the other thread the flush neither underflows nor leaves a
  command behind. As long as the other thread neither pops the queue nor runs
  \<open>update_state\<close> itself, under every schedule of its complete calls between the
  statements of \<open>update_state\<close> and with every server, the method has not raised and
  the queue holds at least as many commands as passes remain; and if the queue invariant
  held at the entry it holds again when the method has returned: a mote that is
  receiving has an empty queue, although the state was assigned before the queue was
  flushed and calls ran in between.
\<close>

theorem interleaved_flush_settles:
  assumes "\<forall>a \<in> set sched. keeps_off a"
    and "interleave srv (Start st, m, w) sched = (pc', m', w')"
  shows "\<not> has_raised pc' \<and> passes_left pc' \<le> length (queued_commands m') \<and>
         (queue_inv m \<and> pc' = Done \<longrightarrow> queue_inv m')"
proof -
  from interleave_covered [OF assms(1) covered_Start, of srv st m w] assms(2)
  have "\<not> has_raised pc' \<and> passes_left pc' \<le> length (queued_commands m')"
    by (simp add: covered_def)
  moreover have "queue_inv m'" if "queue_inv m" and "pc' = Done"
    using interleave_settling [OF assms(1), of "(Start st, m, w)" srv] assms(2) that by simp
  ultimately show ?thesis by blast
qed

theorem interleaved_flush_settles_witness:
  "list_all keeps_off [Other (SaveAddressCommand 9), Tick, Other (SaveTxintervalCommand 30),
     Tick, Tick, Tick] \<and>
   queue_inv sensor_mote \<and>
   interleave recorder (Start RXON, sensor_mote, quiet [True])
     [Other (SaveAddressCommand 9), Tick, Other (SaveTxintervalCommand 30), Tick, Tick, Tick] =
     (Done, sensor_mote\<lparr>queued_commands := [], state := RXON\<rparr>,
      \<lparr>wire_log = [Wrote 5 ID_TX_INTERVAL (SwapValue (RawInt 30) 2) True,
         Sent (SwapCommandPacket 5 ID_DEVICE_ADDR (SwapValue (RawInt 9) 1) 0 False)],
       acks = [], answers = []\<rparr>) \<and>
   queue_inv (sensor_mote\<lparr>queued_commands := [], state := RXON\<rparr>)"
proof -
  let ?sched = "[Other (SaveAddressCommand 9), Tick, Other (SaveTxintervalCommand 30),
    Tick, Tick, Tick]"
  have 1: "\<forall>a \<in> set ?sched. keeps_off a" by simp
  have 2: "interleave recorder (Start RXON, sensor_mote, quiet [True]) ?sched =
      (Done, sensor_mote\<lparr>queued_commands := [], state := RXON\<rparr>,
       \<lparr>wire_log = [Wrote 5 ID_TX_INTERVAL (SwapValue (RawInt 30) 2) True,
          Sent (SwapCommandPacket 5 ID_DEVICE_ADDR (SwapValue (RawInt 9) 1) 0 False)],
        acks = [], answers = []\<rparr>)"
    by (simp add: save_command_later save_command_now receiving_now_def nbof_saved_commands_def
        get_saved_command_def cmdRegister_send command_packet_def sensor_mote_def
        recorder_def rec_set_def rec_send_def quiet_def)
  have 3: "queue_inv sensor_mote" by (simp add: queue_inv_def)
  from interleaved_flush_settles [OF 1 2] 2 3 show ?thesis by simp
qed

text \<open>
  C40. Three schedules that the object permits and that break what holds for atomic
  calls. On a mote with one saved command \<open>c\<close>: if the other thread calls
  \<open>save_command\<close> after \<open>update_state RXON\<close> has assigned the state and before it has
  flushed, the new command is written at once and reaches the server before \<open>c\<close>, which
  was issued earlier; if the other thread pops the queue after \<open>update_state\<close> has
  counted it, the loop raises \<open>IndexError\<close>; and if a second report of a waking state
  runs after the count, it transmits \<open>c\<close> and the loop of the first raises \<open>IndexError\<close>.
\<close>

theorem interleaved_races:
  assumes "queued_commands m = [c]"
  shows "attempts (snd (snd (interleave recorder (Start RXON, m, w)
           [Tick, Other (SaveCommand r v), Tick, Tick, Tick]))) = attempts w @ [(r, v), c] \<and>
         fst (interleave srv (Start RXON, m, w') [Tick, Tick, Other GetSavedCommand, Tick]) =
           Raised IndexError \<and>
         interleave srv (Start RXON, m, w') [Tick, Tick, Other (UpdateState SYNC), Tick] =
           (Raised IndexError, m\<lparr>state := SYNC, queued_commands := []\<rparr>,
            send srv (command_packet m c) w')"
  using assms
  by (cases c)
    (simp add: save_command_now receiving_now_def nbof_saved_commands_def wakes_def
      get_saved_command_def cmdRegister_send command_packet_def send_all_def)

theorem interleaved_races_witness:
  "attempts (snd (snd (interleave recorder
      (Start RXON, sensor_mote\<lparr>queued_commands := [(ID_DEVICE_ADDR, SwapValue (RawInt 9) 1)]\<rparr>,
       quiet [True])
      [Tick, Other (SaveCommand ID_TX_INTERVAL (SwapValue (RawInt 30) 2)), Tick, Tick, Tick]))) =
     [(ID_TX_INTERVAL, SwapValue (RawInt 30) 2), (ID_DEVICE_ADDR, SwapValue (RawInt 9) 1)] \<and>
   fst (interleave recorder
      (Start RXON, sensor_mote\<lparr>queued_commands := [(ID_DEVICE_ADDR, SwapValue (RawInt 9) 1)]\<rparr>,
       quiet [True])
      [Tick, Tick, Other GetSavedCommand, Tick]) = Raised IndexError \<and>
   fst (interleave recorder
      (Start RXON, sensor_mote\<lparr>queued_commands := [(ID_DEVICE_ADDR, SwapValue (RawInt 9) 1)]\<rparr>,
       quiet [True])
      [Tick, Tick, Other (UpdateState SYNC), Tick]) = Raised IndexError"
  using interleaved_races
    [where m = "sensor_mote\<lparr>queued_commands := [(ID_DEVICE_ADDR, SwapValue (RawInt 9) 1)]\<rparr>"
       and c = "(ID_DEVICE_ADDR, SwapValue (RawInt 9) 1)" and w = "quiet [True]"
       and r = ID_TX_INTERVAL and v = "SwapValue (RawInt 30) 2" and srv = recorder
       and w' = "quiet [True]"]
  by simp

end
