(* ===== verification/Swap_Termination.thy ===== *)
theory Swap_Termination
  imports Swap_Interleave "HOL-Library.While_Combinator"
begin

text \<open>
  Termination of \<open>update_state\<close>. The loop of the method is \<open>for i in range(nb_cmds)\<close>: the
  number of passes is fixed when \<open>nb_cmds\<close> is read and nothing that happens afterwards
  extends it. Here the statements of \<open>Swap_Interleave\<close> are run to the end of the method:
  \<open>finish\<close> repeats \<open>tick\<close> until the method has returned or raised, and its termination
  proof is the termination of the method, by the measure \<open>ticks_left\<close>. The same measure,
  read off the position alone once \<open>nb_cmds\<close> is read, bounds the statements the method
  still executes under every schedule of a second caller.
\<close>

section \<open>The statements that remain\<close>

fun halted :: "flusher \<Rightarrow> bool" where
  "halted Done = True"
| "halted (Raised e) = True"
| "halted pc = False"

text \<open>
  An upper bound on the statements a thread at position \<open>pc\<close> still executes when the
  queue holds \<open>n\<close> commands. After \<open>nb_cmds\<close> is read the bound does not depend on \<open>n\<close>.
\<close>

fun statements_left :: "flusher \<Rightarrow> nat \<Rightarrow> nat" where
  "statements_left (Start st) n = 2 * n + 2"
| "statements_left (Check st) n = 2 * n + 1"
| "statements_left (Loop k) n = (if k = 0 then 1 else 2 * k)"
| "statements_left (Send c k) n = 2 * k + 1"
| "statements_left Done n = 0"
| "statements_left (Raised e) n = 0"

definition ticks_left :: "'w config \<Rightarrow> nat" where
  "ticks_left cfg = statements_left (fst cfg) (nbof_saved_commands (fst (snd cfg)))"

text \<open>\<open>nb_cmds\<close> is read: the thread is in the loop or has left the method.\<close>

fun counted :: "flusher \<Rightarrow> bool" where
  "counted (Start st) = False"
| "counted (Check st) = False"
| "counted pc = True"

text \<open>
  Every statement of a method that has not ended lowers the bound. This is what the
  termination proof of \<open>finish\<close> needs.
\<close>

lemma tick_decreases:
  "\<not> halted (fst cfg) \<Longrightarrow> ticks_left (tick srv cfg) < ticks_left cfg"
proof (cases cfg)
  case (fields pc m w)
  assume "\<not> halted (fst cfg)"
  with fields show ?thesis
    by (cases pc; cases "passes_left pc"; cases "queued_commands m")
      (auto simp: ticks_left_def get_saved_command_def nbof_saved_commands_def Let_def)
qed

section \<open>Running the method to its end\<close>

function finish :: "'w SwapServer \<Rightarrow> 'w config \<Rightarrow> 'w config" where
  "finish srv cfg = (if halted (fst cfg) then cfg else finish srv (tick srv cfg))"
  by pat_completeness auto

termination finish
  by (relation "measure (\<lambda>(srv, cfg). ticks_left cfg)") (auto simp: tick_decreases)

declare finish.simps [simp del]

lemma finish_halted [simp]: "halted (fst cfg) \<Longrightarrow> finish srv cfg = cfg"
  by (subst finish.simps) simp

lemma finish_tick: "\<not> halted (fst cfg) \<Longrightarrow> finish srv cfg = finish srv (tick srv cfg)"
  by (subst finish.simps) simp

lemma tick_halted [simp]: "halted (fst cfg) \<Longrightarrow> tick srv cfg = cfg"
  by (cases cfg; cases "fst cfg") simp_all

lemma ticks_halted [simp]:
  "halted (fst cfg) \<Longrightarrow> interleave srv cfg (replicate n Tick) = cfg"
  by (induction n) simp_all

lemma finish_is_halted: "halted (fst (finish srv cfg))"
  by (induction srv cfg rule: finish.induct) (metis finish_halted finish_tick)

lemma finish_ticks:
  "\<exists>n \<le> ticks_left cfg. finish srv cfg = interleave srv cfg (replicate n Tick)"
proof (induction srv cfg rule: finish.induct)
  case (1 srv cfg)
  show ?case
  proof (cases "halted (fst cfg)")
    case True
    then have "finish srv cfg = interleave srv cfg (replicate 0 Tick)" by simp
    then show ?thesis by blast
  next
    case False
    from 1 [OF False] obtain n where n: "n \<le> ticks_left (tick srv cfg)"
      "finish srv (tick srv cfg) = interleave srv (tick srv cfg) (replicate n Tick)"
      by blast
    from False n tick_decreases [OF False, of srv]
    have "Suc n \<le> ticks_left cfg \<and> finish srv cfg = interleave srv cfg (replicate (Suc n) Tick)"
      by (simp add: finish_tick)
    then show ?thesis by blast
  qed
qed

lemma finish_ticks_enough:
  "ticks_left cfg \<le> n \<Longrightarrow> interleave srv cfg (replicate n Tick) = finish srv cfg"
proof -
  assume le: "ticks_left cfg \<le> n"
  from finish_ticks [of cfg srv] obtain k where k: "k \<le> ticks_left cfg"
    "finish srv cfg = interleave srv cfg (replicate k Tick)"
    by blast
  with le have "replicate n Tick = replicate k Tick @ replicate (n - k) Tick"
    by (simp flip: replicate_add)
  then have "interleave srv cfg (replicate n Tick) =
      interleave srv (finish srv cfg) (replicate (n - k) Tick)"
    using k by (simp only: interleave_append)
  then show ?thesis by (simp add: finish_is_halted)
qed

lemma finish_while:
  "while_option (\<lambda>cfg. \<not> halted (fst cfg)) (tick srv) cfg = Some (finish srv cfg)"
  by (induction srv cfg rule: finish.induct)
    (subst while_option_unfold, simp add: finish_tick)

lemma finish_update_state:
  "finish srv (Start st, m, w) =
     (case update_state srv m st w of
        Inl e \<Rightarrow> (Raised e, m, w)
      | Inr (m', w') \<Rightarrow> (Done, m', w'))"
proof -
  have "ticks_left (Start st, m, w) \<le> 2 + 2 * nbof_saved_commands m"
    by (simp add: ticks_left_def)
  note eq = finish_ticks_enough [OF this, of srv, symmetric]
  show ?thesis
    unfolding eq ticks_update_state
    by (cases "wakes st") (simp_all add: update_state_wakes update_state_sleeps)
qed

section \<open>Under a second caller\<close>

text \<open>
  Once \<open>nb_cmds\<close> is read, no action of either thread raises the bound, and every
  statement of the flushing thread lowers it until the method has ended.
\<close>

lemma statements_left_counted:
  "counted pc \<Longrightarrow> statements_left pc n = statements_left pc 0"
  by (cases pc) simp_all

lemma statements_left_0_iff: "counted pc \<Longrightarrow> statements_left pc n = 0 \<longleftrightarrow> halted pc"
  by (cases pc) simp_all

lemma tick_counted: "counted (fst cfg) \<Longrightarrow> counted (fst (tick srv cfg))"
  by (cases cfg; cases "fst cfg"; cases "passes_left (fst cfg)"; cases "get_saved_command (fst (snd cfg))")
    (auto split: sum.splits)

lemma act_counted: "counted (fst cfg) \<Longrightarrow> counted (fst (act srv cfg a))"
  by (cases a; cases cfg) (simp_all add: tick_counted)

lemma two_ticks_counted: "counted (fst (tick srv (tick srv cfg)))"
  by (cases cfg; cases "fst cfg") (auto simp: Let_def tick_counted)

lemma act_statements_left:
  assumes "counted (fst cfg)"
  shows "statements_left (fst (act srv cfg a)) 0 \<le> statements_left (fst cfg) 0 - count_list [a] Tick"
proof (cases a)
  case Tick
  show ?thesis
  proof (cases "halted (fst cfg)")
    case True
    with Tick show ?thesis by (cases cfg; cases "fst cfg") simp_all
  next
    case False
    from tick_decreases [OF False, of srv] assms tick_counted [OF assms, of srv] Tick
    show ?thesis
      by (simp add: ticks_left_def statements_left_counted [where n = "nbof_saved_commands _"])
  qed
next
  case (Other c)
  then show ?thesis by (cases cfg) simp
qed

lemma interleave_counted:
  "counted (fst cfg) \<Longrightarrow> counted (fst (interleave srv cfg sched))"
  by (induction sched arbitrary: cfg) (simp_all add: act_counted)

lemma interleave_statements_left:
  "counted (fst cfg) \<Longrightarrow>
     statements_left (fst (interleave srv cfg sched)) 0 \<le>
       statements_left (fst cfg) 0 - count_list sched Tick"
proof (induction sched arbitrary: cfg)
  case Nil
  then show ?case by simp
next
  case (Cons a sched)
  from Cons.IH [OF act_counted [OF Cons.prems], of srv a] act_statements_left [OF Cons.prems, of srv a]
  show ?case by (cases a) simp_all
qed

section \<open>Properties of termination\<close>

text \<open>
  C18. \<open>update_state\<close> terminates. From every position inside the method, with every
  mote and server, repeating its statements reaches the end of the method (it has
  returned or raised) after at most \<open>ticks_left\<close> statements, which is two statements and
  two for every saved command at the entry of the method; as a \<open>while\<close> loop over the
  statements it has a result; and from the entry of the method that result is what
  \<open>update_state\<close> returns.
\<close>

theorem update_state_terminates:
  "halted (fst (finish srv cfg)) \<and>
   (\<exists>n \<le> ticks_left cfg. finish srv cfg = interleave srv cfg (replicate n Tick)) \<and>
   while_option (\<lambda>cfg. \<not> halted (fst cfg)) (tick srv) cfg = Some (finish srv cfg) \<and>
   ticks_left (Start st, m, w) = 2 + 2 * nbof_saved_commands m \<and>
   finish srv (Start st, m, w) =
     (case update_state srv m st w of
        Inl e \<Rightarrow> (Raised e, m, w)
      | Inr (m', w') \<Rightarrow> (Done, m', w'))"
  using finish_ticks [of cfg srv]
  by (simp add: finish_is_halted finish_while finish_update_state ticks_left_def)

text \<open>
  C19. \<open>update_state\<close> terminates whatever a second caller does. Once \<open>nb_cmds\<close> is read,
  under every schedule, every server and every call of the other thread (appends, pops,
  state reports), the method has ended as soon as the flushing thread has executed
  \<open>statements_left\<close> statements, twice the number of passes that remain: commands
  appended during the flush do not extend it.
\<close>

theorem flush_terminates_under_interference:
  assumes "counted pc"
    and "statements_left pc n \<le> count_list sched Tick"
  shows "halted (fst (interleave srv (pc, m, w) sched))"
proof -
  from assms(1) have c: "counted (fst (pc, m, w))" by simp
  from interleave_statements_left [OF c, of srv sched] assms
  have "statements_left (fst (interleave srv (pc, m, w) sched)) 0 = 0"
    by (simp add: statements_left_counted [of pc n])
  with interleave_counted [OF c, of srv sched] show ?thesis
    by (simp add: statements_left_0_iff)
qed

theorem flush_terminates_under_interference_witness:
  "counted (Loop 1) \<and>
   statements_left (Loop 1) 0 \<le>
     count_list [Other (SaveAddressCommand 9), Tick, Other (SaveTxintervalCommand 30), Tick] Tick \<and>
   halted (fst (interleave recorder
     (Loop 1, sensor_mote\<lparr>queued_commands := [(ID_DEVICE_ADDR, SwapValue (RawInt 7) 1)]\<rparr>, quiet [])
     [Other (SaveAddressCommand 9), Tick, Other (SaveTxintervalCommand 30), Tick]))"
proof -
  have 1: "counted (Loop 1)" by simp
  have 2: "statements_left (Loop 1) 0 \<le>
      count_list [Other (SaveAddressCommand 9), Tick, Other (SaveTxintervalCommand 30), Tick] Tick"
    by simp
  from flush_terminates_under_interference [OF 1 2, where srv = recorder and w = "quiet []"
      and m = "sensor_mote\<lparr>queued_commands := [(ID_DEVICE_ADDR, SwapValue (RawInt 7) 1)]\<rparr>"] 1 2
  show ?thesis by blast
qed

end
