(* ===== verification/Swap_Threads.thy ===== *)
theory Swap_Threads
  imports Swap_Interleave
begin

text \<open>
  \<open>save_command\<close> statement by statement. The method tests the state of the mote and then
  either writes or appends; between the test and the append another thread can run, and
  the object has no lock. \<open>saver\<close> is the position of a thread inside \<open>save_command\<close>,
  \<open>save_tick\<close> executes its next statement, and a schedule of \<open>turn\<close>s interleaves these
  statements with the actions of \<open>Swap_Interleave\<close>: the statements of a thread inside
  \<open>update_state\<close> and the complete calls of further threads.

  The lemmas show that the two statements executed back to back are the atomic
  \<open>save_command\<close> of the earlier schedules, under every server, and that a statement of
  \<open>save_command\<close> neither loses nor duplicates a command. What a state report between the test and
  the append does, and the refinement of the atomic calls by the statements, are in
  \<open>Swap_Order\<close>; the properties of all schedules are stated in \<open>Swap_Crowd\<close>, for any
  number of threads inside \<open>save_command\<close>.
\<close>

section \<open>The statements of \<open>save_command\<close>\<close>

text \<open>
  \<open>Enter regid val\<close>: the method is entered. \<open>Write regid val\<close>: the test was true and the
  confirmed write is next. \<open>Append regid val\<close>: the test was false and the append is next.
  \<open>Returned res\<close>: the method has returned \<open>res\<close>.
\<close>

datatype saver =
    Enter SwapRegId SwapValue
  | Write SwapRegId SwapValue
  | Append SwapRegId SwapValue
  | Returned "bool option"

fun save_tick :: "'w SwapServer \<Rightarrow> saver \<times> SwapMote \<times> 'w \<Rightarrow> saver \<times> SwapMote \<times> 'w" where
  "save_tick srv (Enter regid val, m, w) =
     (if state m = RXON \<or> \<not> pwrdownmode m then (Write regid val, m, w)
      else (Append regid val, m, w))"
| "save_tick srv (Write regid val, m, w) =
     (let (res, w') = cmdRegisterWack srv m regid val w in (Returned (Some res), m, w'))"
| "save_tick srv (Append regid val, m, w) =
     (Returned None, m\<lparr>queued_commands := queued_commands m @ [(regid, val)]\<rparr>, w)"
| "save_tick srv (Returned res, m, w) = (Returned res, m, w)"

section \<open>Schedules of three kinds of thread\<close>

text \<open>
  A turn is a statement of the thread inside \<open>save_command\<close>, or an action of the earlier
  schedules: a statement of the thread inside \<open>update_state\<close> or a complete call.
\<close>

datatype turn = Saver | Rest action

type_synonym 'w trio = "saver \<times> 'w config"

fun turn_step :: "'w SwapServer \<Rightarrow> 'w trio \<Rightarrow> turn \<Rightarrow> 'w trio" where
  "turn_step srv (sv, cfg) (Rest a) = (sv, act srv cfg a)"
| "turn_step srv (sv, pc, s) Saver = (case save_tick srv (sv, s) of (sv', s') \<Rightarrow> (sv', pc, s'))"

definition threads :: "'w SwapServer \<Rightarrow> 'w trio \<Rightarrow> turn list \<Rightarrow> 'w trio" where
  "threads srv cfg turns = foldl (turn_step srv) cfg turns"

text \<open>The command a thread inside \<open>save_command\<close> has not yet handed over.\<close>

fun holding :: "saver \<Rightarrow> command list" where
  "holding (Enter regid val) = [(regid, val)]"
| "holding (Write regid val) = [(regid, val)]"
| "holding (Append regid val) = [(regid, val)]"
| "holding (Returned res) = []"

section \<open>Facts on schedules\<close>

lemma threads_simps [simp]:
  "threads srv cfg [] = cfg"
  "threads srv cfg (t # turns) = threads srv (turn_step srv cfg t) turns"
  by (simp_all add: threads_def)

lemma threads_append:
  "threads srv cfg (xs @ ys) = threads srv (threads srv cfg xs) ys"
  by (simp add: threads_def)

lemma threads_Rest: "threads srv (sv, cfg) (map Rest sched) = (sv, interleave srv cfg sched)"
  by (induction sched arbitrary: cfg) simp_all

text \<open>The two statements back to back are the method.\<close>

lemma save_tick_twice:
  "save_tick srv (save_tick srv (Enter r v, m, w)) =
     (Returned (fst (save_command srv m r v w)), snd (save_command srv m r v w))"
  by (simp add: save_command_def split: prod.split)

lemma saver_turns_twice:
  "threads srv (Enter r v, pc, m, w) [Saver, Saver] =
     (Returned (fst (save_command srv m r v w)), act srv (pc, m, w) (Other (SaveCommand r v)))"
proof -
  obtain sv' m' w' where 1: "save_tick srv (Enter r v, m, w) = (sv', m', w')"
    by (cases "save_tick srv (Enter r v, m, w)")
  obtain sv'' s'' where 2: "save_tick srv (sv', m', w') = (sv'', s'')"
    by (cases "save_tick srv (sv', m', w')")
  from save_tick_twice [of srv r v m w] 1 2 show ?thesis by simp
qed

section \<open>No command is lost or made\<close>

lemma save_tick_commands:
  "mset (holding (fst (save_tick recorder (sv, m, w)))) +
   mset (attempts (snd (snd (save_tick recorder (sv, m, w))))) +
   mset (queued_commands (fst (snd (save_tick recorder (sv, m, w))))) =
     mset (holding sv) + mset (attempts w) + mset (queued_commands m)"
  by (cases sv) (simp_all add: cmdRegisterWack_def split_def)

end
