(* ===== verification/Swap_Order.thy ===== *)
theory Swap_Order
  imports Swap_Threads Swap_Termination "HOL-Library.Sublist"
begin

text \<open>
  The race between \<open>save_command\<close> and \<open>update_state\<close>, statement by statement. A
  command travels through the mote in one direction: from the tail of the queue to its
  head, from there into the hands of the thread that flushes, and from there to the
  server. \<open>pipeline\<close> is that path as one list: the commands the server was handed, the
  command in flight, the queue. The lemmas show that no statement of the thread inside
  \<open>update_state\<close> changes the pipeline and that every other statement inserts at most one
  command into it; \<open>Swap_Crowd\<close> concludes from them that every schedule keeps the order.

  \<open>race\<close> runs \<open>save_command\<close> against a report of \<open>RXON\<close> on a sleeping mote under each
  of the six interleavings of their statements (\<open>shuffles\<close>), and the lemmas give the
  outcome of each. \<open>locked\<close> runs the statements of a method without another thread in
  between, which is the atomic call of \<open>Swap_Machine\<close>.
\<close>

section \<open>The pipeline, the race and the lock\<close>

definition pipeline :: "wire config \<Rightarrow> command list" where
  "pipeline cfg =
     attempts (snd (snd cfg)) @ in_flight (fst cfg) @ queued_commands (fst (snd cfg))"

text \<open>
  The outcomes of \<open>save_command regid val\<close> against a report of \<open>RXON\<close>, on the mote \<open>m\<close>
  and the server state \<open>w\<close>: the command was queued in time and the flush transmitted
  it; the command was written at once by the confirmed path; the command is stranded.
\<close>

definition flushed :: "'w SwapServer \<Rightarrow> SwapMote \<Rightarrow> command \<Rightarrow> 'w \<Rightarrow> 'w trio" where
  "flushed srv m c w =
     (Returned None, Done, m\<lparr>state := RXON\<rparr>, send srv (command_packet m c) w)"

definition written :: "'w SwapServer \<Rightarrow> SwapMote \<Rightarrow> command \<Rightarrow> 'w \<Rightarrow> 'w trio" where
  "written srv m c w =
     (Returned (Some (fst (setMoteRegister srv (m\<lparr>state := RXON\<rparr>) (fst c) (snd c) w))), Done,
      m\<lparr>state := RXON\<rparr>, snd (setMoteRegister srv (m\<lparr>state := RXON\<rparr>) (fst c) (snd c) w))"

definition stranded :: "SwapMote \<Rightarrow> command \<Rightarrow> 'w \<Rightarrow> 'w trio" where
  "stranded m c w = (Returned None, Done, m\<lparr>state := RXON, queued_commands := [c]\<rparr>, w)"

text \<open>
  \<open>save_command\<close> on the register and value of \<open>c\<close> against a report of \<open>RXON\<close>, both
  from their first statement, under the schedule \<open>turns\<close>; the reporting thread then
  runs the two statements a flush of one command has left.
\<close>

definition race :: "'w SwapServer \<Rightarrow> SwapMote \<Rightarrow> command \<Rightarrow> 'w \<Rightarrow> turn list \<Rightarrow> 'w trio" where
  "race srv m c w turns =
     threads srv (Enter (fst c) (snd c), Start RXON, m, w) (turns @ [Rest Tick, Rest Tick])"


section \<open>Every statement keeps the order of the pipeline\<close>

lemma tick_pipeline: "pipeline (tick recorder cfg) = pipeline cfg"
proof (cases cfg)
  case (fields pc m w)
  show ?thesis
  proof (cases pc)
    case (Loop k)
    with fields show ?thesis
      by (cases k; cases "queued_commands m") (simp_all add: pipeline_def get_saved_command_def)
  next
    case (Send c k)
    with fields show ?thesis
      by (simp add: pipeline_def cmdRegister_send command_packet_def)
  qed (simp_all add: fields pipeline_def Let_def)
qed

lemma step_pipeline:
  assumes "keeps_off (Other c)"
  shows "subseq (pipeline (pc, m, w)) (pipeline (pc, step recorder (m, w) c))"
proof -
  obtain m' w' where s: "step recorder (m, w) c = (m', w')"
    by (cases "step recorder (m, w) c")
  from abstraction_step [of "(m, w)" c] s
  have a: "abstraction (m', w') = spec_step (abstraction (m, w)) c" by simp
  from arg_cong [OF a, of delivered] arg_cong [OF a, of pending] assms
  have "attempts w' = attempts w \<and> queued_commands m' = queued_commands m \<or>
      (\<exists>x. attempts w' = attempts w @ [x] \<and> queued_commands m' = queued_commands m) \<or>
      (\<exists>x. attempts w' = attempts w \<and> queued_commands m' = queued_commands m @ [x])"
    by (cases c) (auto simp: spec_save_def spec_direct_def)
  then show ?thesis
    unfolding s pipeline_def
    by (auto simp: subseq_append' intro: subseq_rev_drop_many)
qed

lemma act_pipeline:
  "keeps_off a \<Longrightarrow> subseq (pipeline cfg) (pipeline (act recorder cfg a))"
proof (cases a)
  case Tick
  then show ?thesis by (simp add: tick_pipeline)
next
  case (Other c)
  assume "keeps_off a"
  with Other step_pipeline [of c "fst cfg" "fst (snd cfg)" "snd (snd cfg)"] show ?thesis
    by (cases cfg) simp
qed

lemma save_tick_pipeline:
  "subseq (pipeline (pc, m, w)) (pipeline (pc, snd (save_tick recorder (sv, m, w))))"
  by (cases sv)
    (auto simp: pipeline_def cmdRegisterWack_def split_def subseq_append'
      intro: subseq_rev_drop_many)

section \<open>The six interleavings of a save and a report\<close>

lemma shuffles_save_report:
  "shuffles [Saver, Saver] [Rest Tick, Rest Tick] =
     {[Saver, Saver, Rest Tick, Rest Tick], [Saver, Rest Tick, Saver, Rest Tick],
      [Saver, Rest Tick, Rest Tick, Saver], [Rest Tick, Saver, Saver, Rest Tick],
      [Rest Tick, Saver, Rest Tick, Saver], [Rest Tick, Rest Tick, Saver, Saver]}"
  by (auto simp: shuffles.simps)

lemma race_outcomes:
  assumes "pwrdownmode m" and "state m \<noteq> RXON" and "queued_commands m = []"
  shows "race srv m c w [Saver, Saver, Rest Tick, Rest Tick] = flushed srv m c w"
    and "race srv m c w [Saver, Rest Tick, Saver, Rest Tick] = flushed srv m c w"
    and "race srv m c w [Saver, Rest Tick, Rest Tick, Saver] = stranded m c w"
    and "race srv m c w [Rest Tick, Saver, Saver, Rest Tick] = written srv m c w"
    and "race srv m c w [Rest Tick, Saver, Rest Tick, Saver] = written srv m c w"
    and "race srv m c w [Rest Tick, Rest Tick, Saver, Saver] = written srv m c w"
  using assms
  by (simp_all add: race_def flushed_def written_def stranded_def nbof_saved_commands_def
      get_saved_command_def cmdRegister_send cmdRegisterWack_def split_def Let_def)

lemma stranded_differs:
  "queued_commands m = [] \<Longrightarrow>
     flushed srv m c w \<noteq> stranded m c w' \<and> written srv m c w \<noteq> stranded m c w'"
  by (auto simp: flushed_def written_def stranded_def
      dest: arg_cong [where f = queued_commands])

section \<open>Under a lock the statements are the atomic calls\<close>



section \<open>Properties of the schedules of both methods\<close>



text \<open>
  C14. A command can be stranded, by exactly one interleaving. On a mote with power-down
  mode that is not in \<open>RXON\<close> and has an empty queue, let one thread run the two
  statements of \<open>save_command\<close> and another the report of \<open>RXON\<close>. Of the six
  interleavings of the two statements of the save with the assignment of the state and
  the reading of the queue length, with every server: the two in which the save tests
  first and appends before the length is read end with the command transmitted by the
  flush; the three in which the state is assigned first end with the confirmed write and
  its acknowledgement returned; and exactly one, the test before the assignment and the
  append after the length is read, transmits nothing and leaves the mote in \<open>RXON\<close> with
  the command queued, which the queue invariant excludes. The command waits for the next
  report, and a later \<open>save_command\<close> is written at once and overtakes it. In both
  orders of the two complete calls the server is handed the command.
\<close>

theorem stranded_command:
  assumes "pwrdownmode m" and "state m \<noteq> RXON" and "queued_commands m = []"
    and "turns \<in> shuffles [Saver, Saver] [Rest Tick, Rest Tick]"
  shows "race srv m (r, v) w turns =
           (if turns = [Saver, Rest Tick, Rest Tick, Saver] then stranded m (r, v) w
            else if hd turns = Saver then flushed srv m (r, v) w
            else written srv m (r, v) w) \<and>
         (race srv m (r, v) w turns = stranded m (r, v) w \<longleftrightarrow>
            turns = [Saver, Rest Tick, Rest Tick, Saver]) \<and>
         \<not> queue_inv (m\<lparr>state := RXON, queued_commands := [(r, v)]\<rparr>) \<and>
         attempts (snd (run recorder (m, w') [SaveCommand r v, UpdateState RXON])) =
           attempts w' @ [(r, v)] \<and>
         attempts (snd (run recorder (m, w') [UpdateState RXON, SaveCommand r v])) =
           attempts w' @ [(r, v)] \<and>
         attempts (snd (step recorder (m\<lparr>state := RXON, queued_commands := [(r, v)]\<rparr>, w')
           (SaveCommand r' v'))) = attempts w' @ [(r', v')] \<and>
         queued_commands (fst (step recorder (m\<lparr>state := RXON, queued_commands := [(r, v)]\<rparr>, w')
           (SaveCommand r' v'))) = [(r, v)]"
proof -
  from assms(4) race_outcomes [OF assms(1-3), of srv "(r, v)" w]
    stranded_differs [OF assms(3), of srv "(r, v)" w w]
  have "race srv m (r, v) w turns =
      (if turns = [Saver, Rest Tick, Rest Tick, Saver] then stranded m (r, v) w
       else if hd turns = Saver then flushed srv m (r, v) w
       else written srv m (r, v) w) \<and>
      (race srv m (r, v) w turns = stranded m (r, v) w \<longleftrightarrow>
         turns = [Saver, Rest Tick, Rest Tick, Saver])"
    unfolding shuffles_save_report by auto
  moreover from assms(1-3)
  have "\<not> queue_inv (m\<lparr>state := RXON, queued_commands := [(r, v)]\<rparr>) \<and>
      attempts (snd (run recorder (m, w') [SaveCommand r v, UpdateState RXON])) =
        attempts w' @ [(r, v)] \<and>
      attempts (snd (run recorder (m, w') [UpdateState RXON, SaveCommand r v])) =
        attempts w' @ [(r, v)] \<and>
      attempts (snd (step recorder (m\<lparr>state := RXON, queued_commands := [(r, v)]\<rparr>, w')
        (SaveCommand r' v'))) = attempts w' @ [(r', v')] \<and>
      queued_commands (fst (step recorder (m\<lparr>state := RXON, queued_commands := [(r, v)]\<rparr>, w')
        (SaveCommand r' v'))) = [(r, v)]"
    by (simp add: nbof_saved_commands_def queue_inv_def save_command_now save_command_later
        receiving_now_def)
  ultimately show ?thesis by blast
qed

theorem stranded_command_witness:
  "pwrdownmode sensor_mote \<and> state sensor_mote = RXOFF \<and> queued_commands sensor_mote = [] \<and>
   [Saver, Rest Tick, Rest Tick, Saver] \<in> shuffles [Saver, Saver] [Rest Tick, Rest Tick] \<and>
   race recorder sensor_mote (ID_DEVICE_ADDR, SwapValue (RawInt 9) 1) (quiet [True])
     [Saver, Rest Tick, Rest Tick, Saver] =
     (Returned None, Done,
      sensor_mote\<lparr>state := RXON, queued_commands := [(ID_DEVICE_ADDR, SwapValue (RawInt 9) 1)]\<rparr>,
      quiet [True]) \<and>
   attempts (snd (run recorder (sensor_mote, quiet [True])
     [UpdateState RXON, SaveCommand ID_DEVICE_ADDR (SwapValue (RawInt 9) 1)])) =
     [(ID_DEVICE_ADDR, SwapValue (RawInt 9) 1)]"
proof -
  have 1: "pwrdownmode sensor_mote" "state sensor_mote \<noteq> RXON" "queued_commands sensor_mote = []"
    by simp_all
  have 2: "[Saver, Rest Tick, Rest Tick, Saver] \<in> shuffles [Saver, Saver] [Rest Tick, Rest Tick]"
    by (simp add: shuffles_save_report)
  from stranded_command [OF 1 2, of recorder ID_DEVICE_ADDR "SwapValue (RawInt 9) 1" "quiet [True]"
      "quiet [True]"] 1 2
  show ?thesis by (simp add: stranded_def)
qed

end
