(* ===== verification/Swap_Crowd.thy ===== *)
theory Swap_Crowd
  imports Swap_Order
begin

text \<open>
  Any number of threads inside \<open>save_command\<close>. A controller may call \<open>save_command\<close>
  from several threads while the thread of the server reports a state. A \<open>crowd\<close> is a
  list of positions inside \<open>save_command\<close>, one for each such thread, with the position
  of the thread inside \<open>update_state\<close> and the mote; a \<open>move\<close> is a statement of the
  thread with a given index, or an action of \<open>Swap_Interleave\<close>. The schedules of
  \<open>Swap_Threads\<close> are the crowds of one.
\<close>

section \<open>Crowds and their moves\<close>

datatype move = Save nat | Act action

type_synonym 'w crowd = "saver list \<times> 'w config"

fun move_step :: "'w SwapServer \<Rightarrow> 'w crowd \<Rightarrow> move \<Rightarrow> 'w crowd" where
  "move_step srv (svs, cfg) (Act a) = (svs, act srv cfg a)"
| "move_step srv (svs, pc, s) (Save i) =
     (if i < length svs
      then (case save_tick srv (svs ! i, s) of (sv', s') \<Rightarrow> (svs[i := sv'], pc, s'))
      else (svs, pc, s))"

definition crowd :: "'w SwapServer \<Rightarrow> 'w crowd \<Rightarrow> move list \<Rightarrow> 'w crowd" where
  "crowd srv cfg moves = foldl (move_step srv) cfg moves"

text \<open>No thread but the one inside \<open>update_state\<close> pops the queue or reports a state.\<close>

fun permitted :: "move \<Rightarrow> bool" where
  "permitted (Save i) = True"
| "permitted (Act a) = keeps_off a"

fun given :: "move \<Rightarrow> command list" where
  "given (Save i) = []"
| "given (Act a) = handed a"

text \<open>The configurations a crowd can reach, whatever the scheduler does.\<close>

inductive crowded :: "'w SwapServer \<Rightarrow> 'w crowd \<Rightarrow> 'w crowd \<Rightarrow> bool"
  for srv :: "'w SwapServer" and cfg :: "'w crowd" where
  start: "crowded srv cfg cfg"
| move: "crowded srv cfg cfg' \<Longrightarrow> permitted mv \<Longrightarrow> crowded srv cfg (move_step srv cfg' mv)"

text \<open>A thread that enters \<open>save_command\<close> with the command \<open>c\<close>; one that is about to append it.\<close>

definition enter :: "command \<Rightarrow> saver" where
  "enter c = Enter (fst c) (snd c)"

definition about :: "command \<Rightarrow> saver" where
  "about c = Append (fst c) (snd c)"

text \<open>The turn of \<open>Swap_Threads\<close> as a move of the crowd of one.\<close>

fun solo :: "turn \<Rightarrow> move" where
  "solo Saver = Save 0"
| "solo (Rest a) = Act a"

text \<open>The commands the threads of the crowd still hold, and every command there is.\<close>

definition held :: "saver list \<Rightarrow> command multiset" where
  "held svs = mset (concat (map holding svs))"

definition crowd_commands :: "wire crowd \<Rightarrow> command multiset" where
  "crowd_commands cfg = held (fst cfg) + accounted (snd cfg)"

text \<open>
  The commands of the threads that have returned \<open>None\<close>, when thread \<open>i\<close> entered with
  the command \<open>cs ! i\<close>.
\<close>

definition returned :: "saver list \<Rightarrow> command list \<Rightarrow> command multiset" where
  "returned svs cs = mset (map snd (filter (\<lambda>p. fst p = Returned None) (zip svs cs)))"

text \<open>
  What holds of the queue at each position of \<open>update_state\<close> while threads are inside
  \<open>save_command\<close>. It is \<open>settling\<close> of \<open>Swap_Interleave\<close> with room for late appends:
  \<open>lates cs svs q k\<close> says that the queue \<open>q\<close> holds the \<open>k\<close> commands the loop will still
  pop and after them only commands of threads that have returned \<open>None\<close>, each at most
  once. \<open>appends sv\<close> says that a thread has tested the state and is about to append.
\<close>

fun appends :: "saver \<Rightarrow> bool" where
  "appends (Append regid val) = True"
| "appends sv = False"

definition lates :: "command list \<Rightarrow> saver list \<Rightarrow> command list \<Rightarrow> nat \<Rightarrow> bool" where
  "lates cs svs q k \<longleftrightarrow> k \<le> length q \<and> mset (drop k q) \<subseteq># returned svs cs"

fun crowd_at :: "command list \<Rightarrow> saver list \<Rightarrow> flusher \<Rightarrow> SwapMote \<Rightarrow> bool" where
  "crowd_at cs svs (Start st) m =
     (queue_inv m \<and> (\<forall>sv \<in> set svs. appends sv \<longrightarrow> \<not> receiving_now m))"
| "crowd_at cs svs (Check st) m =
     (state m = st \<and> (\<not> pwrdownmode m \<longrightarrow> queued_commands m = []))"
| "crowd_at cs svs (Raised e) m = True"
| "crowd_at cs svs pc m = (receiving_now m \<longrightarrow> lates cs svs (queued_commands m) (passes_left pc))"

definition crowd_inv :: "command list \<Rightarrow> 'w crowd \<Rightarrow> bool" where
  "crowd_inv cs cfg \<longleftrightarrow>
     (case cfg of (svs, pc, m, w) \<Rightarrow>
        list_all2 (\<lambda>sv c. set (holding sv) \<subseteq> {c}) svs cs \<and>
        (\<forall>sv \<in> set svs. appends sv \<longrightarrow> pwrdownmode m) \<and> crowd_at cs svs pc m)"

section \<open>Facts on crowds\<close>

lemma crowd_simps [simp]:
  "crowd srv cfg [] = cfg"
  "crowd srv cfg (mv # moves) = crowd srv (move_step srv cfg mv) moves"
  by (simp_all add: crowd_def)

lemma crowd_append: "crowd srv cfg (xs @ ys) = crowd srv (crowd srv cfg xs) ys"
  by (simp add: crowd_def)

lemma crowded_crowd: "\<forall>mv \<in> set moves. permitted mv \<Longrightarrow> crowded srv cfg (crowd srv cfg moves)"
proof (induction moves rule: rev_induct)
  case Nil
  show ?case by (simp add: crowded.start)
next
  case (snoc mv moves)
  then show ?case by (simp add: crowd_append crowded.move)
qed

lemma crowded_iff_crowd:
  "crowded srv cfg cfg' \<longleftrightarrow> (\<exists>moves. list_all permitted moves \<and> cfg' = crowd srv cfg moves)"
proof
  assume "crowded srv cfg cfg'"
  then show "\<exists>moves. list_all permitted moves \<and> cfg' = crowd srv cfg moves"
  proof (induction rule: crowded.induct)
    case start
    have "list_all permitted [] \<and> cfg = crowd srv cfg []" by simp
    then show ?case ..
  next
    case (move cfg' mv)
    from move.IH obtain moves where "list_all permitted moves" and "cfg' = crowd srv cfg moves"
      by blast
    with move.hyps(2)
    have "list_all permitted (moves @ [mv]) \<and> move_step srv cfg' mv = crowd srv cfg (moves @ [mv])"
      by (simp add: crowd_append)
    then show ?case ..
  qed
next
  assume "\<exists>moves. list_all permitted moves \<and> cfg' = crowd srv cfg moves"
  then show "crowded srv cfg cfg'" by (auto simp: list_all_iff crowded_crowd)
qed

text \<open>A schedule of \<open>Swap_Threads\<close> is a schedule of the crowd of one.\<close>

lemma solo_step:
  "move_step srv ([sv], cfg) (solo t) =
     ([fst (turn_step srv (sv, cfg) t)], snd (turn_step srv (sv, cfg) t))"
  by (cases t; cases cfg) (simp_all add: split_def)

lemma crowd_of_one:
  "crowd srv ([sv], cfg) (map solo turns) =
     ([fst (threads srv (sv, cfg) turns)], snd (threads srv (sv, cfg) turns))"
proof (induction turns arbitrary: sv cfg)
  case Nil
  show ?case by simp
next
  case (Cons t turns)
  from Cons.IH [of "fst (turn_step srv (sv, cfg) t)" "snd (turn_step srv (sv, cfg) t)"]
  show ?case by (simp add: solo_step)
qed

section \<open>No command is lost or made, and the order is kept\<close>

lemma held_update:
  "i < length svs \<Longrightarrow> held (svs[i := sv]) + mset (holding (svs ! i)) = held svs + mset (holding sv)"
proof (induction svs arbitrary: i)
  case Nil
  then show ?case by simp
next
  case (Cons a svs)
  then show ?case by (cases i) (auto simp: held_def)
qed

lemma save_step_commands:
  assumes "i < length svs" and "save_tick recorder (svs ! i, m, w) = (sv', m', w')"
  shows "held (svs[i := sv']) + mset (attempts w') + mset (queued_commands m') =
         held svs + mset (attempts w) + mset (queued_commands m)"
proof -
  let ?H = "mset (holding (svs ! i))"
  from save_tick_commands [of "svs ! i" m w] assms(2)
  have 1: "mset (holding sv') + mset (attempts w') + mset (queued_commands m') =
      ?H + mset (attempts w) + mset (queued_commands m)"
    by simp
  have "held (svs[i := sv']) + mset (attempts w') + mset (queued_commands m') + ?H =
      (held (svs[i := sv']) + ?H) + mset (attempts w') + mset (queued_commands m')"
    by (simp add: ac_simps)
  also have "\<dots> = held svs + (mset (holding sv') + mset (attempts w') + mset (queued_commands m'))"
    by (simp only: held_update [OF assms(1)]) (simp add: ac_simps)
  also have "\<dots> = held svs + mset (attempts w) + mset (queued_commands m) + ?H"
    by (simp only: 1) (simp add: ac_simps)
  finally show ?thesis by simp
qed

lemma move_step_commands:
  assumes "permitted mv"
  shows "crowd_commands (move_step recorder cfg mv) = crowd_commands cfg + mset (given mv)"
proof (cases mv)
  case (Save i)
  obtain svs pc m w where cfg: "cfg = (svs, pc, m, w)" by (cases cfg) auto
  obtain sv' m' w' where st: "save_tick recorder (svs ! i, m, w) = (sv', m', w')"
    by (cases "save_tick recorder (svs ! i, m, w)")
  show ?thesis
  proof (cases "i < length svs")
    case True
    from save_step_commands [OF True st] have
      "held (svs[i := sv']) + mset (attempts w') + mset (queued_commands m') + mset (in_flight pc) =
       held svs + mset (attempts w) + mset (queued_commands m) + mset (in_flight pc)"
      by (simp only:)
    with Save cfg True st show ?thesis
      by (simp add: crowd_commands_def accounted_def ac_simps)
  next
    case False
    with Save cfg show ?thesis by simp
  qed
next
  case (Act a)
  with assms act_accounted [of a "snd cfg"] show ?thesis
    by (cases cfg) (simp add: crowd_commands_def)
qed

lemma crowd_keeps_commands:
  "\<forall>mv \<in> set moves. permitted mv \<Longrightarrow>
     crowd_commands (crowd recorder cfg moves) =
       crowd_commands cfg + mset (concat (map given moves))"
  by (induction moves arbitrary: cfg) (simp_all add: move_step_commands)

lemma move_step_pipeline:
  assumes "permitted mv"
  shows "subseq (pipeline (snd cfg)) (pipeline (snd (move_step recorder cfg mv)))"
proof (cases mv)
  case (Save i)
  obtain svs pc m w where cfg: "cfg = (svs, pc, m, w)" by (cases cfg) auto
  from save_tick_pipeline [of pc m w "svs ! i"] Save cfg show ?thesis
    by (simp add: split_def)
next
  case (Act a)
  with assms act_pipeline [of a "snd cfg"] show ?thesis by (cases cfg) simp
qed

lemma crowded_pipeline:
  "crowded recorder cfg cfg' \<Longrightarrow> subseq (pipeline (snd cfg)) (pipeline (snd cfg'))"
proof (induction rule: crowded.induct)
  case start
  show ?case by simp
next
  case (move cfg' mv)
  from move.IH move_step_pipeline [OF move.hyps(2), of cfg'] show ?case
    by (rule subseq_order.trans)
qed

section \<open>At most one stranded command for each thread\<close>

lemma returned_update:
  assumes "i < length svs" and "length svs = length cs" and "svs ! i \<noteq> Returned None"
  shows "returned (svs[i := sv]) cs =
           (if sv = Returned None then add_mset (cs ! i) (returned svs cs) else returned svs cs)"
  using assms(2,1,3)
proof (induction svs cs arbitrary: i rule: list_induct2)
  case Nil
  then show ?case by simp
next
  case (Cons a svs c cs)
  then show ?case by (cases i) (auto simp: returned_def)
qed

lemma returned_size: "size (returned svs cs) \<le> length cs"
  unfolding returned_def size_mset length_map
  by (rule order_trans [OF length_filter_le]) simp

lemma tick_crowd_inv: "crowd_inv cs (svs, cfg) \<Longrightarrow> crowd_inv cs (svs, tick srv cfg)"
proof (cases cfg)
  case (fields pc m w)
  assume "crowd_inv cs (svs, cfg)"
  with fields show ?thesis
    by (cases pc; cases "passes_left pc"; cases "queued_commands m")
      (auto simp: crowd_inv_def queue_inv_def receiving_now_def get_saved_command_def
        nbof_saved_commands_def Let_def lates_def)
qed

lemma step_crowd_inv:
  assumes "keeps_off (Other c)" and "crowd_inv cs (svs, pc, m, w)"
  shows "crowd_inv cs (svs, pc, step srv (m, w) c)"
proof -
  note facts = step_power [OF assms(1), of srv m w] step_receiving_now [OF assms(1), of srv m w]
    step_queue_receiving [OF assms(1), of m srv w] step_queue_inv [of "(m, w)" srv c]
  from assms(2) facts show ?thesis
    by (cases pc; cases "step srv (m, w) c") (auto simp: crowd_inv_def receiving_now_def)
qed

text \<open>The facts of the invariant on one thread of the crowd.\<close>

lemma crowd_inv_nth:
  assumes "crowd_inv cs (svs, pc, m, w)" and "i < length svs"
  shows "length svs = length cs" and "set (holding (svs ! i)) \<subseteq> {cs ! i}"
    and "appends (svs ! i) \<Longrightarrow> pwrdownmode m"
  using assms
  by (auto simp: crowd_inv_def dest: list_all2_lengthD list_all2_nthD)

lemma crowd_at_update:
  assumes "crowd_at cs svs pc m" and "i < length svs" and "length svs = length cs"
    and "svs ! i \<noteq> Returned None" and "sv \<noteq> Returned None"
    and "appends sv \<longrightarrow> \<not> receiving_now m"
  shows "crowd_at cs (svs[i := sv]) pc m"
  using assms
  by (cases pc)
    (auto simp: lates_def returned_update dest!: subsetD [OF set_update_subset_insert])

lemma crowd_inv_update:
  assumes "crowd_inv cs (svs, pc, m, w)" and "i < length svs"
    and "svs ! i \<noteq> Returned None" and "sv \<noteq> Returned None"
    and "set (holding sv) \<subseteq> {cs ! i}"
    and "appends sv \<longrightarrow> pwrdownmode m \<and> \<not> receiving_now m"
  shows "crowd_inv cs (svs[i := sv], pc, m, w')"
proof -
  note nth = crowd_inv_nth [OF assms(1,2)]
  from assms(1) have "list_all2 (\<lambda>sv c. set (holding sv) \<subseteq> {c}) svs cs"
    by (simp add: crowd_inv_def)
  from list_all2_update_cong [OF this assms(5), of i]
  have 1: "list_all2 (\<lambda>sv c. set (holding sv) \<subseteq> {c}) (svs[i := sv]) cs" by simp
  from assms(1,6) have 2: "\<forall>x \<in> set (svs[i := sv]). appends x \<longrightarrow> pwrdownmode m"
    by (auto simp: crowd_inv_def dest!: subsetD [OF set_update_subset_insert])
  from assms(1) have "crowd_at cs svs pc m" by (simp add: crowd_inv_def)
  from crowd_at_update [OF this assms(2) nth(1) assms(3,4)] assms(6) 1 2 show ?thesis
    by (simp add: crowd_inv_def)
qed

lemma crowd_inv_append:
  assumes "crowd_inv cs (svs, pc, m, w)" and "i < length svs" and "svs ! i = Append r v"
  shows "crowd_inv cs
    (svs[i := Returned None], pc, m\<lparr>queued_commands := queued_commands m @ [(r, v)]\<rparr>, w)"
proof -
  note nth = crowd_inv_nth [OF assms(1,2)]
  from nth(2,3) assms(3) have c: "cs ! i = (r, v)" and p: "pwrdownmode m" by simp_all
  from assms(2) nth(1) assms(3)
  have r: "returned (svs[i := Returned None]) cs = add_mset (r, v) (returned svs cs)"
    by (simp add: returned_update c)
  from assms(1) have "list_all2 (\<lambda>sv c. set (holding sv) \<subseteq> {c}) svs cs"
    by (simp add: crowd_inv_def)
  from list_all2_update_cong [OF this, of "Returned None" "cs ! i" i]
  have 1: "list_all2 (\<lambda>sv c. set (holding sv) \<subseteq> {c}) (svs[i := Returned None]) cs" by simp
  from assms(2,3) have "Append r v \<in> set svs" by (metis nth_mem)
  with assms(1) have n: "\<not> receiving_now m" if "pc = Start st" for st
    using that by (fastforce simp: crowd_inv_def)
  from assms(1) p n have "crowd_at cs (svs[i := Returned None]) pc
      (m\<lparr>queued_commands := queued_commands m @ [(r, v)]\<rparr>)"
    by (cases pc)
      (auto simp: crowd_inv_def queue_inv_def receiving_now_def lates_def r
        dest!: subsetD [OF set_update_subset_insert])
  with assms(1) 1 show ?thesis
    by (auto simp: crowd_inv_def dest!: subsetD [OF set_update_subset_insert])
qed

lemma save_step_crowd_inv:
  assumes "crowd_inv cs (svs, pc, m, w)" and "i < length svs"
  shows "crowd_inv cs (move_step srv (svs, pc, m, w) (Save i))"
proof (cases "svs ! i")
  case (Enter r v)
  with crowd_inv_nth(2) [OF assms]
    crowd_inv_update [OF assms, of "Write r v" w] crowd_inv_update [OF assms, of "Append r v" w]
  show ?thesis using assms(2) by (simp add: receiving_now_def)
next
  case (Write r v)
  with crowd_inv_update [OF assms, of "Returned (Some (fst (cmdRegisterWack srv m r v w)))"
      "snd (cmdRegisterWack srv m r v w)"]
  show ?thesis using assms(2) by (simp add: split_def Let_def)
next
  case (Append r v)
  with crowd_inv_append [OF assms] show ?thesis using assms(2) by simp
next
  case (Returned res)
  then have "svs[i := Returned res] = svs" by (metis list_update_id)
  with Returned assms show ?thesis by simp
qed

lemma move_step_crowd_inv:
  assumes "permitted mv" and "crowd_inv cs cfg"
  shows "crowd_inv cs (move_step srv cfg mv)"
proof -
  obtain svs pc m w where cfg: "cfg = (svs, pc, m, w)" by (cases cfg) auto
  show ?thesis
  proof (cases mv)
    case (Save i)
    with assms(2) cfg save_step_crowd_inv [of cs svs pc m w i srv] show ?thesis
      by (cases "i < length svs") simp_all
  next
    case (Act a)
    with assms cfg tick_crowd_inv [of cs svs "(pc, m, w)" srv] step_crowd_inv [of _ cs svs pc m w srv]
    show ?thesis by (cases a) simp_all
  qed
qed

lemma crowded_crowd_inv: "crowded srv cfg cfg' \<Longrightarrow> crowd_inv cs cfg \<Longrightarrow> crowd_inv cs cfg'"
  by (induction rule: crowded.induct) (simp_all add: move_step_crowd_inv)

lemma enter_crowd_inv: "queue_inv m \<Longrightarrow> crowd_inv cs (map enter cs, Start st, m, w)"
  by (simp add: crowd_inv_def enter_def list_all2_conv_all_nth image_iff)

lemma crowd_strands:
  assumes "queue_inv m" and "crowded srv (map enter cs, Start st, m, w) (svs', Done, m', w')"
    and "receiving_now m'"
  shows "mset (queued_commands m') \<subseteq># returned svs' cs"
    and "length (queued_commands m') \<le> length cs"
proof -
  from crowded_crowd_inv [OF assms(2) enter_crowd_inv [OF assms(1)]] assms(3)
  show 1: "mset (queued_commands m') \<subseteq># returned svs' cs"
    by (simp add: crowd_inv_def lates_def)
  from size_mset_mono [OF 1] returned_size [of svs' cs]
  show "length (queued_commands m') \<le> length cs" by simp
qed

section \<open>The bound is reached\<close>

text \<open>
  Every thread of the crowd executes one statement, in the order of the indices: when a
  thread at \<open>f c\<close> moves to \<open>g c\<close> and changes the mote and the server by \<open>h c\<close>, the
  first \<open>j\<close> threads have moved and the others have not.
\<close>

lemma sweep:
  assumes "\<And>c s. P s \<Longrightarrow> save_tick srv (f c, s) = (g c, h c s) \<and> P (h c s)"
    and "P s" and "j \<le> length cs"
  shows "crowd srv (map f cs, pc, s) (map Save [0..<j]) =
           (map g (take j cs) @ map f (drop j cs), pc, foldl (\<lambda>s c. h c s) s (take j cs)) \<and>
         P (foldl (\<lambda>s c. h c s) s (take j cs))"
  using assms(3)
proof (induction j)
  case 0
  from assms(2) show ?case by simp
next
  case (Suc j)
  let ?s = "foldl (\<lambda>s c. h c s) s (take j cs)"
  from Suc have j: "j < length cs" and
    IH: "crowd srv (map f cs, pc, s) (map Save [0..<j]) =
      (map g (take j cs) @ map f (drop j cs), pc, ?s)" and P: "P ?s"
    by simp_all
  from j have nth: "(map g (take j cs) @ map f (drop j cs)) ! j = f (cs ! j)"
    by (simp add: nth_append)
  from j have upd: "(map g (take j cs) @ map f (drop j cs))[j := g (cs ! j)] =
      map g (take (Suc j) cs) @ map f (drop (Suc j) cs)"
    by (simp add: list_update_append take_Suc_conv_app_nth flip: Cons_nth_drop_Suc)
  from assms(1) [OF P, of "cs ! j"] j nth upd IH show ?case
    by (simp add: crowd_append take_Suc_conv_app_nth)
qed

lemma foldl_append_queue:
  "foldl (\<lambda>s c. (fst s\<lparr>queued_commands := queued_commands (fst s) @ [c]\<rparr>, snd s)) (m, w) cs =
     (m\<lparr>queued_commands := queued_commands m @ cs\<rparr>, w)"
  by (induction cs arbitrary: m) simp_all

lemma all_test:
  assumes "\<not> receiving_now m"
  shows "crowd srv (map enter cs, pc, m, w) (map Save [0..<length cs]) = (map about cs, pc, m, w)"
proof -
  let ?P = "\<lambda>s :: SwapMote \<times> 'a. \<not> receiving_now (fst s)"
  have step: "save_tick srv (enter c, s) = (about c, s) \<and> ?P s" if "?P s" for c s
    using that by (cases s) (simp add: enter_def about_def receiving_now_def)
  have same: "foldl (\<lambda>s c. s) s xs = s" for s :: "SwapMote \<times> 'a" and xs :: "command list"
    by (induction xs) simp_all
  from assms have "?P (m, w)" by simp
  from sweep [of ?P srv enter about "\<lambda>c s. s", OF step this order_refl, of cs pc]
  show ?thesis by (simp add: same)
qed

lemma all_append:
  "crowd srv (map about cs, pc, m, w) (map Save [0..<length cs]) =
     (map (\<lambda>c. Returned None) cs, pc, m\<lparr>queued_commands := queued_commands m @ cs\<rparr>, w)"
proof -
  let ?h = "\<lambda>c (s :: SwapMote \<times> 'a).
    (fst s\<lparr>queued_commands := queued_commands (fst s) @ [c]\<rparr>, snd s)"
  have step: "save_tick srv (about c, s) = (Returned None, ?h c s) \<and> True" for c s
    by (cases s) (simp add: about_def)
  from sweep [of "\<lambda>s. True" srv about "\<lambda>c. Returned None" ?h, OF step TrueI order_refl, of cs pc "(m, w)"]
  show ?thesis by (simp add: foldl_append_queue)
qed

lemma all_stranded:
  assumes "pwrdownmode m" and "state m \<noteq> RXON" and "queued_commands m = []"
  shows "crowd srv (map enter cs, Start RXON, m, w)
           (map Save [0..<length cs] @ [Act Tick, Act Tick] @ map Save [0..<length cs]) =
         (map (\<lambda>c. Returned None) cs, Done, m\<lparr>state := RXON, queued_commands := cs\<rparr>, w)"
proof -
  from assms(1,2) have "\<not> receiving_now m" by (simp add: receiving_now_def)
  with assms(3) show ?thesis
    by (simp add: crowd_append all_test all_append nbof_saved_commands_def)
qed

section \<open>Properties of all schedules\<close>

text \<open>
  C22. With any number of threads inside \<open>save_command\<close>, a thread inside
  \<open>update_state\<close> and further threads that neither pop the queue nor report a state,
  under every schedule of their statements no command is lost and none is made: the
  commands the saving threads hold, the commands handed to the server, the command in
  flight and the commands queued are, as a multiset, those before the schedule together
  with the commands handed over by the complete calls of the schedule. And whatever the
  schedule left queued, stranded commands included, the next complete report of \<open>RXON\<close>
  or \<open>SYNC\<close> hands to the server in the order of the queue and leaves the queue empty.
\<close>

theorem crowd_no_loss:
  assumes "\<forall>mv \<in> set moves. permitted mv"
    and "crowd recorder (svs, pc, m, w) moves = (svs', pc', m', w')"
    and "st = RXON \<or> st = SYNC"
  shows "held svs' + mset (attempts w') + mset (in_flight pc') + mset (queued_commands m') =
         held svs + mset (attempts w) + mset (in_flight pc) + mset (queued_commands m) +
         mset (concat (map given moves)) \<and>
         attempts (snd (step recorder (m', w') (UpdateState st))) =
           attempts w' @ queued_commands m' \<and>
         queued_commands (fst (step recorder (m', w') (UpdateState st))) = []"
  using crowd_keeps_commands [OF assms(1), of "(svs, pc, m, w)"] assms(2,3)
  by (auto simp: crowd_commands_def accounted_def ac_simps)

theorem crowd_no_loss_witness:
  "list_all permitted [Save 0, Act Tick, Save 1, Act (Other (SaveTxintervalCommand 30)), Act Tick,
     Save 0, Save 1] \<and>
   crowd recorder
     ([Enter ID_DEVICE_ADDR (SwapValue (RawInt 9) 1), Enter ID_NETWORK_ID (SwapValue (RawInt 7) 2)],
      Start SYNC, sensor_mote, quiet [])
     [Save 0, Act Tick, Save 1, Act (Other (SaveTxintervalCommand 30)), Act Tick, Save 0, Save 1] =
     ([Returned None, Returned None], Loop 1,
      sensor_mote\<lparr>state := SYNC, queued_commands :=
        [(ID_TX_INTERVAL, SwapValue (RawInt 30) 2), (ID_DEVICE_ADDR, SwapValue (RawInt 9) 1),
         (ID_NETWORK_ID, SwapValue (RawInt 7) 2)]\<rparr>,
      quiet []) \<and>
   attempts (snd (step recorder
     (sensor_mote\<lparr>state := SYNC, queued_commands :=
        [(ID_TX_INTERVAL, SwapValue (RawInt 30) 2), (ID_DEVICE_ADDR, SwapValue (RawInt 9) 1),
         (ID_NETWORK_ID, SwapValue (RawInt 7) 2)]\<rparr>,
      quiet []) (UpdateState RXON))) =
     [(ID_TX_INTERVAL, SwapValue (RawInt 30) 2), (ID_DEVICE_ADDR, SwapValue (RawInt 9) 1),
      (ID_NETWORK_ID, SwapValue (RawInt 7) 2)]"
proof -
  let ?moves = "[Save 0, Act Tick, Save 1, Act (Other (SaveTxintervalCommand 30)), Act Tick,
    Save 0, Save 1]"
  have 1: "\<forall>mv \<in> set ?moves. permitted mv" by simp
  have 2: "crowd recorder
      ([Enter ID_DEVICE_ADDR (SwapValue (RawInt 9) 1), Enter ID_NETWORK_ID (SwapValue (RawInt 7) 2)],
       Start SYNC, sensor_mote, quiet []) ?moves =
      ([Returned None, Returned None], Loop 1,
       sensor_mote\<lparr>state := SYNC, queued_commands :=
         [(ID_TX_INTERVAL, SwapValue (RawInt 30) 2), (ID_DEVICE_ADDR, SwapValue (RawInt 9) 1),
          (ID_NETWORK_ID, SwapValue (RawInt 7) 2)]\<rparr>,
       quiet [])"
    by (simp add: save_command_later receiving_now_def nbof_saved_commands_def sensor_mote_def)
  have 3: "RXON = RXON \<or> RXON = SYNC" by simp
  from crowd_no_loss [OF 1 2 3] 2 show ?thesis by simp
qed

text \<open>
  C23. The order of delivery is kept under every schedule. With any number of threads
  inside \<open>save_command\<close>, a thread inside \<open>update_state\<close> and further threads that
  neither pop the queue nor report a state, in every configuration their statements can
  reach the commands handed to the server, then the command in flight, then the queue,
  read as one list at the start, are a subsequence of the same list there: a race decides
  where a new command enters the list, and no race exchanges two commands that are in
  it. So once the flush has ended and the queue is empty, the server was handed those
  commands in the order they had.
\<close>

theorem crowd_keeps_order:
  assumes "crowded recorder (svs, pc, m, w) (svs', pc', m', w')"
  shows "subseq (pipeline (pc, m, w)) (pipeline (pc', m', w')) \<and>
         (in_flight pc' = [] \<and> queued_commands m' = [] \<longrightarrow>
            subseq (attempts w @ in_flight pc @ queued_commands m) (attempts w'))"
  using crowded_pipeline [OF assms] by (auto simp: pipeline_def)

theorem crowd_keeps_order_witness:
  "crowded recorder
     ([Enter ID_DEVICE_ADDR (SwapValue (RawInt 9) 1), Enter ID_TX_INTERVAL (SwapValue (RawInt 30) 2)],
      Start SYNC,
      sensor_mote\<lparr>queued_commands := [(ID_NETWORK_ID, SwapValue (RawInt 7) 2)]\<rparr>, quiet [])
     ([Returned None, Returned None], Done,
      sensor_mote\<lparr>queued_commands :=
        [(ID_DEVICE_ADDR, SwapValue (RawInt 9) 1), (ID_TX_INTERVAL, SwapValue (RawInt 30) 2)],
        state := SYNC\<rparr>,
      rec_send (SwapCommandPacket 5 ID_NETWORK_ID (SwapValue (RawInt 7) 2) 0 False) (quiet [])) \<and>
   subseq [(ID_NETWORK_ID, SwapValue (RawInt 7) 2)]
     [(ID_NETWORK_ID, SwapValue (RawInt 7) 2), (ID_DEVICE_ADDR, SwapValue (RawInt 9) 1),
      (ID_TX_INTERVAL, SwapValue (RawInt 30) 2)]"
proof -
  let ?moves = "[Act Tick, Save 0, Save 1, Act Tick, Save 0, Act Tick, Act Tick, Save 1]"
  let ?start = "([Enter ID_DEVICE_ADDR (SwapValue (RawInt 9) 1),
      Enter ID_TX_INTERVAL (SwapValue (RawInt 30) 2)], Start SYNC,
    sensor_mote\<lparr>queued_commands := [(ID_NETWORK_ID, SwapValue (RawInt 7) 2)]\<rparr>, quiet [])"
  have 1: "\<forall>mv \<in> set ?moves. permitted mv" by simp
  have 2: "crowd recorder ?start ?moves =
      ([Returned None, Returned None], Done,
       sensor_mote\<lparr>queued_commands :=
         [(ID_DEVICE_ADDR, SwapValue (RawInt 9) 1), (ID_TX_INTERVAL, SwapValue (RawInt 30) 2)],
         state := SYNC\<rparr>,
       rec_send (SwapCommandPacket 5 ID_NETWORK_ID (SwapValue (RawInt 7) 2) 0 False) (quiet []))"
    by (simp add: nbof_saved_commands_def get_saved_command_def cmdRegister_send
        command_packet_def sensor_mote_def)
  note 3 = crowded_crowd [OF 1, of recorder ?start, unfolded 2]
  from crowd_keeps_order [OF 3] 3 show ?thesis
    by (simp add: pipeline_def quiet_def attempts_def rec_send_def map_filter_simps)
qed

text \<open>
  C38. A race strands at most one command for each thread inside \<open>save_command\<close>, and
  exactly that many when the scheduler is unkind. Let any number of threads enter
  \<open>save_command\<close>, each with a command, and another enter \<open>update_state\<close>, on a mote
  that satisfies the queue invariant, with further threads that neither pop the queue
  nor report a state. In every configuration their statements can reach, with every
  server, in which \<open>update_state\<close> has returned and the mote is receiving, the queue
  holds only commands of threads that have returned \<open>None\<close>, each at most once: no
  command that was queued before is left behind, none of another call, and no more
  commands than there are threads. The bound is reached: on a sleeping mote with
  power-down mode and an empty queue, if every thread tests the state before the report
  of \<open>RXON\<close> assigns it and appends after the report has read the length of the queue,
  every command is stranded, in the order of the appends.
\<close>

theorem crowd_strands_one_for_each:
  assumes "queue_inv m"
    and "crowded srv (map enter cs, Start st, m, w) (svs', Done, m', w')"
    and "receiving_now m'"
  shows "mset (queued_commands m') \<subseteq># returned svs' cs \<and>
         length (queued_commands m') \<le> length cs \<and>
         (pwrdownmode m \<and> state m \<noteq> RXON \<and> queued_commands m = [] \<longrightarrow>
            crowd srv (map enter cs, Start RXON, m, w)
              (map Save [0..<length cs] @ [Act Tick, Act Tick] @ map Save [0..<length cs]) =
            (map (\<lambda>c. Returned None) cs, Done, m\<lparr>state := RXON, queued_commands := cs\<rparr>, w))"
  using crowd_strands [OF assms] all_stranded [of m srv cs w] by blast

theorem crowd_strands_one_for_each_witness:
  "queue_inv sensor_mote \<and>
   crowded recorder
     (map enter [(ID_DEVICE_ADDR, SwapValue (RawInt 9) 1), (ID_TX_INTERVAL, SwapValue (RawInt 30) 2)],
      Start RXON, sensor_mote, quiet [True])
     ([Returned None, Returned None], Done,
      sensor_mote\<lparr>state := RXON, queued_commands :=
        [(ID_DEVICE_ADDR, SwapValue (RawInt 9) 1), (ID_TX_INTERVAL, SwapValue (RawInt 30) 2)]\<rparr>,
      quiet [True]) \<and>
   receiving_now (sensor_mote\<lparr>state := RXON, queued_commands :=
     [(ID_DEVICE_ADDR, SwapValue (RawInt 9) 1), (ID_TX_INTERVAL, SwapValue (RawInt 30) 2)]\<rparr>) \<and>
   mset [(ID_DEVICE_ADDR, SwapValue (RawInt 9) 1), (ID_TX_INTERVAL, SwapValue (RawInt 30) 2)] \<subseteq>#
     returned [Returned None, Returned None]
       [(ID_DEVICE_ADDR, SwapValue (RawInt 9) 1), (ID_TX_INTERVAL, SwapValue (RawInt 30) 2)]"
proof -
  let ?cs = "[(ID_DEVICE_ADDR, SwapValue (RawInt 9) 1), (ID_TX_INTERVAL, SwapValue (RawInt 30) 2)]"
  let ?moves = "[Save 0, Save 1, Act Tick, Act Tick, Save 0, Save 1]"
  let ?start = "(map enter ?cs, Start RXON, sensor_mote, quiet [True])"
  have 1: "queue_inv sensor_mote" by (simp add: queue_inv_def)
  have 2: "\<forall>mv \<in> set ?moves. permitted mv" by simp
  have 3: "crowd recorder ?start ?moves =
      ([Returned None, Returned None], Done,
       sensor_mote\<lparr>state := RXON, queued_commands := ?cs\<rparr>, quiet [True])"
    by (simp add: enter_def receiving_now_def nbof_saved_commands_def sensor_mote_def)
  note 4 = crowded_crowd [OF 2, of recorder ?start, unfolded 3]
  have 5: "receiving_now (sensor_mote\<lparr>state := RXON, queued_commands := ?cs\<rparr>)"
    by (simp add: receiving_now_def)
  from crowd_strands_one_for_each [OF 1 4 5] 1 4 5 show ?thesis by simp
qed

end
