(* ===== verification/Swap_Types.thy ===== *)
theory Swap_Types
  imports Swap_Crowd
begin

text \<open>
  A typing of register writes. Every method that builds a value passes a byte length to
  \<open>SwapValue\<close>: one byte for the address, the channel, the security option and a system
  state, two bytes for the network identifier and the transmit interval. \<open>type_of_reg\<close>
  is that table, \<open>has_type\<close> says when a value has a type (its byte length is the width
  and its integer fits the width), and \<open>typed_state\<close> says that every command the queue
  holds and every command the server was handed is well typed and that the mirrored
  attributes fit their registers. No method tests the range of an argument, so the
  typing holds for calls with arguments in range (\<open>typed_call\<close>) and for no other call.
  It does not depend on the scheduler: the statements of \<open>save_command\<close> and of
  \<open>update_state\<close> move commands and never build one, so under every schedule of
  \<open>Swap_Crowd\<close> whose complete calls are typed (\<open>typed_move\<close>) the typing is kept.
\<close>

section \<open>Types of registers and values\<close>

datatype reg_type =
    Unsigned nat
  | StateCode

text \<open>The standard registers have a type; the registers of a device are not typed here.\<close>

fun type_of_reg :: "SwapRegId \<Rightarrow> reg_type option" where
  "type_of_reg ID_DEVICE_ADDR = Some (Unsigned 1)"
| "type_of_reg ID_NETWORK_ID = Some (Unsigned 2)"
| "type_of_reg ID_FREQ_CHANNEL = Some (Unsigned 1)"
| "type_of_reg ID_SECU_OPTION = Some (Unsigned 1)"
| "type_of_reg ID_TX_INTERVAL = Some (Unsigned 2)"
| "type_of_reg ID_SYSTEM_STATE = Some StateCode"
| "type_of_reg (ID_REGISTER n) = None"

definition in_range :: "nat \<Rightarrow> int \<Rightarrow> bool" where
  "in_range n i \<longleftrightarrow> 0 \<le> i \<and> i < 256 ^ n"

fun has_type :: "SwapValue \<Rightarrow> reg_type \<Rightarrow> bool" where
  "has_type (SwapValue (RawInt i) n) (Unsigned k) = (n = k \<and> in_range k i)"
| "has_type (SwapValue (RawState s) n) StateCode = (n = 1)"
| "has_type v t = False"

definition typed :: "command \<Rightarrow> bool" where
  "typed c = (case type_of_reg (fst c) of None \<Rightarrow> True | Some t \<Rightarrow> has_type (snd c) t)"

text \<open>The calls whose arguments are in the range of the register they write.\<close>

fun typed_call :: "mote_call \<Rightarrow> bool" where
  "typed_call (CmdRegister r v) = typed (r, v)"
| "typed_call (CmdRegisterWack r v) = typed (r, v)"
| "typed_call (SaveCommand r v) = typed (r, v)"
| "typed_call (SaveAddressCommand a) = in_range 1 a"
| "typed_call (SaveTxintervalCommand t) = in_range 2 t"
| "typed_call (SetAddress a) = in_range 1 a"
| "typed_call (SetNetworkId n) = in_range 2 n"
| "typed_call (SetFreqChannel c) = in_range 1 c"
| "typed_call (SetSecurity s) = in_range 1 s"
| "typed_call (SetTxInterval t) = in_range 2 t"
| "typed_call c = True"

text \<open>The mirrored attributes fit the registers they mirror.\<close>

definition mirrors_fit :: "SwapMote \<Rightarrow> bool" where
  "mirrors_fit m \<longleftrightarrow> in_range 1 (address m) \<and> in_range 1 (security m) \<and> in_range 2 (txinterval m)"

definition typed_state :: "wire mote_state \<Rightarrow> bool" where
  "typed_state s \<longleftrightarrow>
     list_all typed (attempts (snd s)) \<and> list_all typed (queued_commands (fst s)) \<and>
     mirrors_fit (fst s)"

text \<open>The moves of a schedule whose complete calls have their arguments in range.\<close>

fun typed_move :: "move \<Rightarrow> bool" where
  "typed_move (Act (Other c)) = typed_call c"
| "typed_move mv = True"

section \<open>Typed calls hand over typed commands\<close>

lemma typed_simps [simp]:
  "typed (ID_DEVICE_ADDR, SwapValue (RawInt i) n) \<longleftrightarrow> n = 1 \<and> in_range 1 i"
  "typed (ID_NETWORK_ID, SwapValue (RawInt i) n) \<longleftrightarrow> n = 2 \<and> in_range 2 i"
  "typed (ID_FREQ_CHANNEL, SwapValue (RawInt i) n) \<longleftrightarrow> n = 1 \<and> in_range 1 i"
  "typed (ID_SECU_OPTION, SwapValue (RawInt i) n) \<longleftrightarrow> n = 1 \<and> in_range 1 i"
  "typed (ID_TX_INTERVAL, SwapValue (RawInt i) n) \<longleftrightarrow> n = 2 \<and> in_range 2 i"
  "typed (ID_SYSTEM_STATE, SwapValue (RawState s) n) \<longleftrightarrow> n = 1"
  "typed (ID_REGISTER k, v)"
  by (simp_all add: typed_def)

lemma typed_call_hands: "typed_call c \<longleftrightarrow> list_all typed (hands c)"
  by (cases c) simp_all

lemma list_all_tl: "list_all P xs \<Longrightarrow> list_all P (tl xs)"
  by (cases xs) simp_all

lemma spec_step_typed:
  assumes "list_all typed (delivered a)" and "list_all typed (pending a)"
  shows "list_all typed (delivered (spec_step a c)) \<and> list_all typed (pending (spec_step a c)) \<longleftrightarrow>
         typed_call c"
  using assms
  by (cases c) (simp_all add: spec_save_def spec_direct_def spec_report_def list_all_tl)

lemma step_commands_typed:
  assumes "list_all typed (attempts w)" and "list_all typed (queued_commands m)"
  shows "list_all typed (attempts (snd (step recorder (m, w) c))) \<and>
         list_all typed (queued_commands (fst (step recorder (m, w) c))) \<longleftrightarrow> typed_call c"
proof -
  have "abstraction (step recorder (m, w) c) = spec_step (abstraction (m, w)) c"
    by (rule abstraction_step)
  from arg_cong [OF this, of delivered] arg_cong [OF this, of pending]
  have "attempts (snd (step recorder (m, w) c)) = delivered (spec_step (abstraction (m, w)) c)"
    and "queued_commands (fst (step recorder (m, w) c)) = pending (spec_step (abstraction (m, w)) c)"
    by (simp_all add: abstraction_def)
  with spec_step_typed [of "abstraction (m, w)" c] assms show ?thesis by simp
qed

lemma step_mirrors_fit:
  "mirrors_fit m \<Longrightarrow> typed_call c \<Longrightarrow> mirrors_fit (fst (step srv (m, w) c))"
  by (cases c) (simp_all add: mirrors_fit_def updateTimeStamp_def save_command_state)

lemma step_typed_state:
  "typed_state s \<Longrightarrow> typed_state (step recorder s c) \<longleftrightarrow> typed_call c"
  using step_commands_typed [of "snd s" "fst s" c] step_mirrors_fit [of "fst s" c recorder "snd s"]
  by (auto simp: typed_state_def)

lemma run_typed_state:
  "typed_state s \<Longrightarrow> list_all typed_call cs \<Longrightarrow> typed_state (run recorder s cs)"
  by (induction cs arbitrary: s) (simp_all add: step_typed_state)

lemma sensor_typed_state [simp]: "typed_state (sensor_mote, quiet script)"
  by (simp add: typed_state_def mirrors_fit_def in_range_def quiet_def attempts_def
      map_filter_simps)

section \<open>Typing under every schedule\<close>

lemma given_typed: "typed_move mv \<Longrightarrow> list_all typed (given mv)"
  by (cases mv rule: typed_move.cases) (simp_all add: typed_call_hands)

lemma crowd_all_typed:
  assumes "\<forall>mv \<in> set moves. permitted mv" and "\<forall>mv \<in> set moves. typed_move mv"
    and "\<forall>c \<in># crowd_commands cfg. typed c"
  shows "\<forall>c \<in># crowd_commands (crowd recorder cfg moves). typed c"
proof -
  from assms(2) have "\<forall>c \<in> set (concat (map given moves)). typed c"
    using given_typed by (fastforce simp: list_all_iff)
  with assms(3) show ?thesis
    unfolding crowd_keeps_commands [OF assms(1)] by auto
qed

lemma tick_mirrors_fit: "mirrors_fit (fst (snd (tick srv cfg))) = mirrors_fit (fst (snd cfg))"
proof (cases cfg)
  case (fields pc m w)
  then show ?thesis
    by (cases pc; cases "passes_left pc"; cases "queued_commands m")
      (auto simp: mirrors_fit_def get_saved_command_def Let_def)
qed

lemma save_tick_mirrors_fit:
  "mirrors_fit (fst (snd (save_tick srv (sv, m, w)))) = mirrors_fit m"
  by (cases sv) (simp_all add: mirrors_fit_def split_def Let_def)

lemma move_step_mirrors_fit:
  assumes "typed_move mv" and "mirrors_fit (fst (snd (snd cfg)))"
  shows "mirrors_fit (fst (snd (snd (move_step srv cfg mv))))"
proof -
  obtain svs pc m w where cfg: "cfg = (svs, pc, m, w)" by (cases cfg) auto
  show ?thesis
  proof (cases mv)
    case (Save i)
    with assms(2) cfg save_tick_mirrors_fit [of srv "svs ! i" m w] show ?thesis
      by (simp add: split_def)
  next
    case (Act a)
    with assms cfg tick_mirrors_fit [of srv "(pc, m, w)"] step_mirrors_fit [of m _ srv w]
    show ?thesis by (cases a) simp_all
  qed
qed

lemma crowd_mirrors_fit:
  "\<forall>mv \<in> set moves. typed_move mv \<Longrightarrow> mirrors_fit (fst (snd (snd cfg))) \<Longrightarrow>
     mirrors_fit (fst (snd (snd (crowd srv cfg moves))))"
  by (induction moves arbitrary: cfg) (simp_all add: move_step_mirrors_fit)

lemma crowd_typed_state:
  assumes "list_all permitted moves" and "list_all typed_move moves"
    and "typed_state s" and "list_all (\<lambda>sv. list_all typed (holding sv)) svs"
    and "list_all typed (in_flight pc)"
  shows "typed_state (snd (snd (crowd recorder (svs, pc, s) moves)))"
proof -
  from assms have 1: "\<forall>mv \<in> set moves. permitted mv" and 2: "\<forall>mv \<in> set moves. typed_move mv"
    by (simp_all add: list_all_iff)
  from assms(3-5) have "\<forall>c \<in># crowd_commands (svs, pc, s). typed c"
    by (auto simp: crowd_commands_def held_def accounted_def typed_state_def list_all_iff)
  from crowd_all_typed [OF 1 2 this] crowd_mirrors_fit [OF 2, of "(svs, pc, s)" recorder] assms(3)
  show ?thesis
    by (auto simp: crowd_commands_def accounted_def typed_state_def list_all_iff)
qed

section \<open>Properties of the typing\<close>

text \<open>
  C13. Typing is preserved by the typed calls and by no other call. In a state where
  every command queued or handed to the server has the type of its register (one byte
  for the address, the channel and the security option, two bytes for the network
  identifier and the transmit interval, a state in one byte for the system state, each
  integer within its width) and the mirrored address, security option and transmit
  interval fit their registers, a method call leaves such a state exactly when its
  argument is in the range of the register it writes; and so does every sequence of
  such calls. The direct setters and the deferred wrappers agree on the width of each
  register, and the flush transmits what was queued unchanged. The typing is kept as
  well under every schedule of the statements of any number of threads inside
  \<open>save_command\<close> with typed commands, of a thread inside \<open>update_state\<close> and of
  complete typed calls of further threads that neither pop the queue nor report a state.
\<close>

theorem typed_calls_keep_typing:
  assumes "typed_state s"
  shows "(typed_state (step recorder s c) \<longleftrightarrow> typed_call c) \<and>
         (list_all typed_call cs \<longrightarrow> typed_state (run recorder s cs)) \<and>
         (list_all permitted moves \<and> list_all typed_move moves \<and>
          list_all (\<lambda>sv. list_all typed (holding sv)) svs \<and> list_all typed (in_flight pc) \<longrightarrow>
            typed_state (snd (snd (crowd recorder (svs, pc, s) moves))))"
  using assms crowd_typed_state [of moves s svs pc]
  by (simp add: step_typed_state run_typed_state)

theorem typed_calls_keep_typing_witness:
  "typed_state (sensor_mote, quiet [True]) \<and>
   typed_state (step recorder (sensor_mote, quiet [True]) (SaveTxintervalCommand 600)) \<and>
   \<not> typed_state (step recorder (sensor_mote, quiet [True]) (SetAddress 300)) \<and>
   typed_state (run recorder (sensor_mote, quiet [True])
     [SaveTxintervalCommand 600, SetAddress 9, UpdateState RXON]) \<and>
   typed_state (snd (snd (crowd recorder
     ([Enter ID_TX_INTERVAL (SwapValue (RawInt 600) 2), Enter ID_DEVICE_ADDR (SwapValue (RawInt 7) 1)],
      Start RXON, sensor_mote, quiet [True])
     [Save 0, Act Tick, Save 1, Act (Other (SetAddress 9)), Act Tick, Save 0, Save 1])))"
proof -
  have 1: "typed_state (sensor_mote, quiet [True])" by simp
  have 2: "list_all typed_call [SaveTxintervalCommand 600, SetAddress 9, UpdateState RXON]"
    by (simp add: in_range_def)
  let ?moves = "[Save 0, Act Tick, Save 1, Act (Other (SetAddress 9)), Act Tick, Save 0, Save 1]"
  let ?svs = "[Enter ID_TX_INTERVAL (SwapValue (RawInt 600) 2),
    Enter ID_DEVICE_ADDR (SwapValue (RawInt 7) 1)]"
  have 3: "list_all permitted ?moves" "list_all typed_move ?moves"
    "list_all (\<lambda>sv. list_all typed (holding sv)) ?svs" "list_all typed (in_flight (Start RXON))"
    by (simp_all add: in_range_def)
  from typed_calls_keep_typing [OF 1, of "SaveTxintervalCommand 600"
      "[SaveTxintervalCommand 600, SetAddress 9, UpdateState RXON]"
      ?moves ?svs "Start RXON"]
    typed_calls_keep_typing [OF 1, of "SetAddress 300" "[]" "[]" "[]" Done] 1 2 3
  show ?thesis by (simp add: in_range_def del: crowd_simps)
qed

end
