(* ===== verification/Swap_Init.thy ===== *)
theory Swap_Init
  imports Swap_Server
begin

text \<open>
  The constructor \<open>SwapMote.__init__\<close>. It reads three things of its surroundings: the
  builtin \<open>long(s, 16)\<close>, the constructor of the device definition \<open>XmlDevice(self)\<close>
  and the clock \<open>time.time()\<close>. They are the fields of the record \<open>runtime\<close>, and \<open>init\<close>
  is stated for every runtime. \<open>long16\<close> is the digits-only core of the builtin and is the
  parser of the runtime \<open>sensor_runtime\<close> used in the closed instances; the builtin also
  accepts a sign, blanks around the number, the prefix \<open>0x\<close> and the suffix \<open>L\<close>, which
  \<open>long16\<close> refuses.

  The constructor raises in three places, in this order: no server, a product code that
  does not parse, a device definition that does not load. The second is a \<open>try\<close> block
  with a bare \<open>except\<close>: \<open>product_ids\<close> is its body and \<open>parse_product_code\<close> the block. A
  constructor that raises returns no object, so the result is \<open>Inl\<close> of the exception or
  \<open>Inr\<close> of the complete mote.
\<close>

section \<open>Hexadecimal numerals\<close>

definition hex_digit :: "char \<Rightarrow> nat option" where
  "hex_digit c =
     (let n = of_char c :: nat in
      if 48 \<le> n \<and> n \<le> 57 then Some (n - 48)
      else if 97 \<le> n \<and> n \<le> 102 then Some (n - 87)
      else if 65 \<le> n \<and> n \<le> 70 then Some (n - 55)
      else None)"

primrec hex_value :: "nat \<Rightarrow> string \<Rightarrow> nat option" where
  "hex_value acc [] = Some acc"
| "hex_value acc (c # cs) =
     (case hex_digit c of
        None \<Rightarrow> None
      | Some d \<Rightarrow> hex_value (16 * acc + d) cs)"

text \<open>\<open>long(s, 16)\<close> on a string of digits; \<open>ValueError\<close> on any other string.\<close>

definition long16 :: "string \<Rightarrow> int result" where
  "long16 s =
     (if s = [] then raises ValueError
      else case hex_value 0 s of
             None \<Rightarrow> raises ValueError
           | Some n \<Rightarrow> returns (int n))"

section \<open>The surroundings of the constructor\<close>

record runtime =
  long_of :: "string \<Rightarrow> int result"
  load_device :: "string \<Rightarrow> int \<Rightarrow> int \<Rightarrow> XmlDevice result"
  time_now :: real

section \<open>The constructor\<close>

text \<open>
  The body of the \<open>try\<close> block: the two conversions of \<open>product_code[0:8]\<close>, the first
  eight characters, and \<open>product_code[8:]\<close>, all the others. A product code of \<open>None\<close>
  cannot be sliced (\<open>TypeError\<close>); a slice that is no numeral makes \<open>long\<close> raise.
\<close>

definition product_ids :: "runtime \<Rightarrow> string option \<Rightarrow> (int \<times> int) result" where
  "product_ids rt pcode =
     (case pcode of
        None \<Rightarrow> raises TypeError
      | Some s \<Rightarrow>
          then_do (long_of rt (take 8 s)) (\<lambda>manufacturer.
          then_do (long_of rt (drop 8 s)) (\<lambda>product.
          returns (manufacturer, product))))"

text \<open>The block with its bare \<open>except\<close>, which turns every exception into one \<open>SwapException\<close>.\<close>

definition parse_product_code :: "runtime \<Rightarrow> string option \<Rightarrow> (int \<times> int) result" where
  "parse_product_code rt pcode =
     try_with (product_ids rt pcode) (raises (SwapException ''Incorrect product code received''))"

definition init :: "runtime \<Rightarrow> 'w SwapServer option \<Rightarrow> string option \<Rightarrow> int \<Rightarrow> int \<Rightarrow> int \<Rightarrow>
    bool \<Rightarrow> SwapMote result" where
  "init rt server pcode addr secu nce ext =
     (case server of
        None \<Rightarrow> raises (SwapException ''SwapMote constructor needs a valid SwapServer object'')
      | Some srv \<Rightarrow>
          then_do (parse_product_code rt pcode) (\<lambda>(manufacturer, product).
          then_do (load_device rt (the pcode) manufacturer product) (\<lambda>d.
          returns
            \<lparr>queued_commands = [], product_code = the pcode, product_id = product,
             manufacturer_id = manufacturer, device_definition = d, address = addr,
             security = secu, nonce = nce, state = RXOFF,
             regular_registers = Some (getRegList d False),
             config_registers = Some (getRegList d True),
             timestamp = time_now rt, pwrdownmode = def_pwrdownmode d,
             txinterval = def_txinterval d, extended_addr = ext\<rparr>)))"

text \<open>The call with the default arguments \<open>address=0xFF, security=0, nonce=0, extended_addr=False\<close>.\<close>

definition init_default :: "runtime \<Rightarrow> 'w SwapServer option \<Rightarrow> string option \<Rightarrow> SwapMote result" where
  "init_default rt server pcode = init rt server pcode 255 0 0 False"

section \<open>A runtime for the closed instances\<close>

text \<open>
  The definition directory holds one device, the climate sensor, for manufacturer 1 and
  product 2; any other pair fails to load with the exception of the loader.
\<close>

definition sensor_runtime :: runtime where
  "sensor_runtime =
     \<lparr>long_of = long16,
      load_device = (\<lambda>s manufacturer product.
         if manufacturer = 1 \<and> product = 2 then returns sensor_device
         else raises (SwapException ''Definition file not found'')),
      time_now = 0\<rparr>"

section \<open>Numerals\<close>

lemma hex_digit_less: "hex_digit c = Some d \<Longrightarrow> d < 16"
  by (auto simp: hex_digit_def Let_def split: if_splits)

lemma hex_value_Some_iff:
  "(\<exists>n. hex_value acc s = Some n) \<longleftrightarrow> list_all (\<lambda>c. hex_digit c \<noteq> None) s"
  by (induction s arbitrary: acc) (auto split: option.split)

lemma hex_value_bounds:
  "hex_value acc s = Some n \<Longrightarrow> acc * 16 ^ length s \<le> n \<and> n < (acc + 1) * 16 ^ length s"
proof (induction s arbitrary: acc)
  case Nil
  then show ?case by simp
next
  case (Cons c cs)
  then obtain d where d: "hex_digit c = Some d" and v: "hex_value (16 * acc + d) cs = Some n"
    by (auto split: option.splits)
  define P :: nat where "P = 16 ^ length cs"
  have 1: "16 * (acc * P) + d * P \<le> n" and 2: "n < 16 * (acc * P) + d * P + P"
    using Cons.IH [OF v] by (simp_all add: algebra_simps P_def)
  have 3: "d * P \<le> 15 * P"
    using hex_digit_less [OF d] by (intro mult_le_mono1) simp
  from 1 2 3 have "16 * (acc * P) \<le> n \<and> n < 16 * (acc * P) + 16 * P"
    by linarith
  then show ?case by (simp add: algebra_simps P_def)
qed

lemma long16_Nil [simp]: "long16 [] = raises ValueError"
  by (simp add: long16_def)

lemma long16_raises: "long16 s = raises e \<Longrightarrow> e = ValueError"
  by (auto simp: long16_def split: if_splits option.splits)

lemma long16_is_ok_iff:
  "is_ok (long16 s) \<longleftrightarrow> s \<noteq> [] \<and> list_all (\<lambda>c. hex_digit c \<noteq> None) s"
  using hex_value_Some_iff [of 0 s] by (auto simp: long16_def split: option.splits)

lemma long16_bounds: "long16 s = returns n \<Longrightarrow> 0 \<le> n \<and> n < 16 ^ length s"
proof -
  assume "long16 s = returns n"
  then obtain k where k: "hex_value 0 s = Some k" and n: "n = int k"
    by (auto simp: long16_def split: if_splits option.splits)
  from hex_value_bounds [OF k] have "k < 16 ^ length s" by simp
  then have "int k < int (16 ^ length s)" by (simp only: of_nat_less_iff)
  with n show ?thesis by simp
qed

section \<open>The product code\<close>

lemma product_ids_None [simp]: "product_ids rt None = raises TypeError"
  by (simp add: product_ids_def)

lemma product_ids_returns_iff:
  "product_ids rt pcode = returns (manufacturer, product) \<longleftrightarrow>
     (\<exists>s. pcode = Some s \<and> long_of rt (take 8 s) = returns manufacturer \<and>
          long_of rt (drop 8 s) = returns product)"
  by (cases pcode) (auto simp: product_ids_def then_do_eq_Inr_iff)

lemma product_ids_is_ok_iff:
  "is_ok (product_ids rt pcode) \<longleftrightarrow>
     (\<exists>s. pcode = Some s \<and> is_ok (long_of rt (take 8 s)) \<and> is_ok (long_of rt (drop 8 s)))"
  by (cases pcode) (auto simp: product_ids_def is_ok_iff then_do_eq_Inr_iff)

lemma parse_product_code_returns_iff:
  "parse_product_code rt pcode = returns ids \<longleftrightarrow> product_ids rt pcode = returns ids"
  by (simp add: parse_product_code_def try_with_eq_Inr_iff)

lemma parse_product_code_raises_iff:
  "parse_product_code rt pcode = raises e \<longleftrightarrow>
     \<not> is_ok (product_ids rt pcode) \<and> e = SwapException ''Incorrect product code received''"
  by (simp add: parse_product_code_def try_with_eq_Inl_iff)

lemma parse_long16_iff:
  "is_ok (parse_product_code (rt\<lparr>long_of := long16\<rparr>) (Some s)) \<longleftrightarrow>
     8 < length s \<and> list_all (\<lambda>c. hex_digit c \<noteq> None) s"
proof -
  have "list_all (\<lambda>c. hex_digit c \<noteq> None) s \<longleftrightarrow>
      list_all (\<lambda>c. hex_digit c \<noteq> None) (take 8 s) \<and>
      list_all (\<lambda>c. hex_digit c \<noteq> None) (drop 8 s)"
    using list_all_append [of "\<lambda>c. hex_digit c \<noteq> None" "take 8 s" "drop 8 s"] by simp
  moreover have "is_ok (parse_product_code (rt\<lparr>long_of := long16\<rparr>) (Some s)) \<longleftrightarrow>
      is_ok (long16 (take 8 s)) \<and> is_ok (long16 (drop 8 s))"
    using product_ids_is_ok_iff [of "rt\<lparr>long_of := long16\<rparr>" "Some s"]
    by (cases "product_ids (rt\<lparr>long_of := long16\<rparr>) (Some s)")
      (simp_all add: parse_product_code_def)
  ultimately show ?thesis
    unfolding long16_is_ok_iff by auto
qed

section \<open>The constructor, branch by branch\<close>

lemma init_no_server [simp]:
  "init rt None pcode addr secu nce ext =
     raises (SwapException ''SwapMote constructor needs a valid SwapServer object'')"
  by (simp add: init_def)

lemma init_bad_code:
  "\<not> is_ok (product_ids rt pcode) \<Longrightarrow>
     init rt (Some srv) pcode addr secu nce ext =
       raises (SwapException ''Incorrect product code received'')"
  by (cases "product_ids rt pcode") (simp_all add: init_def parse_product_code_def)

lemma init_load_fails:
  "product_ids rt (Some s) = returns (manufacturer, product) \<Longrightarrow>
   load_device rt s manufacturer product = raises e \<Longrightarrow>
     init rt (Some srv) (Some s) addr secu nce ext = raises e"
  by (simp add: init_def parse_product_code_def)

lemma init_returns:
  "product_ids rt (Some s) = returns (manufacturer, product) \<Longrightarrow>
   load_device rt s manufacturer product = returns d \<Longrightarrow>
     init rt (Some srv) (Some s) addr secu nce ext =
       returns
         \<lparr>queued_commands = [], product_code = s, product_id = product,
          manufacturer_id = manufacturer, device_definition = d, address = addr,
          security = secu, nonce = nce, state = RXOFF,
          regular_registers = Some (def_regular d), config_registers = Some (def_config d),
          timestamp = time_now rt, pwrdownmode = def_pwrdownmode d,
          txinterval = def_txinterval d, extended_addr = ext\<rparr>"
  by (simp add: init_def parse_product_code_def getRegList_def)

lemma init_returns_cases:
  assumes "init rt server pcode addr secu nce ext = returns m"
  obtains srv s manufacturer product d where
    "server = Some srv" "pcode = Some s"
    "long_of rt (take 8 s) = returns manufacturer" "long_of rt (drop 8 s) = returns product"
    "load_device rt s manufacturer product = returns d"
    "m = \<lparr>queued_commands = [], product_code = s, product_id = product,
          manufacturer_id = manufacturer, device_definition = d, address = addr,
          security = secu, nonce = nce, state = RXOFF,
          regular_registers = Some (def_regular d), config_registers = Some (def_config d),
          timestamp = time_now rt, pwrdownmode = def_pwrdownmode d,
          txinterval = def_txinterval d, extended_addr = ext\<rparr>"
proof -
  from assms obtain srv where srv: "server = Some srv"
    by (cases server) (simp_all add: init_def)
  from assms srv obtain manufacturer product d
    where ids: "parse_product_code rt pcode = returns (manufacturer, product)"
      and d: "load_device rt (the pcode) manufacturer product = returns d"
      and m: "m = \<lparr>queued_commands = [], product_code = the pcode, product_id = product,
          manufacturer_id = manufacturer, device_definition = d, address = addr,
          security = secu, nonce = nce, state = RXOFF,
          regular_registers = Some (def_regular d), config_registers = Some (def_config d),
          timestamp = time_now rt, pwrdownmode = def_pwrdownmode d,
          txinterval = def_txinterval d, extended_addr = ext\<rparr>"
    by (auto simp: init_def then_do_eq_Inr_iff getRegList_def)
  from ids obtain s where "pcode = Some s" "long_of rt (take 8 s) = returns manufacturer"
    "long_of rt (drop 8 s) = returns product"
    by (auto simp: parse_product_code_returns_iff product_ids_returns_iff)
  with srv d m that show thesis by simp
qed

lemma init_is_ok_iff:
  "is_ok (init rt server pcode addr secu nce ext) \<longleftrightarrow>
     server \<noteq> None \<and>
     (\<exists>s manufacturer product.
        pcode = Some s \<and> long_of rt (take 8 s) = returns manufacturer \<and>
        long_of rt (drop 8 s) = returns product \<and>
        is_ok (load_device rt s manufacturer product))"
proof
  assume "is_ok (init rt server pcode addr secu nce ext)"
  then obtain m where "init rt server pcode addr secu nce ext = returns m"
    by (auto simp: is_ok_iff)
  then show "server \<noteq> None \<and>
     (\<exists>s manufacturer product.
        pcode = Some s \<and> long_of rt (take 8 s) = returns manufacturer \<and>
        long_of rt (drop 8 s) = returns product \<and>
        is_ok (load_device rt s manufacturer product))"
    by (rule init_returns_cases) auto
next
  assume "server \<noteq> None \<and>
     (\<exists>s manufacturer product.
        pcode = Some s \<and> long_of rt (take 8 s) = returns manufacturer \<and>
        long_of rt (drop 8 s) = returns product \<and>
        is_ok (load_device rt s manufacturer product))"
  then obtain srv s manufacturer product d where "server = Some srv" "pcode = Some s"
    "product_ids rt (Some s) = returns (manufacturer, product)"
    "load_device rt s manufacturer product = returns d"
    by (auto simp: product_ids_returns_iff is_ok_iff)
  then show "is_ok (init rt server pcode addr secu nce ext)"
    by (simp add: init_returns)
qed

section \<open>The example runtime\<close>

lemma sensor_runtime_simps [simp]:
  "long_of sensor_runtime = long16"
  "load_device sensor_runtime s 1 2 = returns sensor_device"
  "time_now sensor_runtime = 0"
  by (simp_all add: sensor_runtime_def)

lemma long16_sensor_code [simp]:
  "long16 ''00000001'' = returns 1" "long16 ''00000002'' = returns 2"
  by (simp_all add: long16_def hex_digit_def)

lemma product_ids_sensor_code [simp]:
  "product_ids sensor_runtime (Some ''0000000100000002'') = returns (1, 2)"
  by (simp add: product_ids_def)

lemma init_sensor_mote:
  "init sensor_runtime (Some srv) (Some ''0000000100000002'') 5 0 0 False = returns sensor_mote"
  by (simp add: init_returns [where manufacturer = 1 and product = 2 and d = sensor_device]
      sensor_mote_def sensor_device_def)

section \<open>Properties of the constructor\<close>

text \<open>
  C25. The constructor returns a mote exactly when a server is given, the product code is
  a string, the runtime's \<open>long(s, 16)\<close> returns for its first eight characters and
  returns for the rest, and the device definition loads for the two numbers read. In
  every other case it raises and no mote exists.
\<close>

theorem init_returns_iff:
  "(\<exists>m. init rt server pcode addr secu nce ext = returns m) \<longleftrightarrow>
     server \<noteq> None \<and>
     (\<exists>s manufacturer product d.
        pcode = Some s \<and> long_of rt (take 8 s) = returns manufacturer \<and>
        long_of rt (drop 8 s) = returns product \<and>
        load_device rt s manufacturer product = returns d)"
  using init_is_ok_iff [of rt server pcode addr secu nce ext] by (simp add: is_ok_iff)

text \<open>
  C26. The three failures of the constructor and their order. Without a server it raises
  the \<open>SwapException\<close> that asks for a server, whatever the product code is. With a
  server and a product code for which the conversions raise, whatever they raise (the
  \<open>TypeError\<close> of slicing \<open>None\<close>, the \<open>ValueError\<close> of \<open>long\<close>, or anything else), it raises
  the one \<open>SwapException\<close> for an incorrect product code, and the device definition is
  not consulted. With a product code that parses and a device definition that fails to
  load, the exception of the loader leaves the constructor as it is, whatever its kind.
\<close>

theorem init_failures:
  "init rt None pcode addr secu nce ext =
     raises (SwapException ''SwapMote constructor needs a valid SwapServer object'') \<and>
   (\<not> is_ok (product_ids rt pcode) \<longrightarrow>
      init rt (Some srv) pcode addr secu nce ext =
        raises (SwapException ''Incorrect product code received'')) \<and>
   (\<forall>s manufacturer product e.
      product_ids rt (Some s) = returns (manufacturer, product) \<longrightarrow>
      load_device rt s manufacturer product = raises e \<longrightarrow>
      init rt (Some srv) (Some s) addr secu nce ext = raises e)"
  by (simp add: init_bad_code init_load_fails)

theorem init_failures_witness:
  "init sensor_runtime (None :: wire SwapServer option) (Some ''zz'') 5 0 0 False =
     raises (SwapException ''SwapMote constructor needs a valid SwapServer object'') \<and>
   product_ids sensor_runtime (Some ''0000000g00000002'') = raises ValueError \<and>
   init sensor_runtime (Some recorder) (Some ''0000000g00000002'') 5 0 0 False =
     raises (SwapException ''Incorrect product code received'') \<and>
   product_ids sensor_runtime None = raises TypeError \<and>
   init sensor_runtime (Some recorder) None 5 0 0 False =
     raises (SwapException ''Incorrect product code received'') \<and>
   init sensor_runtime (Some recorder) (Some ''0000000300000004'') 5 0 0 False =
     raises (SwapException ''Definition file not found'')"
proof -
  have 1: "product_ids sensor_runtime (Some ''0000000g00000002'') = raises ValueError"
    by (simp add: product_ids_def long16_def hex_digit_def)
  have 2: "product_ids sensor_runtime (Some ''0000000300000004'') = returns (3, 4)"
    by (simp add: product_ids_def long16_def hex_digit_def)
  have 3: "load_device sensor_runtime ''0000000300000004'' 3 4 =
      raises (SwapException ''Definition file not found'')"
    by (simp add: sensor_runtime_def)
  from 1 2 3
    init_failures [of sensor_runtime "Some ''zz''" 5 0 0 False recorder]
    init_failures [of sensor_runtime "Some ''0000000g00000002''" 5 0 0 False recorder]
    init_failures [of sensor_runtime None 5 0 0 False recorder]
  show ?thesis by simp
qed

text \<open>
  C27. What a constructed mote is: the queue is empty and the state is \<open>RXOFF\<close>; address,
  security option, nonce and addressing mode are the arguments; the time stamp is the
  clock's value; the product code is the argument, the manufacturer identifier is the
  number read from its first eight characters and the product identifier the number read
  from the rest; the device definition is the one loaded for them, and the two register
  lists, the power-down flag and the transmit interval are those of that definition.
\<close>

theorem init_establishes:
  assumes "init rt server pcode addr secu nce ext = returns m"
  shows "queued_commands m = [] \<and> state m = RXOFF \<and> address m = addr \<and> security m = secu \<and>
         nonce m = nce \<and> extended_addr m = ext \<and> timestamp m = time_now rt \<and>
         pcode = Some (product_code m) \<and>
         long_of rt (take 8 (product_code m)) = returns (manufacturer_id m) \<and>
         long_of rt (drop 8 (product_code m)) = returns (product_id m) \<and>
         load_device rt (product_code m) (manufacturer_id m) (product_id m) =
           returns (device_definition m) \<and>
         regular_registers m = Some (def_regular (device_definition m)) \<and>
         config_registers m = Some (def_config (device_definition m)) \<and>
         pwrdownmode m = def_pwrdownmode (device_definition m) \<and>
         txinterval m = def_txinterval (device_definition m)"
  using assms by (rule init_returns_cases) simp

theorem init_establishes_witness:
  "init sensor_runtime (Some recorder) (Some ''0000000100000002'') 5 0 0 False =
     returns sensor_mote \<and>
   manufacturer_id sensor_mote = 1 \<and> product_id sensor_mote = 2 \<and>
   regular_registers sensor_mote = Some [voltage_reg, climate_reg] \<and>
   txinterval sensor_mote = 10 \<and> pwrdownmode sensor_mote"
  using init_establishes [OF init_sensor_mote [of recorder]] init_sensor_mote [of recorder]
  by (simp add: sensor_mote_def)

text \<open>
  C28. With the digits-only reading of \<open>long(s, 16)\<close>, the identifiers of a constructed
  mote are natural numbers, the manufacturer identifier is below \<open>16\<^sup>8\<close>, and the product
  identifier is below 16 to the number of characters after the eighth: it is bounded by
  the length of the product code, not by a field width.
\<close>

theorem init_identifier_bounds:
  assumes "init rt server pcode addr secu nce ext = returns m" and "long_of rt = long16"
  shows "8 < length (product_code m) \<and>
         0 \<le> manufacturer_id m \<and> manufacturer_id m < 16 ^ 8 \<and>
         0 \<le> product_id m \<and> product_id m < 16 ^ (length (product_code m) - 8)"
proof -
  let ?s = "product_code m"
  from assms(1) have "long_of rt (take 8 ?s) = returns (manufacturer_id m)"
    and "long_of rt (drop 8 ?s) = returns (product_id m)"
    by (auto elim: init_returns_cases)
  with assms(2) have m: "long16 (take 8 ?s) = returns (manufacturer_id m)"
    and p: "long16 (drop 8 ?s) = returns (product_id m)"
    by simp_all
  from p have "drop 8 ?s \<noteq> []" by auto
  then have len: "8 < length ?s" by simp
  from long16_bounds [OF m] len have "0 \<le> manufacturer_id m \<and> manufacturer_id m < 16 ^ 8"
    by (simp add: min_def)
  with long16_bounds [OF p] len show ?thesis by simp
qed

theorem init_identifier_bounds_witness:
  "init sensor_runtime (Some recorder) (Some ''0000000100000002'') 5 0 0 False =
     returns sensor_mote \<and>
   long_of sensor_runtime = long16 \<and> 8 < length (product_code sensor_mote) \<and>
   product_id sensor_mote < 16 ^ (length (product_code sensor_mote) - 8)"
  using init_identifier_bounds [OF init_sensor_mote [of recorder]] init_sensor_mote [of recorder]
  by simp

text \<open>
  C29. With the digits-only reading of \<open>long(s, 16)\<close>, a product code parses exactly when
  it has more than eight characters and all of them are hexadecimal digits. The second
  field has no fixed width: a code of nine characters parses, and so does one of forty.
\<close>

theorem product_code_any_width:
  "(\<exists>manufacturer product.
      parse_product_code (rt\<lparr>long_of := long16\<rparr>) (Some s) = returns (manufacturer, product)) \<longleftrightarrow>
     8 < length s \<and> (\<forall>c \<in> set s. hex_digit c \<noteq> None)"
  using parse_long16_iff [of rt s] by (simp add: is_ok_iff list_all_iff)

theorem product_code_any_width_witness:
  "parse_product_code sensor_runtime (Some ''00000001F'') = returns (1, 15) \<and>
   parse_product_code sensor_runtime (Some ''00000001000000000000000002'') = returns (1, 2) \<and>
   \<not> is_ok (parse_product_code sensor_runtime (Some ''00000001''))"
proof -
  have rt: "sensor_runtime\<lparr>long_of := long16\<rparr> = sensor_runtime"
    by (simp add: sensor_runtime_def)
  have "\<not> 8 < length ''00000001''" by simp
  with product_code_any_width [of sensor_runtime "''00000001''"]
  have "\<not> is_ok (parse_product_code sensor_runtime (Some ''00000001''))"
    unfolding rt by (auto simp: is_ok_iff)
  then show ?thesis
    by (simp add: parse_product_code_def product_ids_def long16_def hex_digit_def)
qed

end
