(* ===== verification/Swap_Dumps.thy ===== *)
theory Swap_Dumps
  imports Swap_Mote
begin

text \<open>
  The snapshot serializer \<open>SwapMote.dumps\<close>. The result is the dictionary \<open>data\<close>, a map
  from its string keys to the values stored under them; a value is a string, an integer
  or the list of register snapshots. The snapshot of one register is made by
  \<open>SwapRegister.dumps\<close>, which is not among the sources: it is the argument \<open>reg_dumps\<close>,
  a function of the \<open>include_units\<close> flag and the register that returns the snapshot or
  raises, and \<open>dumps\<close> is stated for every such function. The loop over the regular
  registers is \<open>dump_all\<close>, a recursion on the list with the list \<open>regs\<close> built so far.
\<close>

section \<open>Snapshots\<close>

datatype 'j dump_value = Text string | Number int | Registers "'j list"

type_synonym 'j snapshot = "string \<rightharpoonup> 'j dump_value"

type_synonym 'j reg_dumps = "bool \<Rightarrow> SwapRegister \<Rightarrow> 'j result"

text \<open>\<open>for reg in self.regular_registers: regs.append(reg.dumps(include_units))\<close>\<close>

primrec dump_all :: "'j reg_dumps \<Rightarrow> bool \<Rightarrow> SwapRegister list \<Rightarrow> 'j list \<Rightarrow> 'j list result" where
  "dump_all reg_dumps include_units [] regs = returns regs"
| "dump_all reg_dumps include_units (reg # rest) regs =
     (case reg_dumps include_units reg of
        Inl e \<Rightarrow> raises e
      | Inr j \<Rightarrow> dump_all reg_dumps include_units rest (regs @ [j]))"

definition dumps :: "'j reg_dumps \<Rightarrow> SwapMote \<Rightarrow> bool \<Rightarrow> 'j snapshot result" where
  "dumps reg_dumps m include_units =
     (let data = Map.empty;
          data = data(''pcode'' \<mapsto> Text (product_code m));
          data = data(''manufacturer'' \<mapsto> Text (def_manufacturer (device_definition m)));
          data = data(''name'' \<mapsto> Text (def_product (device_definition m)));
          data = data(''address'' \<mapsto> Number (address m));
          data = data(''txinterval'' \<mapsto> Number (txinterval m));
          regs = []
      in then_do
           (case regular_registers m of
              None \<Rightarrow> returns regs
            | Some rs \<Rightarrow> dump_all reg_dumps include_units rs regs)
           (\<lambda>regs. returns (data(''registers'' \<mapsto> Registers regs))))"

text \<open>The call \<open>dumps()\<close> with the default \<open>include_units=False\<close>.\<close>

definition dumps_default :: "'j reg_dumps \<Rightarrow> SwapMote \<Rightarrow> 'j snapshot result" where
  "dumps_default reg_dumps m = dumps reg_dumps m False"

section \<open>A register snapshot for the closed instances\<close>

text \<open>
  The name of the register and, when units are asked for, the names of its parameters.
  A register without a name cannot be serialized.
\<close>

definition name_dumps :: "(string \<times> string list) reg_dumps" where
  "name_dumps include_units reg =
     (if reg_name reg = [] then raises (SwapException ''Register without name'')
      else returns (reg_name reg, if include_units then map param_name (parameters reg) else []))"

text \<open>The part of a snapshot that does not depend on the registers.\<close>

definition header :: "SwapMote \<Rightarrow> 'j snapshot" where
  "header m =
     [''pcode'' \<mapsto> Text (product_code m),
      ''manufacturer'' \<mapsto> Text (def_manufacturer (device_definition m)),
      ''name'' \<mapsto> Text (def_product (device_definition m)),
      ''address'' \<mapsto> Number (address m),
      ''txinterval'' \<mapsto> Number (txinterval m)]"

section \<open>The loop\<close>

lemma dump_all_append:
  "dump_all rd u (xs @ ys) regs =
     then_do (dump_all rd u xs regs) (dump_all rd u ys)"
  by (induction xs arbitrary: regs) (simp_all split: sum.split)

lemma dump_all_returns:
  "\<forall>reg \<in> set rs. rd u reg = returns (f reg) \<Longrightarrow>
     dump_all rd u rs regs = returns (regs @ map f rs)"
  by (induction rs arbitrary: regs) simp_all

lemma dump_all_raises:
  "\<forall>reg \<in> set pre. is_ok (rd u reg) \<Longrightarrow> rd u bad = raises e \<Longrightarrow>
     dump_all rd u (pre @ bad # post) regs = raises e"
  by (induction pre arbitrary: regs) (auto simp: is_ok_iff)

lemma dump_all_is_ok:
  "is_ok (dump_all rd u rs regs) \<longleftrightarrow> (\<forall>reg \<in> set rs. is_ok (rd u reg))"
  by (induction rs arbitrary: regs) (auto simp: is_ok_iff split: sum.splits)

lemma dump_all_length:
  "dump_all rd u rs regs = returns out \<Longrightarrow> length out = length regs + length rs"
  by (induction rs arbitrary: regs) (auto split: sum.splits)

section \<open>The snapshot\<close>

lemma dumps_eq:
  "dumps rd m u =
     then_do (dump_all rd u (regular_list m) [])
       (\<lambda>regs. returns ((header m)(''registers'' \<mapsto> Registers regs)))"
  by (simp add: dumps_def header_def regular_list_def Let_def split: option.split)

lemma header_dom:
  "dom (header m) = {''pcode'', ''manufacturer'', ''name'', ''address'', ''txinterval''}"
  by (auto simp: header_def)

lemma header_simps [simp]:
  "header m ''pcode'' = Some (Text (product_code m))"
  "header m ''manufacturer'' = Some (Text (def_manufacturer (device_definition m)))"
  "header m ''name'' = Some (Text (def_product (device_definition m)))"
  "header m ''address'' = Some (Number (address m))"
  "header m ''txinterval'' = Some (Number (txinterval m))"
  "header m ''registers'' = None"
  by (simp_all add: header_def)

lemma header_update [simp]:
  "header (m\<lparr>queued_commands := q\<rparr>) = header m"
  "header (m\<lparr>state := st\<rparr>) = header m"
  "header (m\<lparr>timestamp := now\<rparr>) = header m"
  "header (m\<lparr>security := s\<rparr>) = header m"
  by (simp_all add: header_def)

lemma dumps_is_ok:
  "is_ok (dumps rd m u) \<longleftrightarrow> (\<forall>reg \<in> set (regular_list m). is_ok (rd u reg))"
  using dump_all_is_ok [of rd u "regular_list m" "[]"]
  by (cases "dump_all rd u (regular_list m) []") (simp_all add: dumps_eq)

lemma dumps_returns_cases:
  assumes "dumps rd m u = returns data"
  obtains regs where "dump_all rd u (regular_list m) [] = returns regs"
    and "data = (header m)(''registers'' \<mapsto> Registers regs)"
  using assms by (cases "dump_all rd u (regular_list m) []") (auto simp: dumps_eq)

lemma name_dumps_simps [simp]:
  "reg_name reg \<noteq> [] \<Longrightarrow>
     name_dumps u reg = returns (reg_name reg, if u then map param_name (parameters reg) else [])"
  "reg_name reg = [] \<Longrightarrow> name_dumps u reg = raises (SwapException ''Register without name'')"
  by (simp_all add: name_dumps_def)

lemma dumps_cong:
  "product_code m' = product_code m \<Longrightarrow> device_definition m' = device_definition m \<Longrightarrow>
   regular_registers m' = regular_registers m \<Longrightarrow> address m' = address m \<Longrightarrow>
   txinterval m' = txinterval m \<Longrightarrow> dumps rd m' u = dumps rd m u"
  by (simp add: dumps_def)

lemma dumps_sensor_mote:
  "dumps name_dumps sensor_mote False =
     returns ((header sensor_mote)(''registers'' \<mapsto>
       Registers [(''Voltage'', []), (''Climate'', [])]))"
  by (simp add: dumps_eq sensor_regs)

section \<open>Properties of the snapshot\<close>

text \<open>
  C30. A snapshot that \<open>dumps\<close> returns has exactly the keys \<open>pcode\<close>, \<open>manufacturer\<close>,
  \<open>name\<close>, \<open>address\<close>, \<open>txinterval\<close> and \<open>registers\<close>. The first five hold the product code
  of the mote, the manufacturer and the product of its device definition, its address
  and its transmit interval; \<open>registers\<close> holds a list with one entry for each regular
  register.
\<close>

theorem dumps_schema:
  assumes "dumps rd m u = returns data"
  shows "dom data = {''registers'', ''pcode'', ''manufacturer'', ''name'', ''address'',
                     ''txinterval''} \<and>
         data ''pcode'' = Some (Text (product_code m)) \<and>
         data ''manufacturer'' = Some (Text (def_manufacturer (device_definition m))) \<and>
         data ''name'' = Some (Text (def_product (device_definition m))) \<and>
         data ''address'' = Some (Number (address m)) \<and>
         data ''txinterval'' = Some (Number (txinterval m)) \<and>
         (\<exists>regs. data ''registers'' = Some (Registers regs) \<and>
                 length regs = length (regular_list m))"
  using assms
proof (rule dumps_returns_cases)
  fix regs
  assume regs: "dump_all rd u (regular_list m) [] = returns regs"
    and data: "data = (header m)(''registers'' \<mapsto> Registers regs)"
  from dump_all_length [OF regs] have "length regs = length (regular_list m)"
    by simp
  then show ?thesis
    unfolding data by (simp add: header_dom)
qed

theorem dumps_schema_witness:
  "dumps name_dumps sensor_mote False =
     returns ((header sensor_mote)(''registers'' \<mapsto>
       Registers [(''Voltage'', []), (''Climate'', [])])) \<and>
   ((header sensor_mote)(''registers'' \<mapsto> Registers [(''Voltage'', []), (''Climate'', [])]))
      ''address'' = Some (Number 5) \<and>
   ((header sensor_mote)(''registers'' \<mapsto> Registers [(''Voltage'', []), (''Climate'', [])]))
      ''txinterval'' = Some (Number 10) \<and>
   ((header sensor_mote)(''registers'' \<mapsto> Registers [(''Voltage'', []), (''Climate'', [])]))
      ''pcode'' = Some (Text ''0000000100000002'')"
  using dumps_schema [OF dumps_sensor_mote] dumps_sensor_mote
  by (simp add: sensor_mote_def)

text \<open>
  C31. When the snapshot of every regular register succeeds, \<open>dumps\<close> returns, and the
  list under \<open>registers\<close> holds the snapshots of the regular registers in the order of the
  list, each made with the \<open>include_units\<close> flag of the call. Configuration registers do
  not appear.
\<close>

theorem dumps_registers_in_order:
  assumes "\<forall>reg \<in> set (regular_list m). rd u reg = returns (f reg)"
  shows "dumps rd m u =
           returns ((header m)(''registers'' \<mapsto> Registers (map f (regular_list m))))"
  using assms
    dump_all_returns [where rs = "regular_list m" and rd = rd and u = u and f = f and regs = "[]"]
  by (simp add: dumps_eq)

theorem dumps_registers_in_order_witness:
  "list_all (\<lambda>reg. name_dumps True reg = returns (reg_name reg, map param_name (parameters reg)))
     (regular_list sensor_mote) \<and>
   dumps name_dumps sensor_mote True =
     returns ((header sensor_mote)(''registers'' \<mapsto>
       Registers [(''Voltage'', [''Voltage'']), (''Climate'', [''Temperature'', ''Humidity''])]))"
proof -
  have 1: "\<forall>reg \<in> set (regular_list sensor_mote).
      name_dumps True reg = returns (reg_name reg, map param_name (parameters reg))"
    by (simp add: sensor_regs)
  from 1 dumps_registers_in_order [of sensor_mote name_dumps True
      "\<lambda>reg. (reg_name reg, map param_name (parameters reg))"]
  have "dumps name_dumps sensor_mote True =
      returns ((header sensor_mote)(''registers'' \<mapsto>
        Registers (map (\<lambda>reg. (reg_name reg, map param_name (parameters reg)))
          (regular_list sensor_mote))))"
    by blast
  then show ?thesis by (simp add: sensor_regs)
qed

text \<open>
  C32. \<open>dumps\<close> raises exactly when the snapshot of some regular register raises, and the
  exception is that of the first register in list order whose snapshot raises; the
  registers after it are not visited.
\<close>

theorem dumps_raises_first_failure:
  "(is_ok (dumps rd m u) \<longleftrightarrow> list_all (\<lambda>reg. is_ok (rd u reg)) (regular_list m)) \<and>
   (\<forall>pre bad post e.
      regular_list m = pre @ bad # post \<longrightarrow> list_all (\<lambda>reg. is_ok (rd u reg)) pre \<longrightarrow>
      rd u bad = raises e \<longrightarrow> dumps rd m u = raises e)"
proof (rule conjI)
  show "is_ok (dumps rd m u) \<longleftrightarrow> list_all (\<lambda>reg. is_ok (rd u reg)) (regular_list m)"
    by (simp add: dumps_is_ok list_all_iff)
  show "\<forall>pre bad post e.
      regular_list m = pre @ bad # post \<longrightarrow> list_all (\<lambda>reg. is_ok (rd u reg)) pre \<longrightarrow>
      rd u bad = raises e \<longrightarrow> dumps rd m u = raises e"
    by (simp add: dumps_eq dump_all_raises list_all_iff)
qed

theorem dumps_raises_first_failure_witness:
  "dumps name_dumps
     (sensor_mote\<lparr>regular_registers :=
        Some [voltage_reg, climate_reg\<lparr>reg_name := []\<rparr>, period_reg]\<rparr>) False =
     raises (SwapException ''Register without name'') \<and>
   \<not> is_ok (dumps name_dumps
     (sensor_mote\<lparr>regular_registers :=
        Some [voltage_reg, climate_reg\<lparr>reg_name := []\<rparr>, period_reg]\<rparr>) False)"
proof -
  let ?m = "sensor_mote\<lparr>regular_registers :=
    Some [voltage_reg, climate_reg\<lparr>reg_name := []\<rparr>, period_reg]\<rparr>"
  have 1: "regular_list ?m = [voltage_reg] @ climate_reg\<lparr>reg_name := []\<rparr> # [period_reg]"
    by (simp add: regular_list_def)
  have 2: "list_all (\<lambda>reg. is_ok (name_dumps False reg)) [voltage_reg]"
    by (simp add: sensor_regs)
  have 3: "name_dumps False (climate_reg\<lparr>reg_name := []\<rparr>) =
      raises (SwapException ''Register without name'')"
    by simp
  from dumps_raises_first_failure [of name_dumps ?m False] 1 2 3
  have "dumps name_dumps ?m False = raises (SwapException ''Register without name'')"
    by blast
  then show ?thesis by simp
qed

text \<open>
  \<open>dumps\<close> reads the product code, the device definition, the address, the transmit
  interval and the regular registers, and nothing else: the queue, the state, the time
  stamp, the security option and the configuration registers do not change the
  snapshot. A mote whose regular register list is \<open>None\<close> has the empty list under
  \<open>registers\<close>.
\<close>

lemma dumps_reads_only:
  "dumps rd (m\<lparr>queued_commands := q, state := st, timestamp := now, security := s,
               config_registers := cs\<rparr>) u = dumps rd m u \<and>
   dumps rd (m\<lparr>regular_registers := None\<rparr>) u =
     returns ((header m)(''registers'' \<mapsto> Registers []))"
  by (simp add: dumps_def header_def)

end
