(* ===== verification/Spec2Isabelle.thy ===== *)
theory Spec2Isabelle
  imports Swap_Termination Swap_Crowd Swap_Types Swap_Legacy Swap_Dumps
begin

text \<open>
  \<^bold>\<open>A verification development for the SWAP mote proxy\<close> (\<open>src/pyswap/swap/protocol/SwapMote.py\<close>).

  \<^bold>\<open>The program.\<close> A \<open>SwapMote\<close> object stands for one wireless node. A controller reads and
  writes the node's registers through it; the object decides for every write whether to
  transmit it at once with a confirmed exchange or to defer it in a FIFO queue until the
  node reports that its receiver is on, and it drains the queue when such a report comes
  in. The object talks to one collaborator, the server (\<open>self.server\<close>), which transmits
  packets and runs the confirmed exchanges. It is built from a product code and a device
  definition, and \<open>dumps\<close> gives a snapshot of it as a dictionary.

  \<^bold>\<open>The theories\<close>, in the order of their imports:
  \<^item> \<open>Swap_Prelude\<close>: the exceptions of the source as the datatype \<open>py_error\<close>, the result
    type \<open>py_error + 'a\<close> of an operation that may raise (\<open>raises\<close>, \<open>returns\<close>, \<open>then_do\<close>,
    \<open>is_ok\<close>), the collections \<open>swap_defs\<close> and \<open>swap_frame\<close>, and shared facts on lists and
    options.
  \<^item> \<open>Swap_Defs\<close>: register identifiers, mote states, values and packets, as the modules
    \<open>SwapDefs\<close>, \<open>SwapValue\<close> and \<open>SwapPacket\<close> present them to the mote. These modules
    are not among the sources and are modelled at their interface: identifiers and
    states are symbolic, a value is its raw datum with its byte length, a packet is its
    constructor call.
  \<^item> \<open>Swap_Register\<close>: registers and parameters, and the linear searches that
    \<open>getRegister\<close> and \<open>getParameter\<close> run over a register list (\<open>find_register\<close>,
    \<open>find_param\<close>, \<open>find_parameter\<close>, and \<open>scan\<close>, \<open>scan_both\<close> for the two lists in a
    row), each search proved equal to \<open>List.find\<close>.
  \<^item> \<open>Swap_Mote\<close>: the object's attributes as the record \<open>SwapMote\<close>, the device
    definition \<open>XmlDevice\<close> it is built from, and \<open>getRegister\<close>, \<open>getParameter\<close>,
    \<open>updateTimeStamp\<close>; the predicates \<open>has_registers\<close> and \<open>same_identity\<close>; the example
    mote \<open>sensor_mote\<close> of the closed instances.
  \<^item> \<open>Swap_Server\<close>: the server as an interface, a record of the three functions the mote
    calls (\<open>send\<close>, \<open>setMoteRegister\<close>, \<open>queryMoteRegister\<close>) over a state type of the
    server's own. Theorems are stated for every implementation of it. \<open>recorder\<close> is
    one, which logs each call and answers confirmed exchanges from a script.
  \<^item> \<open>Swap_Commands\<close>: \<open>cmdRegister\<close>, \<open>qryRegister\<close>, \<open>staRegister\<close>, \<open>cmdRegisterWack\<close>,
    \<open>qryRegisterWack\<close> and the setters \<open>setAddress\<close>, \<open>setNetworkId\<close>, \<open>setFreqChannel\<close>,
    \<open>setSecurity\<close>, \<open>setTxInterval\<close>, \<open>restart\<close>, \<open>leaveSync\<close>.
  \<^item> \<open>Swap_Queue\<close>: \<open>save_command\<close> and its wrappers \<open>save_address_command\<close> and
    \<open>save_txinterval_command\<close>, \<open>nbof_saved_commands\<close>, \<open>get_saved_command\<close>, and
    \<open>update_state\<close> with its loop \<open>flush\<close>; \<open>flush_with\<close> is the same loop while other
    callers append to the queue.
  \<^item> \<open>Swap_Machine\<close>: the methods of the class as the datatype \<open>mote_call\<close>, the step
    function \<open>step\<close> (a call that raises leaves the state as it was), runs, the
    inductive predicate \<open>reachable\<close>, and the invariant \<open>queue_inv\<close>.
  \<^item> \<open>Swap_Spec\<close>: the abstract queue machine \<open>queue_spec\<close> (power state, pending and
    delivered commands) that the queue promises, the abstraction function from a mote
    with the recording server, and the refinement: the abstraction of the state after a
    step is the abstract step from the abstraction of the state before.
  \<^item> \<open>Swap_Interleave\<close>: two callers on one mote. \<open>update_state\<close> is cut into its
    statements (\<open>flusher\<close>, \<open>tick\<close>); a schedule interleaves them with complete calls of
    another thread (\<open>interleave\<close>). \<open>settling\<close> is what holds of the queue at each
    position of the method when those calls are atomic.
  \<^item> \<open>Swap_Termination\<close>: the statements of \<open>update_state\<close> run to the end of the method
    (\<open>finish\<close>, a \<open>function\<close> whose termination proof is by the measure \<open>ticks_left\<close>), and
    the bound on the statements that remain once \<open>nb_cmds\<close> is read (\<open>statements_left\<close>).
  \<^item> \<open>Swap_Threads\<close>: \<open>save_command\<close> cut into its statements (\<open>saver\<close>, \<open>save_tick\<close>): the
    test of the state, then the confirmed write or the append. A schedule of \<open>turn\<close>s
    (\<open>threads\<close>) interleaves them with the actions of \<open>Swap_Interleave\<close>.
  \<^item> \<open>Swap_Order\<close>: the race of the two methods. \<open>pipeline\<close> is the path of a command
    as one list (handed to the server, in flight, queued); \<open>race\<close> runs the two
    statements of \<open>save_command\<close> against a report of \<open>RXON\<close> under a schedule taken from
    \<open>shuffles\<close>, and \<open>flushed\<close>, \<open>written\<close>, \<open>stranded\<close> are its three outcomes; \<open>locked\<close>
    is a method call whose statements run without another thread in between.
  \<^item> \<open>Swap_Crowd\<close>: any number of threads inside \<open>save_command\<close>. A \<open>crowd\<close> is a list of
    positions (\<open>saver\<close>), one for each thread, with the position of the thread inside
    \<open>update_state\<close> and the mote; \<open>move_step\<close> executes a statement of the thread with a
    given index (by \<open>save_tick\<close>) or an action of \<open>Swap_Interleave\<close>; the inductive
    predicate \<open>crowded\<close> holds of the configurations a crowd reaches, and \<open>crowd_inv\<close> is
    the invariant of the race. The schedules of \<open>Swap_Threads\<close> are the crowds of one
    (\<open>crowd_of_one\<close>).
  \<^item> \<open>Swap_Types\<close>: the typing of register writes. \<open>type_of_reg\<close> gives the standard
    registers their width (the byte lengths the methods pass to \<open>SwapValue\<close>), \<open>has_type\<close>
    relates a value to a type, \<open>typed_call\<close> are the calls with arguments in range,
    \<open>typed_move\<close> the moves of a schedule with such calls, and \<open>typed_state\<close> the states
    in which every command and every mirrored attribute fits.
  \<^item> \<open>Swap_Init\<close>: the constructor \<open>__init__\<close> as \<open>init\<close>, with \<open>parse_product_code\<close> for its
    \<open>try\<close> block and \<open>product_ids\<close> for the body of the block. The builtin \<open>long\<close>, the loader of the device definition and the clock
    are the fields of the record \<open>runtime\<close>; \<open>long16\<close> is the digits-only core of
    \<open>long(s, 16)\<close>.
  \<^item> \<open>Swap_Legacy\<close>: the byte-wise reading of the product code that \<open>__init__\<close> keeps
    disabled in a string literal (\<open>legacy_ids\<close> with its loop \<open>legacy_loop\<close> and one pass
    \<open>legacy_pass\<close>, on Python's integers with \<open>OR\<close> and \<open>push_bit\<close>), and its agreement
    with the hexadecimal conversion that runs.
  \<^item> \<open>Swap_Dumps\<close>: \<open>dumps\<close> with its loop \<open>dump_all\<close>; the snapshot of one register
    (\<open>SwapRegister.dumps\<close>) is an argument.
  \<^item> \<open>Spec2Isabelle\<close> (this theory): the properties that span the constructor, the state
    machine, the typing and the serializer.

  \<^bold>\<open>How state and effects are modelled.\<close> A method of the class is a function that takes
  the server (the interface record), the mote (the record) and the server's state, and
  returns the method's result with the mote and the server's state after the call. A
  method that raises returns \<open>Inl\<close> of the exception. Python's integers are \<open>int\<close>; the
  queue (\<open>collections.deque\<close>) is a list with its left end first; a register list is an
  optional list, because the constructor initialises it to \<open>None\<close> and \<open>dumps\<close> tests for
  that; the dictionary of \<open>dumps\<close> is a map from its keys; the time stamp is a real
  number and the clock is an input.

  \<^bold>\<open>Loops, bounds and fuel.\<close> No definition uses fuel and every function is total. The loop
  of \<open>update_state\<close> is a primitive recursion on the number of passes, which \<open>range(nb_cmds)\<close>
  fixes before the first pass; the searches and \<open>dump_all\<close> are primitive recursions on
  the list they traverse. The one general recursion is \<open>finish\<close>, which repeats the
  statements of \<open>update_state\<close> until the method has ended; its termination is proved
  with the measure \<open>ticks_left\<close>, two statements and two for every saved command, and
  that bound is exact for a mote that wakes with a non-empty queue. Integers are
  unbounded as in Python, so no width is chosen for the model; the byte lengths 1 and 2
  that the methods pass to \<open>SwapValue\<close> are kept as arguments of the value, and \<open>Swap_Types\<close>
  states when an integer fits them (\<open>in_range n i\<close> is \<open>0 \<le> i < 256 ^ n\<close>). The race of
  \<open>Swap_Order\<close> is between the two statements of \<open>save_command\<close> and the two statements
  \<open>update_state\<close> executes on an empty queue; \<open>shuffles\<close> gives all six schedules of
  them, and two further statements of \<open>update_state\<close> end the flush of the one command
  that can have been queued in time. The number of threads of a crowd is the length of
  a list and is not bounded; a move of a thread that does not exist changes nothing.

  \<^bold>\<open>What the lemmas show.\<close> For the queue: the loop of \<open>update_state\<close> is a single pass
  over the queue in FIFO order and cannot underflow; \<open>save_command\<close> defers exactly when
  the mote is not in \<open>RXON\<close> and has power-down mode enabled; a mote that would be written
  to at once never has a command queued (\<open>queue_inv\<close>), so that no command overtakes
  another; every run of the mote with the recording server is a run of the abstract
  queue, from which the order of delivery follows. For the setters: a mirrored attribute
  changes exactly when the confirmed write was acknowledged. For two callers: the
  statements of \<open>update_state\<close> run alone are \<open>update_state\<close>; under every schedule no
  command is lost or duplicated and the loop does not underflow unless the other thread
  pops, and with atomic calls of the other thread the queue invariant holds again when
  the method returns; but a write can overtake the queue, and a pop or a second report
  during the flush makes the loop raise. For termination: \<open>update_state\<close> ends within \<open>ticks_left\<close> statements, and once
  \<open>nb_cmds\<close> is read it ends within twice the remaining passes whatever the other threads
  do. For \<open>save_command\<close> as two statements: executed back to back they are the atomic
  call; a state report between the test and the append strands the command on a mote
  that listens; of the six interleavings of a save with a report of \<open>RXON\<close> two end with
  the command flushed, three with the confirmed write and exactly one with the command
  stranded; and with a lock around every method the statements are the atomic calls of
  \<open>Swap_Machine\<close>, whose runs keep the queue invariant. For any number of threads inside
  \<open>save_command\<close>, under every schedule of their statements, of the statements of
  \<open>update_state\<close> and of atomic calls: no command is lost or made (an equation of
  multisets); the commands handed to the server, in flight and queued keep their order
  (a subsequence, \<open>subseq\<close>), so a race decides where a new command enters and never
  exchanges two commands; and when \<open>update_state\<close> has returned, the queue of a
  receiving mote holds at most one command for each thread that returned \<open>None\<close>, a
  bound that the schedule in which every thread tests early and appends late reaches. For the typing: a call
  keeps every command and every mirrored attribute within the width of its register
  exactly when its argument is in range, every schedule of statements and typed calls
  keeps the typing, and a constructed mote is well typed. For the
  lookups: the
  regular list is searched before the configuration list, an unknown identifier is
  absence, and a missing list is a \<open>TypeError\<close>. For the constructor: when it returns,
  what it raises and in which order, and what the constructed mote is; and that on a
  product code of eight bytes, written as sixteen hexadecimal digits, it reads the
  identifiers that the disabled byte-wise loop read, each below \<open>2 ^ 32\<close>. For the
  serializer: the keys and values of the snapshot, the order of the registers, and the
  exception of the first register that fails. Across the components: a constructed mote
  satisfies the invariants in every reachable state, its lookups never raise, and its
  snapshot changes only with its address and its transmit interval.

  \<^bold>\<open>What is not modelled.\<close> Every method of \<open>SwapMote.py\<close> has its definition here; the
  lines of the file without one are the licence header, the imports and the blank lines
  between the methods. The radio framing and checksums, the encoding of values into
  bytes, the device definition files and the internals of the server (its blocking, its
  time-outs, its retries) are outside the sources; they appear as the interface types of
  \<open>Swap_Defs\<close>, \<open>Swap_Server\<close> and \<open>Swap_Init\<close>. The attribute \<open>self.config\<close> is assigned
  once and never read. Of the builtin \<open>long\<close> only the digits-only core is defined; the
  constructor is stated for every parser. The byte-wise loop of \<open>Swap_Legacy\<close> does not
  run in the program: it is modelled as it is written, on a list of integers, to relate
  the product code of the running constructor to the one it replaced. A server function returns its answer and its own new state: a server that calls back into the mote during an exchange is not
  modelled as such. A callback that is a complete method call during a transmission of
  the flush is the schedule of \<open>Swap_Interleave\<close> in which that call follows the statement
  that transmits, so what is proved for all schedules holds for such callbacks. Threads are followed statement by statement inside
  \<open>update_state\<close> (one thread) and inside \<open>save_command\<close> (any number of threads); every other call is atomic, and a
  confirmed exchange is one step although it blocks. So a schedule found here exists in
  the program, while a property proved for all schedules is proved for these schedules.
  The typing covers the six standard registers; the registers of a device definition
  carry no type here, and what \<open>SwapValue\<close> does with an integer that does not fit its
  length is outside the sources.
\<close>

section \<open>A constructed mote\<close>

lemma init_fresh:
  "init rt server pcode addr secu nce ext = returns m \<Longrightarrow> fresh m"
  by (erule init_returns_cases) (simp add: fresh_def has_registers_def)

lemma init_registers:
  "init rt server pcode addr secu nce ext = returns m \<Longrightarrow>
     regular_registers m = Some (def_regular (device_definition m)) \<and>
     config_registers m = Some (def_config (device_definition m))"
  by (erule init_returns_cases) simp

lemma reachable_has_registers:
  "reachable srv (m0, w0) (m, w) \<Longrightarrow> has_registers m0 \<Longrightarrow> has_registers m"
  using reachable_identity_fst [of srv "(m0, w0)" "(m, w)"] same_identity_has_registers [of m0 m]
  by simp

text \<open>
  C34. In every state that a constructed mote reaches by any sequence of method calls
  with any server: a mote that would be written to at once has an empty queue; the two
  register lists are those of the device definition loaded at construction; and
  \<open>getRegister\<close> and \<open>getParameter\<close> return for every identifier and every name, so the
  \<open>TypeError\<close> of a missing list cannot occur.
\<close>

theorem constructed_mote_invariants:
  assumes "init rt server pcode addr secu nce ext = returns m0"
    and "reachable srv (m0, w0) (m, w)"
  shows "(state m = RXON \<or> \<not> pwrdownmode m \<longrightarrow> queued_commands m = []) \<and>
         regular_registers m = Some (def_regular (device_definition m0)) \<and>
         config_registers m = Some (def_config (device_definition m0)) \<and>
         is_ok (getRegister m regId) \<and> is_ok (getParameter m nm)"
proof -
  from init_fresh [OF assms(1)] have f: "fresh m0" .
  from reachable_queue_inv_fst [OF assms(2)] fresh_queue_inv [OF f]
  have q: "state m = RXON \<or> \<not> pwrdownmode m \<longrightarrow> queued_commands m = []"
    by (simp add: queue_inv_def receiving_now_def)
  from f have "has_registers m0" by (simp add: fresh_def)
  from reachable_has_registers [OF assms(2) this] have h: "has_registers m" .
  from reachable_identity_fst [OF assms(2)] init_registers [OF assms(1)]
  have "regular_registers m = Some (def_regular (device_definition m0)) \<and>
      config_registers m = Some (def_config (device_definition m0))"
    by (simp add: same_identity_def)
  with q h show ?thesis
    by (simp add: getRegister_has_registers getParameter_has_registers)
qed

theorem constructed_mote_invariants_witness:
  "init sensor_runtime (Some recorder) (Some ''0000000100000002'') 5 0 0 False =
     returns sensor_mote \<and>
   reachable recorder (sensor_mote, quiet [True]) (sensor_mote\<lparr>state := RXON\<rparr>, quiet [True]) \<and>
   queued_commands (sensor_mote\<lparr>state := RXON\<rparr>) = [] \<and>
   is_ok (getRegister (sensor_mote\<lparr>state := RXON\<rparr>) ID_TX_INTERVAL)"
proof -
  have s: "step recorder (sensor_mote, quiet [True]) (UpdateState RXON) =
      (sensor_mote\<lparr>state := RXON\<rparr>, quiet [True])"
    by (simp add: sensor_mote_def)
  have r: "reachable recorder (sensor_mote, quiet [True])
      (sensor_mote\<lparr>state := RXON\<rparr>, quiet [True])"
    unfolding s [symmetric] by (rule reachable.after [OF reachable.start])
  from constructed_mote_invariants [OF init_sensor_mote r, of ID_TX_INTERVAL "''x''"] r
  show ?thesis by (simp add: init_sensor_mote)
qed

text \<open>
  C35. From construction to delivery: a mote is constructed, any sequence of disciplined
  calls follows (\<open>save_command\<close> and its wrappers, state reports, queries, status echoes,
  time stamps), and then the node reports \<open>RXON\<close> or \<open>SYNC\<close>. Then the mote is in the
  reported state, its queue is empty, and the server has been handed exactly the
  commands issued, each once, in the order of the calls.
\<close>

theorem constructed_wake_up_delivers:
  assumes "init rt (Some recorder) pcode addr secu nce ext = returns m0"
    and "\<forall>c \<in> set cs. disciplined c"
    and "st = RXON \<or> st = SYNC"
    and "run recorder (m0, quiet script) (cs @ [UpdateState st]) = (m', w')"
  shows "state m' = st \<and> queued_commands m' = [] \<and> attempts w' = concat (map issued cs)"
proof -
  from init_fresh [OF assms(1)] have f: "fresh m0" .
  then have "state m0 = RXON \<or> \<not> pwrdownmode m0 \<longrightarrow> queued_commands m0 = []"
    by (simp add: fresh_def)
  from wake_up_delivers_all [OF this assms(2-4)] f
  have "queued_commands m' = [] \<and> attempts w' = concat (map issued cs)"
    by (simp add: fresh_def)
  moreover from assms(3,4) have "state m' = st"
    by (cases "run recorder (m0, quiet script) cs") (auto simp: run_snoc)
  ultimately show ?thesis by simp
qed

theorem constructed_wake_up_delivers_witness:
  "init sensor_runtime (Some recorder) (Some ''0000000100000002'') 5 0 0 False =
     returns sensor_mote \<and>
   list_all disciplined [SaveAddressCommand 9, SaveTxintervalCommand 30] \<and>
   attempts (snd (run recorder (sensor_mote, quiet [])
     ([SaveAddressCommand 9, SaveTxintervalCommand 30] @ [UpdateState SYNC]))) =
     [(ID_DEVICE_ADDR, SwapValue (RawInt 9) 1), (ID_TX_INTERVAL, SwapValue (RawInt 30) 2)] \<and>
   queued_commands (fst (run recorder (sensor_mote, quiet [])
     ([SaveAddressCommand 9, SaveTxintervalCommand 30] @ [UpdateState SYNC]))) = []"
proof -
  let ?cs = "[SaveAddressCommand 9, SaveTxintervalCommand 30]"
  let ?s = "run recorder (sensor_mote, quiet []) (?cs @ [UpdateState SYNC])"
  have 2: "\<forall>c \<in> set ?cs. disciplined c" by simp
  have 3: "SYNC = RXON \<or> SYNC = SYNC" by simp
  have 4: "run recorder (sensor_mote, quiet []) (?cs @ [UpdateState SYNC]) = (fst ?s, snd ?s)"
    by simp
  from constructed_wake_up_delivers [OF init_sensor_mote 2 3 4]
  show ?thesis by (simp add: init_sensor_mote)
qed

text \<open>
  C36. The snapshot of a mote changes only with its address and its transmit interval:
  in every state reached by any sequence of method calls, \<open>dumps\<close> gives what it gives on
  the start state with the address and the transmit interval of the reached state. No
  call changes the product code, the manufacturer, the product name or the registers of
  the snapshot.
\<close>

theorem reachable_snapshot:
  assumes "reachable srv (m0, w0) (m, w)"
  shows "dumps rd m u = dumps rd (m0\<lparr>address := address m, txinterval := txinterval m\<rparr>) u"
  using reachable_identity_fst [OF assms]
  by (intro dumps_cong) (simp_all add: same_identity_def)

theorem reachable_snapshot_witness:
  "reachable recorder (sensor_mote, quiet [True])
     (sensor_mote\<lparr>address := 9\<rparr>,
      \<lparr>wire_log = [Wrote 5 ID_DEVICE_ADDR (SwapValue (RawInt 9) 1) True], acks = [],
       answers = []\<rparr>) \<and>
   dumps name_dumps (sensor_mote\<lparr>address := 9\<rparr>) False =
     returns ((header (sensor_mote\<lparr>address := 9\<rparr>))(''registers'' \<mapsto>
       Registers [(''Voltage'', []), (''Climate'', [])]))"
proof -
  let ?w = "\<lparr>wire_log = [Wrote 5 ID_DEVICE_ADDR (SwapValue (RawInt 9) 1) True], acks = [],
    answers = []\<rparr>"
  have s: "step recorder (sensor_mote, quiet [True]) (SetAddress 9) =
      (sensor_mote\<lparr>address := 9\<rparr>, ?w)"
    by (simp add: setAddress_eq rec_set_def quiet_def)
  have r: "reachable recorder (sensor_mote, quiet [True]) (sensor_mote\<lparr>address := 9\<rparr>, ?w)"
    unfolding s [symmetric] by (rule reachable.after [OF reachable.start])
  from reachable_snapshot [OF r, of name_dumps False] r show ?thesis
    by (simp add: dumps_eq sensor_regs regular_list_def)
qed

section \<open>A constructed mote is well typed\<close>

lemma init_typed_state:
  assumes "init rt server pcode addr secu nce ext = returns m0"
    and "in_range 1 addr" and "in_range 1 secu"
    and "in_range 2 (def_txinterval (device_definition m0))"
  shows "typed_state (m0, quiet script)"
  using assms
  by (elim init_returns_cases)
    (simp add: typed_state_def mirrors_fit_def quiet_def attempts_def map_filter_simps)

text \<open>
  C21. From construction on, typing holds. A mote constructed with an address and a
  security option of one byte (the defaults \<open>0xFF\<close> and \<open>0\<close> are), from a device
  definition whose transmit interval fits two bytes, is well typed; and after every
  sequence of method calls whose arguments are in the range of the register they write,
  every command queued or handed to the server has the type of its register and the
  mirrored address, security option and transmit interval fit their registers.
\<close>

theorem constructed_mote_typed:
  assumes "init rt server pcode addr secu nce ext = returns m0"
    and "in_range 1 addr" and "in_range 1 secu"
    and "in_range 2 (def_txinterval (device_definition m0))"
    and "list_all typed_call cs"
  shows "typed_state (run recorder (m0, quiet script) cs)"
  using init_typed_state [OF assms(1-4)] assms(5) by (rule run_typed_state)

theorem constructed_mote_typed_witness:
  "init sensor_runtime (Some recorder) (Some ''0000000100000002'') 5 0 0 False =
     returns sensor_mote \<and>
   in_range 1 5 \<and> in_range 1 0 \<and> in_range 2 (def_txinterval (device_definition sensor_mote)) \<and>
   list_all typed_call [SaveAddressCommand 9, UpdateState SYNC, SetTxInterval 600] \<and>
   typed_state (run recorder (sensor_mote, quiet [True])
     [SaveAddressCommand 9, UpdateState SYNC, SetTxInterval 600])"
proof -
  have 2: "in_range 1 5" "in_range 1 0"
    "in_range 2 (def_txinterval (device_definition sensor_mote))"
    by (simp_all add: in_range_def sensor_mote_def sensor_device_def)
  have 3: "list_all typed_call [SaveAddressCommand 9, UpdateState SYNC, SetTxInterval 600]"
    by (simp add: in_range_def)
  from constructed_mote_typed [OF init_sensor_mote 2 3, of "[True]"] 2 3
  show ?thesis by (simp add: init_sensor_mote)
qed

end
